(* ===== verification/Core_Prelude.thy ===== *)
theory Core_Prelude
  imports Main "HOL-Library.Char_ord" "HOL-Library.List_Lexorder" "HOL-Library.Product_Lexorder"
begin

text \<open>
  The vocabulary every component shares: the error type of
  \<^verbatim>\<open>crates/slipscan-core/src/error.rs\<close>, results and the question-mark operator, 64-bit
  signed arithmetic as a release build computes it, SQLite's integer \<^verbatim>\<open>SUM\<close>, byte strings
  (trimming, decimal and debug formatting) and the lemma collections of the development.

  A Rust \<^verbatim>\<open>String\<close> is a list of bytes (type \<open>string\<close>), compared as Rust and SQLite compare
  text: lexicographically, byte by byte.
\<close>

named_theorems res_simps \<open>rewriting of results, guards and the question-mark operator\<close>
named_theorems frame \<open>which tables a successful write leaves alone\<close>
named_theorems writes \<open>what a successful primitive write does to the store\<close>

section \<open>Errors and results\<close>

text \<open>
  \<^verbatim>\<open>CoreError\<close>, the constructors the modelled code raises. \<open>Unreturned\<close> is not an error of
  the code: it is the value the model gives to a loop that never returns (the reversal walk
  on a cyclic chain), and the ledger theory proves that no reachable store produces it.
  \<open>Panic\<close> stands for an \<^verbatim>\<open>expect\<close> that fails.
\<close>

datatype core_error =
    Sqlite string
  | NotFound string string
  | InvalidEnum string string
  | UnbalancedJournal int int
  | DuplicateJournal string string
  | InvalidStatusTransition string string
  | CloseBlocked "string list"
  | NotClosed
  | Validation string
  | DuplicateTransaction string
  | DuplicateRecurringRun string int
  | DeviceIdentityMissing
  | DeviceKeyMismatch
  | DeviceKeyUnusable string
  | SyncClockDrift nat nat
  | SyncOpUnverified string string
  | SyncMapping string
  | Panic string
  | Unreturned

type_synonym 'a res = "core_error + 'a"

text \<open>The \<^verbatim>\<open>?\<close> operator: propagate an error, or go on with the value.\<close>

definition attempt :: "'a res \<Rightarrow> ('a \<Rightarrow> 'b res) \<Rightarrow> 'b res" where
  "attempt r f = (case r of Inl e \<Rightarrow> Inl e | Inr a \<Rightarrow> f a)"

lemma attempt_Inl [simp]: "attempt (Inl e) f = Inl e"
  by (simp add: attempt_def)

lemma attempt_Inr [simp]: "attempt (Inr a) f = f a"
  by (simp add: attempt_def)

lemma attempt_eq_Inr [res_simps]: "attempt r f = Inr b \<longleftrightarrow> (\<exists>a. r = Inr a \<and> f a = Inr b)"
  by (cases r) auto

lemma attempt_eq_Inl [res_simps]:
  "attempt r f = Inl e \<longleftrightarrow> r = Inl e \<or> (\<exists>a. r = Inr a \<and> f a = Inl e)"
  by (cases r) auto

text \<open>The same as elimination rules, for the long operations: one step of the code at a time.\<close>

lemma attempt_InrE:
  assumes "attempt r f = Inr b" and "\<And>a. r = Inr a \<Longrightarrow> f a = Inr b \<Longrightarrow> R"
  shows R
  using assms by (auto simp: attempt_eq_Inr)

lemma attempt_pairE:
  assumes "attempt r (\<lambda>(x, y). f x y) = Inr b" and "\<And>x y. r = Inr (x, y) \<Longrightarrow> f x y = Inr b \<Longrightarrow> R"
  shows R
  using assms by (auto simp: attempt_eq_Inr)

lemma case_pairE:
  assumes "(case p of (x, y) \<Rightarrow> f x y) = Inr b" and "\<And>x y. p = (x, y) \<Longrightarrow> f x y = Inr b \<Longrightarrow> R"
  shows R
  using assms by (cases p) auto

lemma guard_eq_Inr [res_simps]: "(if c then Inl e else r) = Inr b \<longleftrightarrow> \<not> c \<and> r = Inr b"
  by auto

declare Let_def [res_simps]

text \<open>\<^verbatim>\<open>Option::ok_or\<close>.\<close>

definition ok_or :: "'a option \<Rightarrow> core_error \<Rightarrow> 'a res" where
  "ok_or v e = (case v of None \<Rightarrow> Inl e | Some a \<Rightarrow> Inr a)"

lemma ok_or_eq_Inr [res_simps]: "ok_or v e = Inr a \<longleftrightarrow> v = Some a"
  by (cases v) (auto simp: ok_or_def)

lemma ok_or_eq_Inl [res_simps]: "ok_or v e = Inl e' \<longleftrightarrow> v = None \<and> e' = e"
  by (cases v) (auto simp: ok_or_def)

lemma ok_or_Some [simp]: "ok_or (Some a) e = Inr a"
  by (simp add: ok_or_def)

lemma ok_or_None [simp]: "ok_or None e = Inl e"
  by (simp add: ok_or_def)

text \<open>\<^verbatim>\<open>if let Some(v) = field { .. }\<close> over a patch field, changing the row under construction.\<close>

definition if_some :: "'a option \<Rightarrow> ('a \<Rightarrow> 's \<Rightarrow> 's res) \<Rightarrow> 's \<Rightarrow> 's res" where
  "if_some field f s = (case field of None \<Rightarrow> Inr s | Some v \<Rightarrow> f v s)"

lemma if_some_simps [simp]: "if_some None f s = Inr s" "if_some (Some v) f s = f v s"
  by (simp_all add: if_some_def)

lemma if_some_Inr:
  "if_some field f s = Inr s' \<longleftrightarrow> (field = None \<and> s' = s) \<or> (\<exists>v. field = Some v \<and> f v s = Inr s')"
  by (cases field) auto

text \<open>A property of the row kept along a chain of patch fields: rules to eliminate the chain with.\<close>

lemma if_some_then:
  assumes "attempt (if_some field f a) k = Inr c" and "P a"
    and "\<And>v b. P a \<Longrightarrow> f v a = Inr b \<Longrightarrow> P b"
    and "\<And>b. P b \<Longrightarrow> k b = Inr c \<Longrightarrow> R"
  shows R
  using assms by (auto simp: attempt_eq_Inr if_some_Inr)

lemma if_some_end:
  assumes "if_some field f a = Inr c" and "P a" and "\<And>v b. P a \<Longrightarrow> f v a = Inr b \<Longrightarrow> P b"
  shows "P c"
  using assms by (auto simp: if_some_Inr)

lemma guard_then:
  assumes "(if c then Inl e else r) = Inr b" and "\<not> c \<Longrightarrow> r = Inr b \<Longrightarrow> R"
  shows R
  using assms by (auto split: if_splits)

text \<open>
  A \<^verbatim>\<open>for\<close> loop whose body may return early with an error, threading a state: the body of
  \<^verbatim>\<open>for x in xs { body(x)?; }\<close>.
\<close>

fun for_each :: "('a \<Rightarrow> 's \<Rightarrow> 's res) \<Rightarrow> 'a list \<Rightarrow> 's \<Rightarrow> 's res" where
  "for_each body [] s = Inr s"
| "for_each body (x # xs) s = attempt (body x s) (\<lambda>s'. for_each body xs s')"

text \<open>\<^verbatim>\<open>iter().map(f).collect::<Result<Vec<_>, _>>()\<close>: stop at the first error.\<close>

fun map_res :: "('a \<Rightarrow> 'b res) \<Rightarrow> 'a list \<Rightarrow> 'b list res" where
  "map_res f [] = Inr []"
| "map_res f (x # xs) = attempt (f x) (\<lambda>y. attempt (map_res f xs) (\<lambda>ys. Inr (y # ys)))"

lemma map_res_Inr: "map_res f xs = Inr ys \<Longrightarrow> list_all2 (\<lambda>x y. f x = Inr y) xs ys"
  by (induction xs arbitrary: ys) (auto simp: attempt_eq_Inr)

lemma map_res_in: "map_res f xs = Inr ys \<Longrightarrow> y \<in> set ys \<Longrightarrow> \<exists>x \<in> set xs. f x = Inr y"
  by (induction xs arbitrary: ys) (auto simp: attempt_eq_Inr)

lemma map_res_cong: "(\<And>x. x \<in> set xs \<Longrightarrow> f x = g x) \<Longrightarrow> map_res f xs = map_res g xs"
  by (induction xs) auto

text \<open>
  What such a loop keeps: the contract of a loop body is that it keeps a relation between
  the state before and after it, for the elements the loop runs over.
\<close>

locale loop_body =
  fixes body :: "'a \<Rightarrow> 's \<Rightarrow> 's res"
    and kept :: "'s \<Rightarrow> 's \<Rightarrow> bool"
  assumes kept_refl: "kept s s"
    and kept_trans: "kept s t \<Longrightarrow> kept t u \<Longrightarrow> kept s u"
    and body_keeps: "body x s = Inr s' \<Longrightarrow> kept s s'"
begin

lemma loop_keeps: "for_each body xs s = Inr s' \<Longrightarrow> kept s s'"
proof (induction xs arbitrary: s)
  case Nil
  then show ?case by (simp add: kept_refl)
next
  case (Cons x xs)
  then obtain t where "body x s = Inr t" and "for_each body xs t = Inr s'"
    by (auto simp: res_simps)
  then show ?case using Cons.IH body_keeps kept_trans by blast
qed

end

section \<open>64-bit integers\<close>

text \<open>
  \<^verbatim>\<open>i64\<close> values are integers; arithmetic that can leave the range is written with
  \<open>wrap64\<close>, the two's complement wrap-around of a release build (the workspace sets no
  \<^verbatim>\<open>overflow-checks\<close>, so a release build wraps; a debug build would panic there).
  \<^verbatim>\<open>i128\<close> intermediates stay far inside their range for 64-bit inputs and are plain integers,
  and \<^verbatim>\<open>as i64\<close> is \<open>wrap64\<close>.
\<close>

definition i64_min :: int where "i64_min = - (2 ^ 63)"
definition i64_max :: int where "i64_max = 2 ^ 63 - 1"

definition in_i64 :: "int \<Rightarrow> bool" where
  "in_i64 x \<longleftrightarrow> i64_min \<le> x \<and> x \<le> i64_max"

definition wrap64 :: "int \<Rightarrow> int" where
  "wrap64 x = (x + 2 ^ 63) mod 2 ^ 64 - 2 ^ 63"

lemma wrap64_id [simp]: "in_i64 x \<Longrightarrow> wrap64 x = x"
  by (simp add: wrap64_def in_i64_def i64_min_def i64_max_def)

lemma in_i64_wrap64 [simp]: "in_i64 (wrap64 x)"
proof -
  have "0 \<le> (x + 2 ^ 63) mod 2 ^ 64" and "(x + 2 ^ 63) mod 2 ^ 64 < (2::int) ^ 64"
    by (rule pos_mod_sign, simp) (rule pos_mod_bound, simp)
  then show ?thesis by (simp add: wrap64_def in_i64_def i64_min_def i64_max_def)
qed

lemma wrap64_add_left [simp]: "wrap64 (wrap64 a + b) = wrap64 (a + b)"
proof -
  have "((a + 2 ^ 63) mod 2 ^ 64 - 2 ^ 63 + b + 2 ^ 63) mod 2 ^ 64
      = ((a + 2 ^ 63) mod 2 ^ 64 + b) mod (2 ^ 64 :: int)"
    by (simp add: algebra_simps)
  also have "\<dots> = (a + 2 ^ 63 + b) mod 2 ^ 64"
    by (rule mod_add_left_eq)
  also have "\<dots> = (a + b + 2 ^ 63) mod 2 ^ 64"
    by (simp add: algebra_simps)
  finally show ?thesis by (simp add: wrap64_def)
qed

lemma wrap64_add_right [simp]: "wrap64 (a + wrap64 b) = wrap64 (a + b)"
  using wrap64_add_left [of b a] by (simp add: add.commute)

lemma wrap64_neg_wrap64 [simp]: "wrap64 (- wrap64 a) = wrap64 (- a)"
proof -
  have "wrap64 (- wrap64 a) = wrap64 (wrap64 (- a + (a - wrap64 a)))"
    by simp
  moreover have "\<exists>k. a - wrap64 a = k * 2 ^ 64"
  proof -
    have "a - wrap64 a = ((a + 2 ^ 63) div 2 ^ 64) * 2 ^ 64"
      using minus_mod_eq_div_mult [of "a + 2 ^ 63" "2 ^ 64"] by (simp add: wrap64_def)
    then show ?thesis ..
  qed
  moreover have "wrap64 (- a + k * 2 ^ 64) = wrap64 (- a)" for k
    using mod_mult_self1 [of "- a + 2 ^ 63" k "2 ^ 64"] by (simp add: wrap64_def algebra_simps)
  ultimately show ?thesis by (metis in_i64_wrap64 wrap64_id)
qed

text \<open>\<^verbatim>\<open>iter().sum::<i64>()\<close>: every addition wraps.\<close>

definition i64_sum :: "int list \<Rightarrow> int" where
  "i64_sum xs = foldl (\<lambda>acc x. wrap64 (acc + x)) 0 xs"

lemma foldl_wrap64: "foldl (\<lambda>acc x. wrap64 (acc + x)) (wrap64 a) xs = wrap64 (a + sum_list xs)"
proof (induction xs arbitrary: a)
  case Nil
  show ?case by simp
next
  case (Cons x xs)
  show ?case using Cons [of "a + x"] by (simp add: add.assoc)
qed

lemma i64_sum_eq: "i64_sum xs = wrap64 (sum_list xs)"
  using foldl_wrap64 [of 0 xs] by (simp add: i64_sum_def in_i64_def i64_min_def i64_max_def)

lemma i64_sum_Nil [simp]: "i64_sum [] = 0"
  by (simp add: i64_sum_def)

lemma i64_sum_append: "i64_sum (xs @ ys) = wrap64 (i64_sum xs + i64_sum ys)"
  by (simp add: i64_sum_eq)

text \<open>\<^verbatim>\<open>i64::abs\<close>: the minimum maps to itself in a release build.\<close>

definition i64_abs :: "int \<Rightarrow> int" where
  "i64_abs x = wrap64 \<bar>x\<bar>"

text \<open>Rust's integer division truncates towards zero.\<close>

definition tdiv :: "int \<Rightarrow> int \<Rightarrow> int" where
  "tdiv a b = (if 0 \<le> a \<longleftrightarrow> 0 \<le> b then \<bar>a\<bar> div \<bar>b\<bar> else - (\<bar>a\<bar> div \<bar>b\<bar>))"

lemma tdiv_nonneg [simp]: "0 \<le> a \<Longrightarrow> 0 \<le> b \<Longrightarrow> tdiv a b = a div b"
  by (simp add: tdiv_def)

lemma tdiv_neg: "a < 0 \<Longrightarrow> 0 < b \<Longrightarrow> tdiv a b = - (- a div b)"
  by (simp add: tdiv_def)

text \<open>
  SQLite's \<^verbatim>\<open>SUM\<close> over an integer column, with \<^verbatim>\<open>COALESCE(.., 0)\<close>: it raises
  ``integer overflow'' when a running total leaves the 64-bit range.
\<close>

fun sql_sum_from :: "int \<Rightarrow> int list \<Rightarrow> int res" where
  "sql_sum_from acc [] = Inr acc"
| "sql_sum_from acc (x # xs) =
     (if in_i64 (acc + x) then sql_sum_from (acc + x) xs else Inl (Sqlite ''integer overflow''))"

definition sql_sum :: "int list \<Rightarrow> int res" where
  "sql_sum xs = sql_sum_from 0 xs"

lemma sql_sum_from_Inr: "sql_sum_from acc xs = Inr t \<Longrightarrow> t = acc + sum_list xs"
  by (induction acc xs rule: sql_sum_from.induct) (auto split: if_splits)

lemma sql_sum_Inr: "sql_sum xs = Inr t \<Longrightarrow> t = sum_list xs"
  using sql_sum_from_Inr [of 0 xs t] by (simp add: sql_sum_def)

lemma sql_sum_from_nonneg:
  assumes "\<forall>x \<in> set xs. 0 \<le> x" and "0 \<le> acc" and "acc + sum_list xs \<le> i64_max"
  shows "sql_sum_from acc xs = Inr (acc + sum_list xs)"
  using assms
proof (induction xs arbitrary: acc)
  case Nil
  then show ?case by simp
next
  case (Cons x xs)
  have "0 \<le> sum_list xs" using Cons.prems(1) by (auto intro: sum_list_nonneg)
  then have "in_i64 (acc + x)"
    using Cons.prems by (auto simp: in_i64_def i64_min_def)
  then show ?case using Cons.IH [of "acc + x"] Cons.prems by (simp add: add.assoc)
qed

lemma sql_sum_nonneg:
  "\<forall>x \<in> set xs. 0 \<le> x \<Longrightarrow> sum_list xs \<le> i64_max \<Longrightarrow> sql_sum xs = Inr (sum_list xs)"
  using sql_sum_from_nonneg [of xs 0] by (simp add: sql_sum_def)

section \<open>Strings\<close>

text \<open>
  The UTF-8 encodings of the characters Rust's \<^verbatim>\<open>str::trim\<close> removes (Unicode
  \<^verbatim>\<open>White_Space\<close>).
\<close>

definition ws_seqs :: "string list" where
  "ws_seqs = [[CHR 0x09], [CHR 0x0A], [CHR 0x0B], [CHR 0x0C], [CHR 0x0D], [CHR 0x20],
     [CHR 0xC2, CHR 0x85], [CHR 0xC2, CHR 0xA0], [CHR 0xE1, CHR 0x9A, CHR 0x80],
     [CHR 0xE2, CHR 0x80, CHR 0x80], [CHR 0xE2, CHR 0x80, CHR 0x81], [CHR 0xE2, CHR 0x80, CHR 0x82],
     [CHR 0xE2, CHR 0x80, CHR 0x83], [CHR 0xE2, CHR 0x80, CHR 0x84], [CHR 0xE2, CHR 0x80, CHR 0x85],
     [CHR 0xE2, CHR 0x80, CHR 0x86], [CHR 0xE2, CHR 0x80, CHR 0x87], [CHR 0xE2, CHR 0x80, CHR 0x88],
     [CHR 0xE2, CHR 0x80, CHR 0x89], [CHR 0xE2, CHR 0x80, CHR 0x8A], [CHR 0xE2, CHR 0x80, CHR 0xA8],
     [CHR 0xE2, CHR 0x80, CHR 0xA9], [CHR 0xE2, CHR 0x80, CHR 0xAF], [CHR 0xE2, CHR 0x81, CHR 0x9F],
     [CHR 0xE3, CHR 0x80, CHR 0x80]]"

definition starts_with :: "string \<Rightarrow> string \<Rightarrow> bool" where
  "starts_with w s \<longleftrightarrow> take (length w) s = w"

text \<open>Drop sequences of a list from the front until none matches; each drops a byte at least.\<close>

function drop_seqs :: "string list \<Rightarrow> string \<Rightarrow> string" where
  "drop_seqs ws s =
     (case List.find (\<lambda>w. w \<noteq> [] \<and> starts_with w s) ws of
        None \<Rightarrow> s
      | Some w \<Rightarrow> drop_seqs ws (drop (length w) s))"
  by pat_completeness auto
termination
proof (relation "measure (\<lambda>(ws, s). length s)")
  show "wf (measure (\<lambda>(ws :: string list, s :: string). length s))" by simp
next
  fix ws :: "string list" and s w :: string
  assume "List.find (\<lambda>w. w \<noteq> [] \<and> starts_with w s) ws = Some w"
  then have "w \<noteq> []" and "starts_with w s" by (auto simp: find_Some_iff)
  then have "s \<noteq> []" by (auto simp: starts_with_def)
  with \<open>w \<noteq> []\<close> show "((ws, drop (length w) s), (ws, s)) \<in> measure (\<lambda>(ws, s). length s)"
    by simp
qed

declare drop_seqs.simps [simp del]

text \<open>\<^verbatim>\<open>str::trim\<close>.\<close>

definition trim :: "string \<Rightarrow> string" where
  "trim s = rev (drop_seqs (map rev ws_seqs) (rev (drop_seqs ws_seqs s)))"

definition normalize_optional :: "string option \<Rightarrow> string option" where
  "normalize_optional raw =
     (case raw of
        None \<Rightarrow> None
      | Some s \<Rightarrow> (let trimmed = trim s in if trimmed = [] then None else Some trimmed))"

text \<open>
  The number of a character and back, with equations that evaluate without the bit operations of
  the library; the definitions below get their code equations from these.
\<close>

definition char_int :: "char \<Rightarrow> int" where
  "char_int c = of_char c"

definition int_char :: "int \<Rightarrow> char" where
  "int_char n = char_of n"

lemma char_int_code [code]:
  "char_int (Char b0 b1 b2 b3 b4 b5 b6 b7) = of_bool b0 + 2 * (of_bool b1 + 2 * (of_bool b2 + 2 * (of_bool b3
     + 2 * (of_bool b4 + 2 * (of_bool b5 + 2 * (of_bool b6 + 2 * of_bool b7))))))"
  by (simp add: char_int_def of_char_def)

lemma int_char_code [code]:
  "int_char n = Char (n mod 2 = 1) (n div 2 mod 2 = 1) (n div 4 mod 2 = 1) (n div 8 mod 2 = 1)
     (n div 16 mod 2 = 1) (n div 32 mod 2 = 1) (n div 64 mod 2 = 1) (n div 128 mod 2 = 1)"
  by (simp add: int_char_def char_of_def bit_iff_odd odd_iff_mod_2_eq_one)

lemma char_of_int_char: "char_of n = int_char (int n)"
  by (simp add: int_char_def)

lemma of_char_char_int: "of_char c = nat (char_int c)"
  by (simp add: char_int_def)

lemma char_int_range: "0 \<le> char_int c" "char_int c < 256"
proof -
  have "int (of_char c) = char_int c" unfolding char_int_def by (rule of_nat_of_char)
  then show "0 \<le> char_int c" "char_int c < 256" using nat_of_char_less_256 [of c] by linarith+
qed

text \<open>Decimal text of an integer, as \<^verbatim>\<open>Display\<close> prints it.\<close>

fun show_nat :: "nat \<Rightarrow> string" where
  "show_nat n = (if n < 10 then [char_of (48 + n)] else show_nat (n div 10) @ [char_of (48 + n mod 10)])"

declare show_nat.simps [simp del]

definition show_pos :: "int \<Rightarrow> string" where
  "show_pos n = show_nat (nat n)"

lemma show_pos_code [code]:
  "show_pos n = (if n < 10 then [int_char (48 + max 0 n)] else show_pos (n div 10) @ [int_char (48 + n mod 10)])"
  by (subst (1) show_pos_def, subst show_nat.simps)
    (auto simp: show_pos_def char_of_int_char nat_div_distrib zmod_int max_def)

lemma show_nat_code [code]: "show_nat n = show_pos (int n)"
  by (simp add: show_pos_def)

definition show_int :: "int \<Rightarrow> string" where
  "show_int i = (if i < 0 then CHR ''-'' # show_nat (nat (- i)) else show_nat (nat i))"

lemma show_int_code [code]: "show_int i = (if i < 0 then CHR ''-'' # show_pos (- i) else show_pos i)"
  by (simp add: show_int_def show_pos_def)

text \<open>
  \<^verbatim>\<open>Debug\<close> text of a string (\<^verbatim>\<open>{:?}\<close>): quotes, backslashes and ASCII control characters
  escaped, other bytes as they are.
\<close>

definition hex_digit :: "nat \<Rightarrow> char" where
  "hex_digit d = char_of (if d < 10 then 48 + d else 87 + d)"

definition debug_char :: "char \<Rightarrow> string" where
  "debug_char c =
     (if c = CHR 0x22 then [CHR 0x5C, CHR 0x22]
      else if c = CHR 0x5C then [CHR 0x5C, CHR 0x5C]
      else if c = CHR 0x09 then [CHR 0x5C, CHR ''t'']
      else if c = CHR 0x0A then [CHR 0x5C, CHR ''n'']
      else if c = CHR 0x0D then [CHR 0x5C, CHR ''r'']
      else if c = CHR 0x00 then [CHR 0x5C, CHR ''0'']
      else let n = of_char c :: nat in
        if n < 16 then [CHR 0x5C, CHR ''u'', CHR 0x7B, hex_digit n, CHR 0x7D]
        else if n < 32 \<or> n = 127
          then [CHR 0x5C, CHR ''u'', CHR 0x7B, hex_digit (n div 16), hex_digit (n mod 16), CHR 0x7D]
        else [c])"

lemma hex_digit_code [code]: "hex_digit d = int_char (if d < 10 then 48 + int d else 87 + int d)"
  by (simp add: hex_digit_def char_of_int_char)

lemma debug_char_code [code]:
  "debug_char c = (let i = char_int c in if 35 \<le> i \<and> i \<noteq> 92 \<and> i \<noteq> 127 then [c]
     else if i = 34 then [CHR 0x5C, CHR 0x22]
     else if i = 92 then [CHR 0x5C, CHR 0x5C]
     else if i = 9 then [CHR 0x5C, CHR ''t'']
     else if i = 10 then [CHR 0x5C, CHR ''n'']
     else if i = 13 then [CHR 0x5C, CHR ''r'']
     else if i = 0 then [CHR 0x5C, CHR ''0'']
     else let n = nat i in
       if n < 16 then [CHR 0x5C, CHR ''u'', CHR 0x7B, hex_digit n, CHR 0x7D]
       else if n < 32 \<or> n = 127
         then [CHR 0x5C, CHR ''u'', CHR 0x7B, hex_digit (n div 16), hex_digit (n mod 16), CHR 0x7D]
       else [c])"
proof -
  have char: "c = d \<longleftrightarrow> char_int c = char_int d" for d by (simp add: char_int_def)
  have "char_int CHR 0x22 = 34" "char_int CHR 0x5C = 92" "char_int CHR 0x09 = 9" "char_int CHR 0x0A = 10"
    "char_int CHR 0x0D = 13" "char_int CHR 0x00 = 0"
    by (simp_all add: char_int_def)
  then show ?thesis
    using char_int_range [of c] unfolding debug_char_def char [of "CHR 0x22"] char [of "CHR 0x5C"] char [of "CHR 0x09"]
      char [of "CHR 0x0A"] char [of "CHR 0x0D"] char [of "CHR 0x00"] of_char_char_int Let_def
    by (auto simp: char)
qed

definition debug_str :: "string \<Rightarrow> string" where
  "debug_str s = [CHR 0x22] @ concat (map debug_char s) @ [CHR 0x22]"

section \<open>Lists\<close>

lemma find_eq_SomeD: "List.find P xs = Some x \<Longrightarrow> x \<in> set xs \<and> P x"
  by (auto simp: find_Some_iff)

lemma find_append: "List.find P (xs @ ys) = (case List.find P xs of None \<Rightarrow> List.find P ys | Some x \<Rightarrow> Some x)"
  by (induction xs) auto

lemma find_append_Some [simp]: "List.find P xs = Some x \<Longrightarrow> List.find P (xs @ ys) = Some x"
  by (simp add: find_append)

lemma sum_list_map_zero: "(\<And>x. x \<in> set xs \<Longrightarrow> f x = 0) \<Longrightarrow> sum_list (map f xs) = (0::int)"
  by (induction xs) auto

lemma sum_list_indicator:
  fixes c :: int
  shows "distinct (map g xs) \<Longrightarrow> k \<in> g ` set xs \<Longrightarrow> sum_list (map (\<lambda>x. if k = g x then c else 0) xs) = c"
proof (induction xs)
  case Nil
  then show ?case by simp
next
  case (Cons x xs)
  have "sum_list (map (\<lambda>y. if k = g y then c else 0) xs) = 0" if "k = g x"
    using Cons.prems(1) that by (intro sum_list_map_zero) (auto simp: image_iff)
  then show ?case using Cons by (cases "k = g x") simp_all
qed

lemma sum_list_map_filter_le:
  fixes f :: "'a \<Rightarrow> int"
  assumes "\<forall>x \<in> set xs. 0 \<le> f x"
  shows "sum_list (map f (filter P xs)) \<le> sum_list (map f xs)"
  using assms by (induction xs) auto

lemma sum_list_map_swap_neg:
  fixes f g :: "'a \<Rightarrow> int"
  shows "sum_list (map (\<lambda>x. f x - g x) xs) = sum_list (map f xs) - sum_list (map g xs)"
  by (induction xs) auto

text \<open>A table is the list of its rows in insertion order; these are SQL's three writes by key.\<close>

definition tab_find :: "('r \<Rightarrow> string) \<Rightarrow> string \<Rightarrow> 'r list \<Rightarrow> 'r option" where
  "tab_find key k rows = List.find (\<lambda>r. key r = k) rows"

definition tab_put :: "('r \<Rightarrow> string) \<Rightarrow> 'r \<Rightarrow> 'r list \<Rightarrow> 'r list" where
  "tab_put key row rows = map (\<lambda>r. if key r = key row then row else r) rows"

definition tab_del :: "('r \<Rightarrow> string) \<Rightarrow> string \<Rightarrow> 'r list \<Rightarrow> 'r list" where
  "tab_del key k rows = filter (\<lambda>r. key r \<noteq> k) rows"

lemma tab_find_Some: "tab_find key k rows = Some r \<Longrightarrow> r \<in> set rows \<and> key r = k"
  by (auto simp: tab_find_def dest: find_eq_SomeD)

lemma tab_find_None: "tab_find key k rows = None \<longleftrightarrow> k \<notin> key ` set rows"
  by (auto simp: tab_find_def find_None_iff)

lemma tab_find_append [simp]: "tab_find key k rows = Some r \<Longrightarrow> tab_find key k (rows @ more) = Some r"
  by (simp add: tab_find_def)

lemma tab_find_new [simp]: "key r \<notin> key ` set rows \<Longrightarrow> tab_find key (key r) (rows @ [r]) = Some r"
  by (auto simp: tab_find_def find_append find_None_iff rev_image_eqI
      split: option.splits dest!: find_eq_SomeD)

lemma tab_find_distinct:
  assumes "distinct (map key rows)" and "r \<in> set rows"
  shows "tab_find key (key r) rows = Some r"
  using assms unfolding tab_find_def by (induction rows) (auto simp: rev_image_eqI)

lemma map_key_tab_put [simp]: "map key (tab_put key row rows) = map key rows"
  by (auto simp: tab_put_def)

lemma tab_find_put:
  "tab_find key k (tab_put key row rows) =
     (if k = key row \<and> k \<in> key ` set rows then Some row else tab_find key k rows)"
  unfolding tab_find_def tab_put_def by (induction rows) auto

lemma set_tab_put: "set (tab_put key row rows) \<subseteq> insert row (set rows)"
  by (auto simp: tab_put_def)

lemma in_tab_put: "r \<in> set (tab_put key row rows) \<Longrightarrow> r = row \<or> r \<in> set rows \<and> key r \<noteq> key row"
  by (auto simp: tab_put_def split: if_splits)

lemma tab_find_map_key:
  "(\<And>r. key (f r) = key r) \<Longrightarrow> tab_find key k (map f rows) = map_option f (tab_find key k rows)"
  by (induction rows) (auto simp: tab_find_def)

text \<open>With unique ids, an update replaces one row.\<close>

lemma map_if_put:
  assumes "distinct (map key rows)" and "tab_find key (key row) rows = Some before" and "f before = row"
  shows "map (\<lambda>r. if key r = key row then f r else r) rows = tab_put key row rows"
proof -
  have "r = before" if "r \<in> set rows" "key r = key row" for r
    using tab_find_distinct [OF assms(1) that(1)] that(2) assms(2) by simp
  then show ?thesis unfolding tab_put_def using assms(3) by (auto intro: map_cong)
qed

lemma filter_tab_put_out:
  "\<not> P row \<Longrightarrow> (\<forall>r \<in> set rows. key r = key row \<longrightarrow> \<not> P r) \<Longrightarrow> filter P (tab_put key row rows) = filter P rows"
  unfolding tab_put_def by (induction rows) auto

lemma tab_find_del: "k \<noteq> i \<Longrightarrow> tab_find key i (tab_del key k rows) = tab_find key i rows"
  unfolding tab_find_def tab_del_def by (induction rows) auto

end
