(* ===== verification/Dates.thy ===== *)
theory Dates
  imports Core_Prelude
begin

text \<open>
  Dates. The calendar itself is the \<^verbatim>\<open>time\<close> crate, which is not part of the repository: it is a
  parameter, the record \<open>time_lib\<close> of the calls the core makes, and the helpers of
  \<^verbatim>\<open>crates/slipscan-core/src/util.rs\<close> are functions of it. A \<^verbatim>\<open>time::Date\<close> is its calendar
  triple, ordered as the crate orders dates.
\<close>

datatype date = Date (d_year: int) (d_month: int) (d_day: int)

instantiation date :: linorder
begin

definition less_eq_date :: "date \<Rightarrow> date \<Rightarrow> bool" where
  "less_eq_date a b \<longleftrightarrow> (d_year a, d_month a, d_day a) \<le> (d_year b, d_month b, d_day b)"

definition less_date :: "date \<Rightarrow> date \<Rightarrow> bool" where
  "less_date a b \<longleftrightarrow> (d_year a, d_month a, d_day a) < (d_year b, d_month b, d_day b)"

instance
proof
  fix a b c :: date
  show "a < b \<longleftrightarrow> a \<le> b \<and> \<not> b \<le> a"
    by (auto simp: less_eq_date_def less_date_def)
  show "a \<le> a" by (simp add: less_eq_date_def)
  show "a \<le> b \<Longrightarrow> b \<le> c \<Longrightarrow> a \<le> c"
    unfolding less_eq_date_def by (rule order_trans)
  show "a \<le> b \<Longrightarrow> b \<le> a \<Longrightarrow> a = b"
    by (cases a; cases b) (auto simp: less_eq_date_def)
  show "a \<le> b \<or> b \<le> a"
    unfolding less_eq_date_def by (rule linear)
qed

end

text \<open>
  The calls of the \<^verbatim>\<open>time\<close> crate: \<^verbatim>\<open>Date::parse\<close> and \<^verbatim>\<open>Date::format\<close> with
  \<^verbatim>\<open>[year]-[month]-[day]\<close>, the text of a parse error, \<^verbatim>\<open>Date::checked_add\<close> of a number of days,
  the whole days between two dates, \<^verbatim>\<open>Month::length\<close> (year, month) and
  \<^verbatim>\<open>Date::from_calendar_date\<close>.
\<close>

record time_lib =
  tl_parse :: "string \<Rightarrow> date option"
  tl_parse_err :: "string \<Rightarrow> string"
  tl_format :: "date \<Rightarrow> string option"
  tl_add_days :: "date \<Rightarrow> int \<Rightarrow> date option"
  tl_days :: "date \<Rightarrow> date \<Rightarrow> int"
  tl_month_len :: "int \<Rightarrow> int \<Rightarrow> int"
  tl_calendar :: "int \<Rightarrow> int \<Rightarrow> int \<Rightarrow> date option"

definition parse_date :: "time_lib \<Rightarrow> string \<Rightarrow> date res" where
  "parse_date T s =
     (case tl_parse T s of
        None \<Rightarrow> Inl (Validation (''invalid date '' @ debug_str s @ '': '' @ tl_parse_err T s))
      | Some d \<Rightarrow> Inr d)"

lemma parse_date_Inr [res_simps]: "parse_date T s = Inr d \<longleftrightarrow> tl_parse T s = Some d"
  by (auto simp: parse_date_def split: option.splits)

definition days_between :: "time_lib \<Rightarrow> string \<Rightarrow> string \<Rightarrow> int res" where
  "days_between T a b =
     attempt (parse_date T a) (\<lambda>da. attempt (parse_date T b) (\<lambda>db. Inr (i64_abs (tl_days T da db))))"

text \<open>Adding a \<^verbatim>\<open>Duration\<close> to a \<^verbatim>\<open>Date\<close> with \<^verbatim>\<open>+\<close> panics past the last date.\<close>

definition day_after :: "time_lib \<Rightarrow> string \<Rightarrow> string res" where
  "day_after T s =
     attempt (parse_date T s) (\<lambda>d.
       case tl_add_days T d 1 of
         None \<Rightarrow> Inl (Panic ''overflow adding duration to date'')
       | Some d' \<Rightarrow>
           ok_or (tl_format T d') (Validation (''date arithmetic on '' @ debug_str s)))"

definition parse_date_range :: "time_lib \<Rightarrow> string \<Rightarrow> string \<Rightarrow> unit res" where
  "parse_date_range T from_date to_date =
     attempt (parse_date T from_date) (\<lambda>f.
     attempt (parse_date T to_date) (\<lambda>t.
       if t < f then Inl (Validation (''invalid range: from_date '' @ debug_str from_date
           @ '' is after to_date '' @ debug_str to_date))
       else Inr ()))"

end
