(* ===== verification/Calendar.thy ===== *)
theory Calendar
  imports Dates
begin

text \<open>
  The proleptic Gregorian calendar, as an instance of the calendar parameter: what the theorems
  about dates are applied to in their witnesses, and what the calendar laws are shown to hold
  of. Years run from \<^verbatim>\<open>-9999\<close> to \<^verbatim>\<open>9999\<close> (the crate's default range); dates are written with a
  four-digit year.
\<close>

definition leap :: "int \<Rightarrow> bool" where
  "leap y \<longleftrightarrow> y mod 4 = 0 \<and> (y mod 100 \<noteq> 0 \<or> y mod 400 = 0)"

definition greg_month_len :: "int \<Rightarrow> int \<Rightarrow> int" where
  "greg_month_len y m =
     (if m = 2 then (if leap y then 29 else 28)
      else if m = 4 \<or> m = 6 \<or> m = 9 \<or> m = 11 then 30 else 31)"

definition greg_calendar :: "int \<Rightarrow> int \<Rightarrow> int \<Rightarrow> date option" where
  "greg_calendar y m d =
     (if -9999 \<le> y \<and> y \<le> 9999 \<and> 1 \<le> m \<and> m \<le> 12 \<and> 1 \<le> d \<and> d \<le> greg_month_len y m
      then Some (Date y m d) else None)"

text \<open>The number of a day, counting from 1 March of the year 0, and the date of a number.\<close>

definition greg_number :: "date \<Rightarrow> int" where
  "greg_number t =
     (let y = (if d_month t \<le> 2 then d_year t - 1 else d_year t);
          m = (d_month t + 9) mod 12
      in 365 * y + y div 4 - y div 100 + y div 400 + (m * 306 + 5) div 10 + d_day t - 1)"

definition greg_date :: "int \<Rightarrow> date option" where
  "greg_date n =
     (let start = (\<lambda>y. 365 * y + y div 4 - y div 100 + y div 400);
          y0 = (10000 * n + 14780) div 3652425;
          y = (if n < start y0 then y0 - 1 else y0);
          r = n - start y;
          k = (100 * r + 52) div 3060
      in greg_calendar (y + (k + 2) div 12) ((k + 2) mod 12 + 1) (r - (k * 306 + 5) div 10 + 1))"

definition greg_add_days :: "date \<Rightarrow> int \<Rightarrow> date option" where
  "greg_add_days t n = greg_date (greg_number t + n)"

definition greg_days :: "date \<Rightarrow> date \<Rightarrow> int" where
  "greg_days a b = greg_number a - greg_number b"

definition digit_of :: "char \<Rightarrow> int option" where
  "digit_of c = (let n = of_char c :: int in if 48 \<le> n \<and> n \<le> 57 then Some (n - 48) else None)"

lemma digit_of_code [code]:
  "digit_of c = (let n = char_int c in if 48 \<le> n \<and> n \<le> 57 then Some (n - 48) else None)"
  by (simp add: digit_of_def char_int_def)

fun number_of :: "int \<Rightarrow> string \<Rightarrow> int option" where
  "number_of acc [] = Some acc"
| "number_of acc (c # cs) =
     (case digit_of c of None \<Rightarrow> None | Some d \<Rightarrow> number_of (10 * acc + d) cs)"

definition greg_parse :: "string \<Rightarrow> date option" where
  "greg_parse s =
     (if length s = 10 \<and> s ! 4 = CHR ''-'' \<and> s ! 7 = CHR ''-''
      then (case (number_of 0 (take 4 s), number_of 0 (take 2 (drop 5 s)), number_of 0 (drop 8 s)) of
          (Some y, Some m, Some d) \<Rightarrow> greg_calendar y m d
        | _ \<Rightarrow> None)
      else None)"

definition digits2 :: "int \<Rightarrow> string" where
  "digits2 n = [char_of (nat (48 + n div 10 mod 10)), char_of (nat (48 + n mod 10))]"

lemma digits2_code [code]: "digits2 n = [int_char (48 + n div 10 mod 10), int_char (48 + n mod 10)]"
  by (simp add: digits2_def char_of_int_char)

definition greg_format :: "date \<Rightarrow> string option" where
  "greg_format t =
     (if 0 \<le> d_year t
      then Some (digits2 (d_year t div 100) @ digits2 (d_year t mod 100) @ ''-''
             @ digits2 (d_month t) @ ''-'' @ digits2 (d_day t))
      else None)"

definition gregorian :: time_lib where
  "gregorian = \<lparr>tl_parse = greg_parse, tl_parse_err = (\<lambda>_. ''invalid''), tl_format = greg_format,
     tl_add_days = greg_add_days, tl_days = greg_days, tl_month_len = greg_month_len,
     tl_calendar = greg_calendar\<rparr>"

lemma greg_checks:
  "greg_parse ''2026-02-28'' = Some (Date 2026 2 28)"
  "greg_parse ''2026-02-29'' = None"
  "greg_add_days (Date 2024 2 28) 1 = Some (Date 2024 2 29)"
  "greg_add_days (Date 2025 12 31) 1 = Some (Date 2026 1 1)"
  "greg_format (Date 2026 7 5) = Some ''2026-07-05''"
  by code_simp+

end
