(* ===== verification/Domain_Books.thy ===== *)
theory Domain_Books
  imports Core_Prelude "HOL-Library.Word"
begin

text \<open>
  The data model of \<^verbatim>\<open>crates/slipscan-core/src/domain.rs\<close>, first part: books, accounts,
  transactions, categories, budgets, members, payment watches, contacts, locations, the product
  catalogue and recurring schedules. Every struct is a record with the source's fields in the
  source's order (a short prefix keeps the selectors apart), every \<^verbatim>\<open>str_enum!\<close> a datatype
  with the text \<^verbatim>\<open>as_str\<close> stores. \<^verbatim>\<open>i64\<close> fields are integers, \<^verbatim>\<open>u32\<close> fields 32-bit words,
  \<^verbatim>\<open>String\<close> fields byte strings, and a patch field that distinguishes ``absent'' from ``set to
  null'' is an option of an option. An \<^verbatim>\<open>f64\<close> field is its 64-bit pattern; nothing modelled here
  computes with one.
\<close>

type_synonym f64 = "64 word"

section \<open>Enumerations\<close>

datatype book_kind = BK_Personal | BK_Business

fun book_kind_str :: "book_kind \<Rightarrow> string" where
  "book_kind_str BK_Personal = ''personal''"
| "book_kind_str BK_Business = ''business''"

datatype account_kind = AK_Bank | AK_Cash | AK_Card | AK_Asset | AK_Liability

fun account_kind_str :: "account_kind \<Rightarrow> string" where
  "account_kind_str AK_Bank = ''bank''"
| "account_kind_str AK_Cash = ''cash''"
| "account_kind_str AK_Card = ''card''"
| "account_kind_str AK_Asset = ''asset''"
| "account_kind_str AK_Liability = ''liability''"

datatype transaction_source = TS_Scraper | TS_Email | TS_Import | TS_Manual | TS_Recurring

fun transaction_source_str :: "transaction_source \<Rightarrow> string" where
  "transaction_source_str TS_Scraper = ''scraper''"
| "transaction_source_str TS_Email = ''email''"
| "transaction_source_str TS_Import = ''import''"
| "transaction_source_str TS_Manual = ''manual''"
| "transaction_source_str TS_Recurring = ''recurring''"

datatype transaction_status = TX_Pending | TX_Verified | TX_Rejected

fun transaction_status_str :: "transaction_status \<Rightarrow> string" where
  "transaction_status_str TX_Pending = ''pending''"
| "transaction_status_str TX_Verified = ''verified''"
| "transaction_status_str TX_Rejected = ''rejected''"

datatype category_kind = CT_Income | CT_Expense | CT_Transfer

fun category_kind_str :: "category_kind \<Rightarrow> string" where
  "category_kind_str CT_Income = ''income''"
| "category_kind_str CT_Expense = ''expense''"
| "category_kind_str CT_Transfer = ''transfer''"

datatype mapping_source = MS_User | MS_Rule | MS_Llm | MS_Pack | MS_System

fun mapping_source_str :: "mapping_source \<Rightarrow> string" where
  "mapping_source_str MS_User = ''user''"
| "mapping_source_str MS_Rule = ''rule''"
| "mapping_source_str MS_Llm = ''llm''"
| "mapping_source_str MS_Pack = ''pack''"
| "mapping_source_str MS_System = ''system''"

datatype pay_delivery_state = PD_Pending | PD_Delivered | PD_Failed

fun pay_delivery_state_str :: "pay_delivery_state \<Rightarrow> string" where
  "pay_delivery_state_str PD_Pending = ''pending''"
| "pay_delivery_state_str PD_Delivered = ''delivered''"
| "pay_delivery_state_str PD_Failed = ''failed''"

datatype member_status = MB_Active | MB_Revoked

fun member_status_str :: "member_status \<Rightarrow> string" where
  "member_status_str MB_Active = ''active''"
| "member_status_str MB_Revoked = ''revoked''"

datatype location_kind = LK_Branch | LK_Warehouse | LK_Site

fun location_kind_str :: "location_kind \<Rightarrow> string" where
  "location_kind_str LK_Branch = ''branch''"
| "location_kind_str LK_Warehouse = ''warehouse''"
| "location_kind_str LK_Site = ''site''"

datatype contact_role = CR_Customer | CR_Supplier | CR_Both

fun contact_role_str :: "contact_role \<Rightarrow> string" where
  "contact_role_str CR_Customer = ''customer''"
| "contact_role_str CR_Supplier = ''supplier''"
| "contact_role_str CR_Both = ''both''"

datatype recurring_schedule_kind = RK_Invoice | RK_Transaction

fun recurring_schedule_kind_str :: "recurring_schedule_kind \<Rightarrow> string" where
  "recurring_schedule_kind_str RK_Invoice = ''invoice''"
| "recurring_schedule_kind_str RK_Transaction = ''transaction''"

datatype recurring_schedule_status = RSS_Active | RSS_Paused | RSS_Ended

fun recurring_schedule_status_str :: "recurring_schedule_status \<Rightarrow> string" where
  "recurring_schedule_status_str RSS_Active = ''active''"
| "recurring_schedule_status_str RSS_Paused = ''paused''"
| "recurring_schedule_status_str RSS_Ended = ''ended''"

datatype recurring_frequency = RF_Daily | RF_Weekly | RF_Monthly | RF_Yearly

fun recurring_frequency_str :: "recurring_frequency \<Rightarrow> string" where
  "recurring_frequency_str RF_Daily = ''daily''"
| "recurring_frequency_str RF_Weekly = ''weekly''"
| "recurring_frequency_str RF_Monthly = ''monthly''"
| "recurring_frequency_str RF_Yearly = ''yearly''"

datatype recurring_run_outcome = RO_Generated | RO_Skipped

fun recurring_run_outcome_str :: "recurring_run_outcome \<Rightarrow> string" where
  "recurring_run_outcome_str RO_Generated = ''generated''"
| "recurring_run_outcome_str RO_Skipped = ''skipped''"

datatype net_worth_snapshot_source = NWS_Captured | NWS_Backfilled

fun net_worth_snapshot_source_str :: "net_worth_snapshot_source \<Rightarrow> string" where
  "net_worth_snapshot_source_str NWS_Captured = ''captured''"
| "net_worth_snapshot_source_str NWS_Backfilled = ''backfilled''"

section \<open>Structs\<close>

record book =
  bk_id :: "string"
  bk_kind :: "book_kind"
  bk_name :: "string"
  bk_currency :: "string"
  bk_country :: "string option"
  bk_region :: "string"
  bk_locale :: "string"
  bk_timezone :: "string"
  bk_financial_lock_date :: "string option"
  bk_multi_location_override :: "bool option"
  bk_created_at :: "string"
  bk_updated_at :: "string"

record new_book =
  nbk_name :: "string"
  nbk_kind :: "book_kind"
  nbk_currency :: "string option"
  nbk_country :: "string option"
  nbk_region :: "string option"

record account =
  ac_id :: "string"
  ac_book_id :: "string"
  ac_name :: "string"
  ac_kind :: "account_kind"
  ac_currency :: "string"
  ac_institution :: "string option"
  ac_account_number_masked :: "string option"
  ac_opening_balance_minor :: "int"
  ac_is_archived :: "bool"
  ac_created_at :: "string"
  ac_updated_at :: "string"

record new_account =
  nac_book_id :: "string"
  nac_name :: "string"
  nac_kind :: "account_kind"
  nac_currency :: "string"
  nac_institution :: "string option"
  nac_account_number_masked :: "string option"
  nac_opening_balance_minor :: "int option"

record account_patch =
  pac_name :: "string option"
  pac_institution :: "string option"
  pac_account_number_masked :: "string option"
  pac_is_archived :: "bool option"

record transaction =
  tx_id :: "string"
  tx_book_id :: "string"
  tx_account_id :: "string"
  tx_category_id :: "string option"
  tx_document_id :: "string option"
  tx_source :: "transaction_source"
  tx_provider_txn_id :: "string option"
  tx_dedupe_hash :: "string"
  tx_posted_date :: "string"
  tx_amount_minor :: "int"
  tx_currency :: "string"
  tx_merchant :: "string option"
  tx_merchant_normalized :: "string option"
  tx_description :: "string option"
  tx_notes :: "string option"
  tx_status :: "transaction_status"
  tx_attributed_member_id :: "string option"
  tx_created_at :: "string"
  tx_updated_at :: "string"

record new_transaction =
  ntx_book_id :: "string"
  ntx_account_id :: "string"
  ntx_source :: "transaction_source"
  ntx_provider_txn_id :: "string option"
  ntx_posted_date :: "string"
  ntx_amount_minor :: "int"
  ntx_currency :: "string"
  ntx_merchant :: "string option"
  ntx_description :: "string option"
  ntx_notes :: "string option"
  ntx_category_id :: "string option"
  ntx_document_id :: "string option"
  ntx_dedupe_occurrence :: "32 word"

record category =
  cg_id :: "string"
  cg_book_id :: "string"
  cg_parent_id :: "string option"
  cg_name :: "string"
  cg_kind :: "category_kind"
  cg_icon :: "string option"
  cg_color :: "string option"
  cg_is_system :: "bool"
  cg_created_at :: "string"
  cg_updated_at :: "string"

record new_category =
  ncg_book_id :: "string"
  ncg_parent_id :: "string option"
  ncg_name :: "string"
  ncg_kind :: "category_kind"
  ncg_icon :: "string option"
  ncg_color :: "string option"

record merchant_mapping =
  mm_id :: "string"
  mm_book_id :: "string"
  mm_merchant_normalized :: "string"
  mm_category_id :: "string"
  mm_source :: "mapping_source"
  mm_confidence :: "f64"
  mm_applied_count :: "int"
  mm_created_at :: "string"
  mm_updated_at :: "string"

record classification_correction =
  cc_id :: "string"
  cc_book_id :: "string"
  cc_transaction_id :: "string"
  cc_merchant_normalized :: "string option"
  cc_old_category_id :: "string option"
  cc_new_category_id :: "string option"
  cc_created_at :: "string"

record budget =
  bg_id :: "string"
  bg_book_id :: "string"
  bg_category_id :: "string"
  bg_month :: "string"
  bg_amount_minor :: "int"
  bg_currency :: "string"
  bg_rollover :: "bool"
  bg_created_at :: "string"
  bg_updated_at :: "string"

record budget_upsert =
  bu_book_id :: "string"
  bu_category_id :: "string"
  bu_month :: "string"
  bu_amount_minor :: "int"
  bu_currency :: "string"
  bu_rollover :: "bool"

record budget_status =
  bs_category_id :: "string"
  bs_month :: "string"
  bs_budget_minor :: "int"
  bs_spent_minor :: "int"
  bs_remaining_minor :: "int"
  bs_currency :: "string"

record member =
  mb_id :: "string"
  mb_book_id :: "string"
  mb_label :: "string"
  mb_initial :: "string"
  mb_colour :: "string"
  mb_default_account_id :: "string option"
  mb_created_at :: "string"
  mb_updated_at :: "string"
  mb_status :: "member_status"
  mb_revoked_at :: "string option"
  mb_attributable :: "bool"
  mb_principal :: "bool"

record new_member =
  nmb_book_id :: "string"
  nmb_label :: "string"
  nmb_initial :: "string option"
  nmb_colour :: "string option"
  nmb_default_account_id :: "string option"

record member_patch =
  pmb_label :: "string option"
  pmb_initial :: "string option"
  pmb_colour :: "string option"
  pmb_default_account_id :: "string option option"

record member_capability =
  mc_id :: "string"
  mc_book_id :: "string"
  mc_member_id :: "string"
  mc_operation :: "string"
  mc_granted_at :: "string"

record transaction_split =
  tsp_id :: "string"
  tsp_transaction_id :: "string"
  tsp_member_id :: "string"
  tsp_share_minor :: "int"
  tsp_created_at :: "string"

record split_share =
  shr_member_id :: "string"
  shr_share_minor :: "int"

record pay_watch =
  pw_id :: "string"
  pw_book_id :: "string"
  pw_code :: "string"
  pw_label :: "string option"
  pw_expected_amount_minor :: "int option"
  pw_expected_currency :: "string option"
  pw_enabled :: "bool"
  pw_created_at :: "string"

record new_pay_watch =
  npw_book_id :: "string"
  npw_code :: "string"
  npw_label :: "string option"
  npw_expected_amount_minor :: "int option"
  npw_expected_currency :: "string option"

record pay_endpoint =
  pe_id :: "string"
  pe_book_id :: "string"
  pe_label :: "string"
  pe_url :: "string"
  pe_enabled :: "bool"
  pe_created_at :: "string"

record pay_match =
  pm_id :: "string"
  pm_book_id :: "string"
  pm_watch_id :: "string"
  pm_transaction_id :: "string"
  pm_matched_at :: "string"

record pay_delivery =
  pd_id :: "string"
  pd_book_id :: "string"
  pd_endpoint_id :: "string"
  pd_match_id :: "string"
  pd_payload :: "string"
  pd_state :: "pay_delivery_state"
  pd_attempts :: "int"
  pd_next_attempt_at :: "string"
  pd_last_status :: "int option"
  pd_last_error :: "string option"
  pd_created_at :: "string"
  pd_updated_at :: "string"

record new_location =
  nlo_book_id :: "string"
  nlo_name :: "string"
  nlo_kind :: "location_kind option"
  nlo_code :: "string option"
  nlo_address :: "string option"

record location_patch =
  plo_name :: "string option"
  plo_kind :: "location_kind option"
  plo_code :: "string option option"
  plo_address :: "string option option"
  plo_is_archived :: "bool option"

record new_contact =
  nct_book_id :: "string"
  nct_role :: "contact_role"
  nct_name :: "string"
  nct_company_name :: "string option"
  nct_email :: "string option"
  nct_phone :: "string option"
  nct_billing_address :: "string option"
  nct_shipping_address :: "string option"
  nct_tax_number :: "string option"
  nct_payment_terms_days :: "int option"
  nct_credit_limit_minor :: "int option"
  nct_notes :: "string option"

record contact_patch =
  pct_role :: "contact_role option"
  pct_name :: "string option"
  pct_company_name :: "string option option"
  pct_email :: "string option option"
  pct_phone :: "string option option"
  pct_billing_address :: "string option option"
  pct_shipping_address :: "string option option"
  pct_tax_number :: "string option option"
  pct_payment_terms_days :: "int option option"
  pct_credit_limit_minor :: "int option option"
  pct_notes :: "string option option"
  pct_is_active :: "bool option"

record product_category =
  pcg_id :: "string"
  pcg_book_id :: "string"
  pcg_name :: "string"
  pcg_created_at :: "string"
  pcg_updated_at :: "string"

record new_product_category =
  npcg_book_id :: "string"
  npcg_name :: "string"

record product =
  prd_id :: "string"
  prd_book_id :: "string"
  prd_product_category_id :: "string option"
  prd_name :: "string"
  prd_description :: "string option"
  prd_created_at :: "string"
  prd_updated_at :: "string"

record new_product =
  nprd_book_id :: "string"
  nprd_product_category_id :: "string option"
  nprd_name :: "string"
  nprd_description :: "string option"

record product_patch =
  pprd_name :: "string option"
  pprd_description :: "string option option"
  pprd_product_category_id :: "string option option"

record new_product_variant =
  npv_product_id :: "string"
  npv_sku :: "string"
  npv_name :: "string"
  npv_price_minor :: "int option"
  npv_cost_price_minor :: "int option"
  npv_currency :: "string"
  npv_reorder_point :: "int option"
  npv_attributes :: "string option"

record product_variant_patch =
  ppv_sku :: "string option"
  ppv_name :: "string option"
  ppv_price_minor :: "int option"
  ppv_cost_price_minor :: "int option"
  ppv_reorder_point :: "int option"
  ppv_attributes :: "string option option"

record new_invoice_item_input =
  nii_variant_id :: "string option"
  nii_description :: "string"
  nii_quantity :: "int"
  nii_unit_price_minor :: "int"
  nii_tax_rate_bps :: "int option"

record recurring_schedule =
  rs_id :: "string"
  rs_book_id :: "string"
  rs_kind :: "recurring_schedule_kind"
  rs_status :: "recurring_schedule_status"
  rs_name :: "string"
  rs_frequency :: "recurring_frequency"
  rs_interval_count :: "int"
  rs_start_date :: "string"
  rs_end_date :: "string option"
  rs_max_occurrences :: "int option"
  rs_occurrences_processed :: "int"
  rs_next_run_date :: "string"
  rs_contact_id :: "string option"
  rs_series :: "string option"
  rs_due_days :: "int option"
  rs_account_id :: "string option"
  rs_category_id :: "string option"
  rs_amount_minor :: "int option"
  rs_merchant :: "string option"
  rs_description :: "string option"
  rs_currency :: "string option"
  rs_notes :: "string option"
  rs_created_at :: "string"
  rs_updated_at :: "string"

record new_recurring_schedule =
  nrs_book_id :: "string"
  nrs_kind :: "recurring_schedule_kind"
  nrs_name :: "string"
  nrs_frequency :: "recurring_frequency"
  nrs_interval_count :: "int option"
  nrs_start_date :: "string option"
  nrs_end_date :: "string option"
  nrs_max_occurrences :: "int option"
  nrs_contact_id :: "string option"
  nrs_series :: "string option"
  nrs_due_days :: "int option"
  nrs_items :: "new_invoice_item_input list"
  nrs_account_id :: "string option"
  nrs_category_id :: "string option"
  nrs_amount_minor :: "int option"
  nrs_merchant :: "string option"
  nrs_description :: "string option"
  nrs_currency :: "string option"
  nrs_notes :: "string option"

record recurring_schedule_patch =
  prs_name :: "string option"
  prs_end_date :: "string option option"
  prs_max_occurrences :: "int option option"
  prs_contact_id :: "string option"
  prs_series :: "string option option"
  prs_due_days :: "int option option"
  prs_account_id :: "string option"
  prs_category_id :: "string option option"
  prs_amount_minor :: "int option"
  prs_merchant :: "string option option"
  prs_description :: "string option option"
  prs_currency :: "string option option"
  prs_notes :: "string option option"

record recurring_schedule_item =
  rsi_id :: "string"
  rsi_schedule_id :: "string"
  rsi_book_id :: "string"
  rsi_variant_id :: "string option"
  rsi_description :: "string"
  rsi_quantity :: "int"
  rsi_unit_price_minor :: "int"
  rsi_tax_rate_bps :: "int"
  rsi_line_order :: "int"
  rsi_created_at :: "string"
  rsi_updated_at :: "string"

record new_recurring_schedule_item =
  nrsi_schedule_id :: "string"
  nrsi_variant_id :: "string option"
  nrsi_description :: "string option"
  nrsi_quantity :: "int"
  nrsi_unit_price_minor :: "int option"
  nrsi_tax_rate_bps :: "int option"

record recurring_schedule_item_patch =
  prsi_description :: "string option"
  prsi_quantity :: "int option"
  prsi_unit_price_minor :: "int option"
  prsi_tax_rate_bps :: "int option"

record recurring_occurrence_preview =
  rop_schedule_id :: "string"
  rop_occurrence_index :: "int"
  rop_occurrence_date :: "string"
  rop_kind :: "recurring_schedule_kind"
  rop_summary :: "string"

record recurring_run =
  rr_id :: "string"
  rr_schedule_id :: "string"
  rr_book_id :: "string"
  rr_occurrence_index :: "int"
  rr_occurrence_date :: "string"
  rr_outcome :: "recurring_run_outcome"
  rr_generated_table :: "string option"
  rr_generated_id :: "string option"
  rr_created_at :: "string"

record net_worth_snapshot =
  nw_id :: "string"
  nw_book_id :: "string"
  nw_account_id :: "string"
  nw_as_of_date :: "string"
  nw_balance_minor :: "int"
  nw_currency :: "string"
  nw_source :: "net_worth_snapshot_source"
  nw_created_at :: "string"

record net_worth_account_balance =
  nwb_account_id :: "string"
  nwb_currency :: "string"
  nwb_balance_minor :: "int"

end
