(* ===== verification/Domain.thy ===== *)
theory Domain
  imports Domain_Books
begin

text \<open>
  The data model of \<^verbatim>\<open>crates/slipscan-core/src/domain.rs\<close>, second part: the ledger, stock,
  purchasing, sales, assets and period close, in the conventions of the first part, and the
  audit entries.
\<close>

section \<open>Enumerations\<close>

datatype recon_state = RS_Auto | RS_Suggested | RS_Confirmed | RS_Rejected

fun recon_state_str :: "recon_state \<Rightarrow> string" where
  "recon_state_str RS_Auto = ''auto''"
| "recon_state_str RS_Suggested = ''suggested''"
| "recon_state_str RS_Confirmed = ''confirmed''"
| "recon_state_str RS_Rejected = ''rejected''"

datatype coa_kind = CK_Asset | CK_Liability | CK_Equity | CK_Income | CK_Expense

fun coa_kind_str :: "coa_kind \<Rightarrow> string" where
  "coa_kind_str CK_Asset = ''asset''"
| "coa_kind_str CK_Liability = ''liability''"
| "coa_kind_str CK_Equity = ''equity''"
| "coa_kind_str CK_Income = ''income''"
| "coa_kind_str CK_Expense = ''expense''"

datatype journal_source_type = JS_Manual | JS_Transaction | JS_Document | JS_OpeningBalance | JS_PoReceipt | JS_SalesCogs | JS_SalesRevenue | JS_InvoicePayment | JS_Depreciation

fun journal_source_type_str :: "journal_source_type \<Rightarrow> string" where
  "journal_source_type_str JS_Manual = ''manual''"
| "journal_source_type_str JS_Transaction = ''transaction''"
| "journal_source_type_str JS_Document = ''document''"
| "journal_source_type_str JS_OpeningBalance = ''opening_balance''"
| "journal_source_type_str JS_PoReceipt = ''po_receipt''"
| "journal_source_type_str JS_SalesCogs = ''sales_cogs''"
| "journal_source_type_str JS_SalesRevenue = ''sales_revenue''"
| "journal_source_type_str JS_InvoicePayment = ''invoice_payment''"
| "journal_source_type_str JS_Depreciation = ''depreciation''"

datatype vat_role = VR_OutputVat | VR_InputVat | VR_OutputBase | VR_InputBase

fun vat_role_str :: "vat_role \<Rightarrow> string" where
  "vat_role_str VR_OutputVat = ''output_vat''"
| "vat_role_str VR_InputVat = ''input_vat''"
| "vat_role_str VR_OutputBase = ''output_base''"
| "vat_role_str VR_InputBase = ''input_base''"

datatype stock_movement_kind = SM_Receipt | SM_Sale | SM_Adjustment | SM_Transfer | SM_Count

fun stock_movement_kind_str :: "stock_movement_kind \<Rightarrow> string" where
  "stock_movement_kind_str SM_Receipt = ''receipt''"
| "stock_movement_kind_str SM_Sale = ''sale''"
| "stock_movement_kind_str SM_Adjustment = ''adjustment''"
| "stock_movement_kind_str SM_Transfer = ''transfer''"
| "stock_movement_kind_str SM_Count = ''count''"

datatype purchase_order_status = PO_Draft | PO_Ordered | PO_Cancelled

fun purchase_order_status_str :: "purchase_order_status \<Rightarrow> string" where
  "purchase_order_status_str PO_Draft = ''draft''"
| "purchase_order_status_str PO_Ordered = ''ordered''"
| "purchase_order_status_str PO_Cancelled = ''cancelled''"

datatype po_receipt_status = PR_Unreceived | PR_Partial | PR_Complete

fun po_receipt_status_str :: "po_receipt_status \<Rightarrow> string" where
  "po_receipt_status_str PR_Unreceived = ''none''"
| "po_receipt_status_str PR_Partial = ''partial''"
| "po_receipt_status_str PR_Complete = ''complete''"

datatype sales_order_status = SO_Draft | SO_Confirmed | SO_Paid | SO_Cancelled

fun sales_order_status_str :: "sales_order_status \<Rightarrow> string" where
  "sales_order_status_str SO_Draft = ''draft''"
| "sales_order_status_str SO_Confirmed = ''confirmed''"
| "sales_order_status_str SO_Paid = ''paid''"
| "sales_order_status_str SO_Cancelled = ''cancelled''"

datatype quote_status = QT_Draft | QT_Sent | QT_Accepted | QT_Declined | QT_Expired

fun quote_status_str :: "quote_status \<Rightarrow> string" where
  "quote_status_str QT_Draft = ''draft''"
| "quote_status_str QT_Sent = ''sent''"
| "quote_status_str QT_Accepted = ''accepted''"
| "quote_status_str QT_Declined = ''declined''"
| "quote_status_str QT_Expired = ''expired''"

datatype invoice_payment_status = IP_Unpaid | IP_PartlyPaid | IP_Paid

fun invoice_payment_status_str :: "invoice_payment_status \<Rightarrow> string" where
  "invoice_payment_status_str IP_Unpaid = ''unpaid''"
| "invoice_payment_status_str IP_PartlyPaid = ''partly_paid''"
| "invoice_payment_status_str IP_Paid = ''paid''"

datatype depreciation_method = DM_StraightLine | DM_ReducingBalance

fun depreciation_method_str :: "depreciation_method \<Rightarrow> string" where
  "depreciation_method_str DM_StraightLine = ''straight_line''"
| "depreciation_method_str DM_ReducingBalance = ''reducing_balance''"

datatype asset_status = AS_Active | AS_Disposed

fun asset_status_str :: "asset_status \<Rightarrow> string" where
  "asset_status_str AS_Active = ''active''"
| "asset_status_str AS_Disposed = ''disposed''"

section \<open>Structs\<close>

record recon_match =
  rm_id :: "string"
  rm_book_id :: "string"
  rm_transaction_id :: "string"
  rm_document_id :: "string option"
  rm_journal_id :: "string option"
  rm_state :: "recon_state"
  rm_confidence :: "f64"
  rm_amount_delta_minor :: "int"
  rm_date_delta_days :: "int"
  rm_merchant_score :: "f64"
  rm_created_at :: "string"
  rm_updated_at :: "string"

record coa_account =
  ca_id :: "string"
  ca_book_id :: "string"
  ca_code :: "string"
  ca_name :: "string"
  ca_kind :: "coa_kind"
  ca_description :: "string option"
  ca_currency :: "string option"
  ca_is_archived :: "bool"
  ca_is_system :: "bool"
  ca_created_at :: "string"
  ca_updated_at :: "string"

record vat_rate =
  vr_id :: "string"
  vr_book_id :: "string"
  vr_code :: "string"
  vr_name :: "string"
  vr_rate_bps :: "int"
  vr_country :: "string option"
  vr_is_active :: "bool"
  vr_created_at :: "string"
  vr_updated_at :: "string"

record journal =
  jn_id :: "string"
  jn_book_id :: "string"
  jn_posted_date :: "string"
  jn_narrative :: "string option"
  jn_reference :: "string option"
  jn_source_type :: "journal_source_type"
  jn_source_id :: "string option"
  jn_reversal_of :: "string option"
  jn_created_at :: "string"

record journal_line =
  jl_id :: "string"
  jl_journal_id :: "string"
  jl_book_id :: "string"
  jl_coa_id :: "string"
  jl_debit_minor :: "int"
  jl_credit_minor :: "int"
  jl_currency :: "string"
  jl_description :: "string option"
  jl_line_order :: "int"
  jl_vat_rate_id :: "string option"
  jl_vat_role :: "vat_role option"
  jl_created_at :: "string"

record new_journal_line =
  nl_coa_id :: "string"
  nl_debit_minor :: "int"
  nl_credit_minor :: "int"
  nl_currency :: "string"
  nl_description :: "string option"
  nl_vat_rate_id :: "string option"
  nl_vat_role :: "vat_role option"

record new_journal =
  nj_book_id :: "string"
  nj_posted_date :: "string"
  nj_narrative :: "string option"
  nj_reference :: "string option"
  nj_source_type :: "journal_source_type"
  nj_source_id :: "string option"
  nj_lines :: "new_journal_line list"

record posted_journal =
  pj_journal :: "journal"
  pj_lines :: "journal_line list"

record location =
  lo_id :: "string"
  lo_book_id :: "string"
  lo_name :: "string"
  lo_kind :: "location_kind"
  lo_code :: "string option"
  lo_address :: "string option"
  lo_is_archived :: "bool"
  lo_created_at :: "string"
  lo_updated_at :: "string"

record contact =
  ct_id :: "string"
  ct_book_id :: "string"
  ct_role :: "contact_role"
  ct_name :: "string"
  ct_company_name :: "string option"
  ct_email :: "string option"
  ct_phone :: "string option"
  ct_billing_address :: "string option"
  ct_shipping_address :: "string option"
  ct_tax_number :: "string option"
  ct_payment_terms_days :: "int option"
  ct_credit_limit_minor :: "int option"
  ct_notes :: "string option"
  ct_is_active :: "bool"
  ct_created_at :: "string"
  ct_updated_at :: "string"

record product_variant =
  pv_id :: "string"
  pv_product_id :: "string"
  pv_book_id :: "string"
  pv_sku :: "string"
  pv_name :: "string"
  pv_price_minor :: "int"
  pv_cost_price_minor :: "int"
  pv_currency :: "string"
  pv_reorder_point :: "int"
  pv_attributes :: "string option"
  pv_created_at :: "string"
  pv_updated_at :: "string"

record stock_movement =
  sm_id :: "string"
  sm_book_id :: "string"
  sm_variant_id :: "string"
  sm_location_id :: "string"
  sm_qty_delta :: "int"
  sm_kind :: "stock_movement_kind"
  sm_ref_kind :: "string option"
  sm_ref_id :: "string option"
  sm_note :: "string option"
  sm_created_by :: "string option"
  sm_created_at :: "string"

record new_stock_movement =
  nsm_variant_id :: "string"
  nsm_location_id :: "string"
  nsm_qty_delta :: "int"
  nsm_kind :: "stock_movement_kind"
  nsm_ref_kind :: "string option"
  nsm_ref_id :: "string option"
  nsm_note :: "string option"
  nsm_created_by :: "string option"

record transfer_result =
  tr_out :: "stock_movement"
  tr_in :: "stock_movement"

record low_stock_variant =
  lsv_variant :: "product_variant"
  lsv_on_hand :: "int"

record purchase_order =
  po_id :: "string"
  po_book_id :: "string"
  po_supplier_id :: "string"
  po_location_id :: "string"
  po_po_number :: "string"
  po_order_date :: "string"
  po_expected_delivery :: "string option"
  po_status :: "purchase_order_status"
  po_subtotal_minor :: "int"
  po_tax_minor :: "int"
  po_total_minor :: "int"
  po_currency :: "string"
  po_notes :: "string option"
  po_created_at :: "string"
  po_updated_at :: "string"

record new_purchase_order =
  npo_book_id :: "string"
  npo_supplier_id :: "string"
  npo_location_id :: "string"
  npo_po_number :: "string"
  npo_order_date :: "string"
  npo_expected_delivery :: "string option"
  npo_currency :: "string"
  npo_tax_minor :: "int option"
  npo_notes :: "string option"

record purchase_order_patch =
  ppo_supplier_id :: "string option"
  ppo_location_id :: "string option"
  ppo_po_number :: "string option"
  ppo_order_date :: "string option"
  ppo_expected_delivery :: "string option option"
  ppo_tax_minor :: "int option"
  ppo_notes :: "string option option"

record purchase_order_item =
  poi_id :: "string"
  poi_purchase_order_id :: "string"
  poi_book_id :: "string"
  poi_variant_id :: "string"
  poi_qty_ordered :: "int"
  poi_unit_price_minor :: "int"
  poi_total_minor :: "int"
  poi_created_at :: "string"
  poi_updated_at :: "string"

record new_purchase_order_item =
  npoi_purchase_order_id :: "string"
  npoi_variant_id :: "string"
  npoi_qty_ordered :: "int"
  npoi_unit_price_minor :: "int option"

record purchase_order_item_patch =
  ppoi_qty_ordered :: "int option"
  ppoi_unit_price_minor :: "int option"

record po_receipt =
  pr_id :: "string"
  pr_book_id :: "string"
  pr_purchase_order_item_id :: "string"
  pr_location_id :: "string"
  pr_qty :: "int"
  pr_note :: "string option"
  pr_received_by :: "string option"
  pr_created_at :: "string"

record new_po_receipt =
  npr_purchase_order_item_id :: "string"
  npr_location_id :: "string"
  npr_qty :: "int"
  npr_note :: "string option"
  npr_received_by :: "string option"

record purchase_order_item_receiving =
  pir_item :: "purchase_order_item"
  pir_received_qty :: "int"
  pir_status :: "po_receipt_status"

record sales_order =
  so_id :: "string"
  so_book_id :: "string"
  so_contact_id :: "string"
  so_location_id :: "string option"
  so_number :: "int"
  so_order_date :: "string"
  so_status :: "sales_order_status"
  so_currency :: "string"
  so_notes :: "string option"
  so_confirmed_at :: "string option"
  so_cancelled_at :: "string option"
  so_paid_at :: "string option"
  so_created_at :: "string"
  so_updated_at :: "string"

record new_sales_order =
  nso_book_id :: "string"
  nso_contact_id :: "string"
  nso_location_id :: "string option"
  nso_order_date :: "string option"
  nso_currency :: "string option"
  nso_notes :: "string option"

record sales_order_patch =
  pso_location_id :: "string option option"
  pso_order_date :: "string option"
  pso_notes :: "string option option"

record sales_order_item =
  soi_id :: "string"
  soi_sales_order_id :: "string"
  soi_book_id :: "string"
  soi_variant_id :: "string option"
  soi_description :: "string"
  soi_quantity :: "int"
  soi_unit_price_minor :: "int"
  soi_tax_rate_bps :: "int"
  soi_line_order :: "int"
  soi_created_at :: "string"
  soi_updated_at :: "string"

record new_sales_order_item =
  nsoi_sales_order_id :: "string"
  nsoi_variant_id :: "string option"
  nsoi_description :: "string option"
  nsoi_quantity :: "int"
  nsoi_unit_price_minor :: "int option"
  nsoi_tax_rate_bps :: "int option"

record sales_order_item_patch =
  psoi_description :: "string option"
  psoi_quantity :: "int option"
  psoi_unit_price_minor :: "int option"
  psoi_tax_rate_bps :: "int option"

record sales_order_totals =
  sot_subtotal_minor :: "int"
  sot_tax_minor :: "int"
  sot_total_minor :: "int"

record quote =
  qt_id :: "string"
  qt_book_id :: "string"
  qt_contact_id :: "string"
  qt_number :: "int"
  qt_quote_date :: "string"
  qt_expiry_date :: "string option"
  qt_status :: "quote_status"
  qt_currency :: "string"
  qt_notes :: "string option"
  qt_sent_at :: "string option"
  qt_accepted_at :: "string option"
  qt_declined_at :: "string option"
  qt_expired_at :: "string option"
  qt_converted_sales_order_id :: "string option"
  qt_created_at :: "string"
  qt_updated_at :: "string"

record new_quote =
  nqt_book_id :: "string"
  nqt_contact_id :: "string"
  nqt_quote_date :: "string option"
  nqt_expiry_date :: "string option"
  nqt_currency :: "string option"
  nqt_notes :: "string option"

record quote_patch =
  pqt_quote_date :: "string option"
  pqt_expiry_date :: "string option option"
  pqt_notes :: "string option option"

record quote_item =
  qi_id :: "string"
  qi_quote_id :: "string"
  qi_book_id :: "string"
  qi_variant_id :: "string option"
  qi_description :: "string"
  qi_quantity :: "int"
  qi_unit_price_minor :: "int"
  qi_tax_rate_bps :: "int"
  qi_line_order :: "int"
  qi_created_at :: "string"
  qi_updated_at :: "string"

record new_quote_item =
  nqi_quote_id :: "string"
  nqi_variant_id :: "string option"
  nqi_description :: "string option"
  nqi_quantity :: "int"
  nqi_unit_price_minor :: "int option"
  nqi_tax_rate_bps :: "int option"

record quote_item_patch =
  pqi_description :: "string option"
  pqi_quantity :: "int option"
  pqi_unit_price_minor :: "int option"
  pqi_tax_rate_bps :: "int option"

record invoice =
  iv_id :: "string"
  iv_book_id :: "string"
  iv_contact_id :: "string"
  iv_sales_order_id :: "string option"
  iv_series :: "string"
  iv_number :: "int"
  iv_issue_date :: "string"
  iv_due_date :: "string"
  iv_currency :: "string"
  iv_notes :: "string option"
  iv_created_at :: "string"

record new_invoice =
  niv_book_id :: "string"
  niv_contact_id :: "string option"
  niv_sales_order_id :: "string option"
  niv_series :: "string option"
  niv_issue_date :: "string option"
  niv_due_date :: "string"
  niv_currency :: "string option"
  niv_notes :: "string option"
  niv_items :: "new_invoice_item_input list"

record invoice_item =
  ivi_id :: "string"
  ivi_invoice_id :: "string"
  ivi_book_id :: "string"
  ivi_variant_id :: "string option"
  ivi_description :: "string"
  ivi_quantity :: "int"
  ivi_unit_price_minor :: "int"
  ivi_tax_rate_bps :: "int"
  ivi_line_order :: "int"
  ivi_created_at :: "string"

record invoice_payment =
  ip_id :: "string"
  ip_invoice_id :: "string"
  ip_book_id :: "string"
  ip_amount_minor :: "int"
  ip_paid_at :: "string"
  ip_method :: "string option"
  ip_note :: "string option"
  ip_created_at :: "string"

record new_invoice_payment =
  nip_invoice_id :: "string"
  nip_amount_minor :: "int"
  nip_paid_at :: "string option"
  nip_method :: "string option"
  nip_note :: "string option"

record invoice_totals =
  ivt_subtotal_minor :: "int"
  ivt_tax_minor :: "int"
  ivt_total_minor :: "int"
  ivt_paid_minor :: "int"
  ivt_due_minor :: "int"
  ivt_status :: "invoice_payment_status"

record aged_bucket =
  ab_current_minor :: "int"
  ab_overdue_1_30_minor :: "int"
  ab_overdue_31_60_minor :: "int"
  ab_overdue_61_90_minor :: "int"
  ab_overdue_90_plus_minor :: "int"
  ab_total_minor :: "int"

record aged_receivables_row =
  arr_contact_id :: "string"
  arr_contact_name :: "string"
  arr_buckets :: "aged_bucket"

record aged_receivables =
  agr_as_of :: "string"
  agr_rows :: "aged_receivables_row list"
  agr_totals :: "aged_bucket"

record asset =
  ast_id :: "string"
  ast_book_id :: "string"
  ast_name :: "string"
  ast_description :: "string option"
  ast_acquired_date :: "string"
  ast_cost_minor :: "int"
  ast_residual_minor :: "int"
  ast_currency :: "string"
  ast_useful_life_months :: "int"
  ast_method :: "depreciation_method"
  ast_reducing_balance_rate_bps :: "int option"
  ast_status :: "asset_status"
  ast_disposed_date :: "string option"
  ast_disposal_proceeds_minor :: "int option"
  ast_created_at :: "string"
  ast_updated_at :: "string"

record new_asset =
  nas_book_id :: "string"
  nas_name :: "string"
  nas_description :: "string option"
  nas_acquired_date :: "string"
  nas_cost_minor :: "int"
  nas_residual_minor :: "int option"
  nas_currency :: "string"
  nas_useful_life_months :: "int"
  nas_method :: "depreciation_method"
  nas_reducing_balance_rate_bps :: "int option"

record asset_patch =
  pas_name :: "string option"
  pas_description :: "string option option"
  pas_acquired_date :: "string option"
  pas_cost_minor :: "int option"
  pas_residual_minor :: "int option"
  pas_useful_life_months :: "int option"
  pas_method :: "depreciation_method option"
  pas_reducing_balance_rate_bps :: "int option option"

record asset_disposal =
  adp_disposed_date :: "string"
  adp_proceeds_minor :: "int option"

record asset_depreciation_run =
  dr_id :: "string"
  dr_book_id :: "string"
  dr_asset_id :: "string"
  dr_period :: "string"
  dr_period_index :: "int"
  dr_depreciation_minor :: "int"
  dr_journal_id :: "string"
  dr_created_at :: "string"

record asset_with_depreciation =
  awd_asset :: "asset"
  awd_accumulated_depreciation_minor :: "int"
  awd_net_book_value_minor :: "int"
  awd_periods_run :: "int"

record close_period_currency_balance =
  cb_currency :: "string"
  cb_debit_minor :: "int"
  cb_credit_minor :: "int"

record close_period_report =
  cr_book_id :: "string"
  cr_to_date :: "string"
  cr_previous_lock_date :: "string option"
  cr_balance :: "close_period_currency_balance list"
  cr_balanced :: "bool"
  cr_uncategorised_transaction_count :: "int"
  cr_unreconciled_statement_line_count :: "int"
  cr_draft_sales_order_count :: "int"
  cr_unpaid_invoice_due_count :: "int"
  cr_blocking_reasons :: "string list"
  cr_warnings :: "string list"
  cr_closeable :: "bool"
  cr_closed :: "bool"

section \<open>Audit entries\<close>

text \<open>
  The values an audit entry stores as JSON before and after a mutation. The JSON text is
  produced by \<^verbatim>\<open>serde_json\<close>; the model keeps the value it is produced from.
\<close>

datatype snapshot =
    Snap_book book
  | Snap_reopen book string
  | Snap_close close_period_report
  | Snap_coa coa_account
  | Snap_journal posted_journal
  | Snap_movement stock_movement
  | Snap_po purchase_order
  | Snap_po_item purchase_order_item
  | Snap_receipt po_receipt
  | Snap_order sales_order
  | Snap_order_item sales_order_item
  | Snap_quote quote
  | Snap_quote_item quote_item
  | Snap_invoice invoice
  | Snap_payment invoice_payment
  | Snap_asset asset
  | Snap_run asset_depreciation_run
  | Snap_account account
  | Snap_category category
  | Snap_member member
  | Snap_capability member_capability
  | Snap_txn transaction
  | Snap_shares "split_share list"
  | Snap_pay_match string string nat
  | Snap_budget budget
  | Snap_location location
  | Snap_contact contact
  | Snap_product_category product_category
  | Snap_product product
  | Snap_variant product_variant
  | Snap_schedule recurring_schedule
  | Snap_schedule_item recurring_schedule_item
  | Snap_recurring_run recurring_run
  | Snap_run_failed int string
  | Snap_networth "net_worth_snapshot list"

record audit_entry =
  ae_id :: "string"
  ae_book_id :: "string option"
  ae_entity_type :: "string"
  ae_entity_id :: "string option"
  ae_action :: "string"
  ae_before :: "snapshot option"
  ae_after :: "snapshot option"
  ae_created_at :: "string"

end
