(* ===== verification/Store.thy ===== *)
theory Store
  imports Domain Dates
begin

text \<open>
  The store behind every component: one SQLite database as a record of its tables (a table is
  the list of its rows in insertion order), the two sources of fresh values (\<^verbatim>\<open>new_id\<close>,
  \<^verbatim>\<open>now_iso\<close>), SQLite's constraints on an insert, the audit log, and the look-ups by id that
  every service operation starts with.

  A service operation is a function of the store it starts in; it returns an error, or its
  result and the store its transaction commits. A failed operation commits nothing, because the
  code drops the transaction uncommitted on every error path.
\<close>

section \<open>The environment and the store\<close>

text \<open>
  What the code takes from outside the repository: the \<^verbatim>\<open>n\<close>-th identifier the \<^verbatim>\<open>uuid\<close> crate
  mints, the text of the clock (RFC 3339) at the \<^verbatim>\<open>n\<close>-th draw, and the calendar.
\<close>

record env =
  e_id :: "nat \<Rightarrow> string"
  e_now :: "nat \<Rightarrow> string"
  e_time :: time_lib

record db =
  db_books :: "book list"
  db_coa :: "coa_account list"
  db_vat_rates :: "vat_rate list"
  db_journals :: "journal list"
  db_lines :: "journal_line list"
  db_txns :: "transaction list"
  db_recon :: "recon_match list"
  db_locations :: "location list"
  db_contacts :: "contact list"
  db_variants :: "product_variant list"
  db_movements :: "stock_movement list"
  db_pos :: "purchase_order list"
  db_po_items :: "purchase_order_item list"
  db_receipts :: "po_receipt list"
  db_sequences :: "((string \<times> string) \<times> int) list"
  db_orders :: "sales_order list"
  db_order_items :: "sales_order_item list"
  db_quotes :: "quote list"
  db_quote_items :: "quote_item list"
  db_invoices :: "invoice list"
  db_invoice_items :: "invoice_item list"
  db_payments :: "invoice_payment list"
  db_assets :: "asset list"
  db_runs :: "asset_depreciation_run list"
  db_audit :: "audit_entry list"
  db_draws :: nat

definition empty_db :: db where
  "empty_db = \<lparr>db_books = [], db_coa = [], db_vat_rates = [], db_journals = [], db_lines = [],
     db_txns = [], db_recon = [], db_locations = [], db_contacts = [], db_variants = [],
     db_movements = [], db_pos = [], db_po_items = [], db_receipts = [], db_sequences = [],
     db_orders = [], db_order_items = [], db_quotes = [], db_quote_items = [], db_invoices = [],
     db_invoice_items = [], db_payments = [], db_assets = [], db_runs = [], db_audit = [],
     db_draws = 0\<rparr>"

definition new_id :: "env \<Rightarrow> db \<Rightarrow> string \<times> db" where
  "new_id E s = (e_id E (db_draws s), s\<lparr>db_draws := Suc (db_draws s)\<rparr>)"

definition now_iso :: "env \<Rightarrow> db \<Rightarrow> string \<times> db" where
  "now_iso E s = (e_now E (db_draws s), s\<lparr>db_draws := Suc (db_draws s)\<rparr>)"

definition today :: "env \<Rightarrow> db \<Rightarrow> string \<times> db" where
  "today E s = (let (now, s') = now_iso E s in (take 10 now, s'))"

lemma new_id_eq [simp]: "new_id E s = (e_id E (db_draws s), s\<lparr>db_draws := Suc (db_draws s)\<rparr>)"
  by (simp add: new_id_def)

lemma now_iso_eq [simp]: "now_iso E s = (e_now E (db_draws s), s\<lparr>db_draws := Suc (db_draws s)\<rparr>)"
  by (simp add: now_iso_def)

lemma today_eq [simp]: "today E s = (take 10 (e_now E (db_draws s)), s\<lparr>db_draws := Suc (db_draws s)\<rparr>)"
  by (simp add: today_def)

section \<open>Constraints\<close>

text \<open>
  SQLite refuses a row that fails a \<^verbatim>\<open>CHECK\<close>, a \<^verbatim>\<open>UNIQUE\<close> or \<^verbatim>\<open>PRIMARY KEY\<close>, or (foreign keys
  are switched on when the database opens) a \<^verbatim>\<open>REFERENCES\<close> constraint.
\<close>

definition constrain :: "bool \<Rightarrow> bool \<Rightarrow> bool \<Rightarrow> 'a res \<Rightarrow> 'a res" where
  "constrain chk uniq refs r =
     (if \<not> chk then Inl (Sqlite ''CHECK constraint failed'')
      else if \<not> uniq then Inl (Sqlite ''UNIQUE constraint failed'')
      else if \<not> refs then Inl (Sqlite ''FOREIGN KEY constraint failed'')
      else r)"

lemma constrain_Inr [res_simps]:
  "constrain chk uniq refs r = Inr x \<longleftrightarrow> chk \<and> uniq \<and> refs \<and> r = Inr x"
  by (auto simp: constrain_def)

lemma constrain_True [simp]: "constrain True True True r = r"
  by (simp add: constrain_def)

definition has :: "('r \<Rightarrow> string) \<Rightarrow> string \<Rightarrow> 'r list \<Rightarrow> bool" where
  "has key k rows \<longleftrightarrow> list_ex (\<lambda>r. key r = k) rows"

lemma has_iff: "has key k rows \<longleftrightarrow> k \<in> key ` set rows"
  by (auto simp: has_def list_ex_iff)

lemma tab_find_has: "tab_find key k rows = Some r \<Longrightarrow> has key k rows"
  by (auto simp: has_iff dest: tab_find_Some)

lemma has_tab_put: "has key k (tab_put key row rows) = has key k rows"
  by (metis has_iff image_set map_key_tab_put)

section \<open>Audit\<close>

definition audit_insert :: "audit_entry \<Rightarrow> db \<Rightarrow> db res" where
  "audit_insert entry s =
     constrain True (\<not> has ae_id (ae_id entry) (db_audit s)) True
       (Inr (s\<lparr>db_audit := db_audit s @ [entry]\<rparr>))"

definition emit_audit ::
    "env \<Rightarrow> string option \<Rightarrow> string \<Rightarrow> string option \<Rightarrow> string \<Rightarrow> snapshot option
      \<Rightarrow> snapshot option \<Rightarrow> db \<Rightarrow> db res" where
  "emit_audit E book_id entity_type entity_id action before after s =
     (let (aid, s1) = new_id E s;
          (now, s2) = now_iso E s1
      in audit_insert \<lparr>ae_id = aid, ae_book_id = book_id, ae_entity_type = entity_type,
           ae_entity_id = entity_id, ae_action = action, ae_before = before, ae_after = after,
           ae_created_at = now\<rparr> s2)"

text \<open>An audit entry is the only thing its write changes.\<close>

lemma emit_audit_Inr:
  assumes "emit_audit E b t i a before after s = Inr s'"
  obtains entry where
    "s' = s\<lparr>db_draws := Suc (Suc (db_draws s)), db_audit := db_audit s @ [entry]\<rparr>"
    and "ae_book_id entry = b" and "ae_entity_type entry = t" and "ae_entity_id entry = i"
    and "ae_action entry = a" and "ae_before entry = before" and "ae_after entry = after"
  using assms by (auto simp: emit_audit_def audit_insert_def res_simps)

section \<open>Look-ups by id\<close>

definition book_get :: "db \<Rightarrow> string \<Rightarrow> book res" where
  "book_get s i = ok_or (tab_find bk_id i (db_books s)) (NotFound ''book'' i)"

definition contact_get :: "db \<Rightarrow> string \<Rightarrow> contact res" where
  "contact_get s i = ok_or (tab_find ct_id i (db_contacts s)) (NotFound ''contact'' i)"

definition location_get :: "db \<Rightarrow> string \<Rightarrow> location res" where
  "location_get s i = ok_or (tab_find lo_id i (db_locations s)) (NotFound ''location'' i)"

definition product_variant_get :: "db \<Rightarrow> string \<Rightarrow> product_variant res" where
  "product_variant_get s i = ok_or (tab_find pv_id i (db_variants s)) (NotFound ''product_variant'' i)"

lemma book_get_Inr [res_simps]: "book_get s i = Inr b \<longleftrightarrow> tab_find bk_id i (db_books s) = Some b"
  by (simp add: book_get_def res_simps)

lemma contact_get_Inr [res_simps]: "contact_get s i = Inr c \<longleftrightarrow> tab_find ct_id i (db_contacts s) = Some c"
  by (simp add: contact_get_def res_simps)

lemma location_get_Inr [res_simps]:
  "location_get s i = Inr l \<longleftrightarrow> tab_find lo_id i (db_locations s) = Some l"
  by (simp add: location_get_def res_simps)

lemma product_variant_get_Inr [res_simps]:
  "product_variant_get s i = Inr v \<longleftrightarrow> tab_find pv_id i (db_variants s) = Some v"
  by (simp add: product_variant_get_def res_simps)

definition set_lock_date :: "string \<Rightarrow> string option \<Rightarrow> string \<Rightarrow> db \<Rightarrow> db" where
  "set_lock_date i lock_date updated_at s =
     s\<lparr>db_books := map (\<lambda>b. if bk_id b = i
         then b\<lparr>bk_financial_lock_date := lock_date, bk_updated_at := updated_at\<rparr> else b)
       (db_books s)\<rparr>"

section \<open>Currency codes\<close>

definition is_ascii_alphabetic :: "char \<Rightarrow> bool" where
  "is_ascii_alphabetic c \<longleftrightarrow> (CHR ''A'' \<le> c \<and> c \<le> CHR ''Z'') \<or> (CHR ''a'' \<le> c \<and> c \<le> CHR ''z'')"

definition to_ascii_uppercase :: "char \<Rightarrow> char" where
  "to_ascii_uppercase c =
     (if CHR ''a'' \<le> c \<and> c \<le> CHR ''z'' then char_of ((of_char c :: nat) - 32) else c)"

lemma to_ascii_uppercase_code [code]:
  "to_ascii_uppercase c = (if CHR ''a'' \<le> c \<and> c \<le> CHR ''z'' then int_char (max 0 (char_int c - 32)) else c)"
proof -
  have "int (nat (char_int c) - 32) = max 0 (char_int c - 32)" by arith
  then show ?thesis by (simp add: to_ascii_uppercase_def char_of_int_char of_char_char_int)
qed

definition normalize_currency_code :: "string \<Rightarrow> string res" where
  "normalize_currency_code raw =
     (let trimmed = trim raw in
      if length trimmed = 3 \<and> list_all is_ascii_alphabetic trimmed
      then Inr (map to_ascii_uppercase trimmed)
      else Inl (Validation (''invalid currency code '' @ debug_str raw
             @ '' (expected 3 letters, e.g. '' @ debug_str ''ZAR'' @ '')'')))"

lemma normalize_currency_length: "normalize_currency_code raw = Inr c \<Longrightarrow> length c = 3"
  by (auto simp: normalize_currency_code_def Let_def split: if_splits)

text \<open>A normalised code is a fixed point: it is three upper-case letters, and trimming keeps it.\<close>

lemma drop_seqs_id: "List.find (\<lambda>w. w \<noteq> [] \<and> starts_with w s) ws = None \<Longrightarrow> drop_seqs ws s = s"
  by (simp add: drop_seqs.simps)

lemma starts_with_hd: "starts_with w s \<Longrightarrow> w \<noteq> [] \<Longrightarrow> s \<noteq> [] \<and> hd w = hd s"
  unfolding starts_with_def by (cases w; cases s) auto

lemma ws_ends:
  "w \<in> set ws_seqs \<Longrightarrow> \<not> is_ascii_alphabetic (hd w)"
  "w \<in> set ws_seqs \<Longrightarrow> \<not> is_ascii_alphabetic (last w)"
  by (auto simp: ws_seqs_def is_ascii_alphabetic_def less_eq_char_def)

lemma trim_alphabetic:
  assumes "s \<noteq> []" and "list_all is_ascii_alphabetic s"
  shows "trim s = s"
proof -
  have ends: "is_ascii_alphabetic (hd s)" "is_ascii_alphabetic (last s)"
    using assms by (auto simp: list_all_iff)
  have "\<not> (\<exists>w \<in> set ws_seqs. w \<noteq> [] \<and> starts_with w s)"
    using ends ws_ends(1) starts_with_hd by metis
  then have front: "drop_seqs ws_seqs s = s" by (auto simp: find_None_iff intro!: drop_seqs_id)
  have "\<not> (\<exists>w \<in> set (map rev ws_seqs). w \<noteq> [] \<and> starts_with w (rev s))"
  proof
    assume "\<exists>w \<in> set (map rev ws_seqs). w \<noteq> [] \<and> starts_with w (rev s)"
    then obtain w where w: "w \<in> set ws_seqs" "w \<noteq> []" "starts_with (rev w) (rev s)" by auto
    from starts_with_hd [OF w(3)] w(2) have "last w = last s" using assms(1) by (simp add: hd_rev)
    with ws_ends(2) [OF w(1)] ends show False by simp
  qed
  then have "drop_seqs (map rev ws_seqs) (rev s) = rev s"
    by (auto simp: find_None_iff intro!: drop_seqs_id)
  then show ?thesis by (simp add: trim_def front)
qed

lemma upper_alphabetic:
  assumes "is_ascii_alphabetic c"
  shows "is_ascii_alphabetic (to_ascii_uppercase c)"
    and "to_ascii_uppercase (to_ascii_uppercase c) = to_ascii_uppercase c"
proof -
  let ?n = "of_char c :: nat"
  have "(65 \<le> ?n \<and> ?n \<le> 90) \<or> (97 \<le> ?n \<and> ?n \<le> 122)"
    using assms by (simp add: is_ascii_alphabetic_def less_eq_char_def)
  then show "is_ascii_alphabetic (to_ascii_uppercase c)"
    and "to_ascii_uppercase (to_ascii_uppercase c) = to_ascii_uppercase c"
    by (auto simp: is_ascii_alphabetic_def to_ascii_uppercase_def less_eq_char_def)
qed

lemma normalize_currency_idem:
  assumes "normalize_currency_code raw = Inr c"
  shows "normalize_currency_code c = Inr c"
proof -
  let ?t = "trim raw"
  have t: "length ?t = 3" "list_all is_ascii_alphabetic ?t" and c: "c = map to_ascii_uppercase ?t"
    using assms by (auto simp: normalize_currency_code_def Let_def split: if_splits)
  have alpha: "list_all is_ascii_alphabetic c"
    using t(2) by (auto simp: c list_all_iff upper_alphabetic)
  have "trim c = c" using t(1) by (intro trim_alphabetic alpha) (auto simp: c)
  moreover have "map to_ascii_uppercase c = c"
    using t(2) by (simp add: c list_all_iff upper_alphabetic)
  ultimately show ?thesis using alpha t(1) by (simp add: normalize_currency_code_def c)
qed

end
