(* ===== verification/Sample.thy ===== *)
theory Sample
  imports Calendar Store
begin

text \<open>
  A small business book on which theorems are instantiated: the system accounts the postings
  use, two locations, a contact that is customer and supplier, and two variants. The sample
  environment mints distinct ids and uses the Gregorian calendar.
\<close>

definition sample_env :: env where
  "sample_env = \<lparr>e_id = (\<lambda>n. CHR ''#'' # replicate n CHR ''i''),
     e_now = (\<lambda>n. ''2026-03-01T08:00:00Z''), e_time = gregorian\<rparr>"

definition sample_book :: book where
  "sample_book = \<lparr>bk_id = ''b'', bk_kind = BK_Business, bk_name = ''Shop'', bk_currency = ''ZAR'',
     bk_country = Some ''ZA'', bk_region = ''ZA'', bk_locale = ''en-ZA'', bk_timezone = ''UTC'',
     bk_financial_lock_date = Some ''2025-12-31'', bk_multi_location_override = None,
     bk_created_at = ''2025'', bk_updated_at = ''2025''\<rparr>"

definition sample_account :: "string \<Rightarrow> coa_kind \<Rightarrow> coa_account" where
  "sample_account code kind =
     \<lparr>ca_id = CHR ''c'' # code, ca_book_id = ''b'', ca_code = code, ca_name = code, ca_kind = kind,
      ca_description = None, ca_currency = None, ca_is_archived = False, ca_is_system = True,
      ca_created_at = ''2025'', ca_updated_at = ''2025''\<rparr>"

definition sample_vat :: vat_rate where
  "sample_vat = \<lparr>vr_id = ''v15'', vr_book_id = ''b'', vr_code = ''STD'', vr_name = ''Standard'',
     vr_rate_bps = 1500, vr_country = Some ''ZA'', vr_is_active = True, vr_created_at = ''2025'',
     vr_updated_at = ''2025''\<rparr>"

definition sample_location :: "string \<Rightarrow> location" where
  "sample_location i = \<lparr>lo_id = i, lo_book_id = ''b'', lo_name = i, lo_kind = LK_Warehouse,
     lo_code = None, lo_address = None, lo_is_archived = False, lo_created_at = ''2025'',
     lo_updated_at = ''2025''\<rparr>"

definition sample_contact :: contact where
  "sample_contact = \<lparr>ct_id = ''k'', ct_book_id = ''b'', ct_role = CR_Both, ct_name = ''Kin'',
     ct_company_name = None, ct_email = None, ct_phone = None, ct_billing_address = None,
     ct_shipping_address = None, ct_tax_number = None, ct_payment_terms_days = Some 30,
     ct_credit_limit_minor = None, ct_notes = None, ct_is_active = True,
     ct_created_at = ''2025'', ct_updated_at = ''2025''\<rparr>"

definition sample_variant :: "string \<Rightarrow> int \<Rightarrow> product_variant" where
  "sample_variant i price = \<lparr>pv_id = i, pv_product_id = ''p'', pv_book_id = ''b'', pv_sku = i,
     pv_name = i, pv_price_minor = price, pv_cost_price_minor = price div 2, pv_currency = ''ZAR'',
     pv_reorder_point = 5, pv_attributes = None, pv_created_at = ''2025'', pv_updated_at = ''2025''\<rparr>"

definition sample_db :: db where
  "sample_db = empty_db\<lparr>db_books := [sample_book],
     db_coa := [sample_account ''1000'' CK_Asset, sample_account ''1100'' CK_Asset,
       sample_account ''1200'' CK_Asset, sample_account ''1400'' CK_Asset,
       sample_account ''1600'' CK_Asset, sample_account ''2000'' CK_Liability,
       sample_account ''2100'' CK_Liability, sample_account ''4000'' CK_Income,
       sample_account ''5000'' CK_Expense, sample_account ''6250'' CK_Expense],
     db_vat_rates := [sample_vat], db_locations := [sample_location ''l1'', sample_location ''l2''],
     db_contacts := [sample_contact], db_variants := [sample_variant ''v1'' 1000, sample_variant ''v2'' 300]\<rparr>"

text \<open>The value and the store of a run that succeeds.\<close>

fun ran :: "'a res \<Rightarrow> 'a option" where
  "ran (Inl e) = None"
| "ran (Inr a) = Some a"

definition out_of :: "('a \<times> db) res \<Rightarrow> 'a" where
  "out_of r = fst (the (ran r))"

definition db_of :: "('a \<times> db) res \<Rightarrow> db" where
  "db_of r = snd (the (ran r))"

lemma run_witness: "ran r \<noteq> None \<Longrightarrow> r = Inr (out_of r, db_of r)"
  by (cases r) (auto simp: out_of_def db_of_def)

lemma run_value: "ran r \<noteq> None \<Longrightarrow> \<exists>a. r = Inr a"
  by (cases r) auto

end
