(* ===== verification/Ordered_Map.thy ===== *)
theory Ordered_Map
  imports Core_Prelude
begin

text \<open>
  The part of \<^verbatim>\<open>std::collections::BTreeMap\<close> the service layer uses:
  \<^verbatim>\<open>map.entry(k).or_insert(d)\<close> followed by an update of the entry, and iteration in key order.
  A map is its association list in ascending key order. The locale states what a client relies
  on; the accumulation lemmas are proved once from it.
\<close>

fun bt_entry :: "'k::linorder \<Rightarrow> 'v \<Rightarrow> ('v \<Rightarrow> 'v) \<Rightarrow> ('k \<times> 'v) list \<Rightarrow> ('k \<times> 'v) list" where
  "bt_entry k d f [] = [(k, f d)]"
| "bt_entry k d f ((k', v) # m) =
     (if k < k' then (k, f d) # (k', v) # m
      else if k = k' then (k', f v) # m
      else (k', v) # bt_entry k d f m)"

definition bt_sorted :: "('k::linorder \<times> 'v) list \<Rightarrow> bool" where
  "bt_sorted m \<longleftrightarrow> sorted_wrt (<) (map fst m)"

locale entry_map =
  fixes entry :: "'k::linorder \<Rightarrow> 'v \<Rightarrow> ('v \<Rightarrow> 'v) \<Rightarrow> 'm \<Rightarrow> 'm"
    and look :: "'m \<Rightarrow> 'k \<Rightarrow> 'v option"
    and emp :: 'm
    and ok :: "'m \<Rightarrow> bool"
  assumes look_emp: "look emp k = None"
    and ok_emp: "ok emp"
    and ok_entry: "ok m \<Longrightarrow> ok (entry k d f m)"
    and look_entry: "ok m \<Longrightarrow> look (entry k d f m) k' =
      (if k' = k then Some (f (case look m k of None \<Rightarrow> d | Some v \<Rightarrow> v)) else look m k')"
begin

text \<open>\<^verbatim>\<open>for x in xs { step(x, map.entry(key(x)).or_insert(d)) }\<close>\<close>

definition group :: "('a \<Rightarrow> 'k) \<Rightarrow> 'v \<Rightarrow> ('a \<Rightarrow> 'v \<Rightarrow> 'v) \<Rightarrow> 'a list \<Rightarrow> 'm \<Rightarrow> 'm" where
  "group key d step xs m = fold (\<lambda>x. entry (key x) d (step x)) xs m"

lemma ok_group: "ok m \<Longrightarrow> ok (group key d step xs m)"
  unfolding group_def by (induction xs arbitrary: m) (auto simp: ok_entry)

lemma look_group:
  "ok m \<Longrightarrow> look (group key d step xs m) k =
     (if k \<in> key ` set xs
      then Some (fold step (filter (\<lambda>x. key x = k) xs) (case look m k of None \<Rightarrow> d | Some v \<Rightarrow> v))
      else look m k)"
  unfolding group_def
proof (induction xs arbitrary: m)
  case Nil
  then show ?case by simp
next
  case (Cons x xs)
  from Cons.prems have m': "ok (entry (key x) d (step x) m)" by (rule ok_entry)
  have "filter (\<lambda>y. key y = k) xs = []" if "k \<notin> key ` set xs"
    using that by (auto simp: filter_empty_conv)
  then show ?case
    using Cons.IH [OF m'] look_entry [OF Cons.prems, of "key x" d "step x" k] by auto
qed

lemma look_group_emp:
  "look (group key d step xs emp) k =
     (if k \<in> key ` set xs then Some (fold step (filter (\<lambda>x. key x = k) xs) d) else None)"
  by (simp add: look_group [OF ok_emp] look_emp)

end

section \<open>The association list is such a map\<close>

lemma bt_entry_keys: "fst ` set (bt_entry k d f m) = insert k (fst ` set m)"
  by (induction k d f m rule: bt_entry.induct) (simp_all add: insert_commute)

lemma bt_sorted_Cons: "bt_sorted ((k, v) # m) \<longleftrightarrow> (\<forall>k' \<in> fst ` set m. k < k') \<and> bt_sorted m"
  by (auto simp: bt_sorted_def)

lemma bt_sorted_entry: "bt_sorted m \<Longrightarrow> bt_sorted (bt_entry k d f m)"
proof (induction m)
  case Nil
  show ?case by (simp add: bt_sorted_def)
next
  case (Cons p m)
  obtain k' v where p: "p = (k', v)" by (cases p)
  show ?case
    using Cons by (auto simp: p bt_sorted_Cons bt_entry_keys dest: order.strict_trans)
qed

lemma map_of_bt_entry:
  "bt_sorted m \<Longrightarrow> map_of (bt_entry k d f m) k' =
     (if k' = k then Some (f (case map_of m k of None \<Rightarrow> d | Some v \<Rightarrow> v)) else map_of m k')"
proof (induction m)
  case Nil
  show ?case by simp
next
  case (Cons p m)
  obtain k0 v where p: "p = (k0, v)" by (cases p)
  have "map_of m k = None" if "k < k0"
  proof -
    have "k \<notin> fst ` set m" using Cons.prems that by (auto simp: p bt_sorted_Cons)
    then show ?thesis by (simp add: map_of_eq_None_iff)
  qed
  then show ?case using Cons by (auto simp: p bt_sorted_Cons)
qed

interpretation bt: entry_map bt_entry map_of "[]" bt_sorted
  by unfold_locales (simp_all add: bt_sorted_entry map_of_bt_entry bt_sorted_def [of "[]"])

abbreviation bt_group ::
    "('a \<Rightarrow> 'k::linorder) \<Rightarrow> 'v \<Rightarrow> ('a \<Rightarrow> 'v \<Rightarrow> 'v) \<Rightarrow> 'a list \<Rightarrow> ('k \<times> 'v) list" where
  "bt_group key d step xs \<equiv> fold (\<lambda>x. bt_entry (key x) d (step x)) xs []"

lemma bt_group_sorted: "bt_sorted (bt_group key d step xs)"
  using bt.ok_group [OF bt.ok_emp, of key d step xs] by (simp add: bt.group_def)

lemma map_of_bt_group:
  "map_of (bt_group key d step xs) k =
     (if k \<in> key ` set xs then Some (fold step (filter (\<lambda>x. key x = k) xs) d) else None)"
  using bt.look_group_emp [of key d step xs k] by (simp add: bt.group_def)

lemma bt_sorted_distinct: "bt_sorted m \<Longrightarrow> distinct (map fst m)"
  by (auto simp: bt_sorted_def strict_sorted_iff)

lemma in_bt_group_iff:
  "(k, v) \<in> set (bt_group key d step xs) \<longleftrightarrow>
     k \<in> key ` set xs \<and> v = fold step (filter (\<lambda>x. key x = k) xs) d"
  using map_of_eq_Some_iff [OF bt_sorted_distinct [OF bt_group_sorted [of key d step xs]], of k v]
  by (auto simp: map_of_bt_group split: if_splits)

text \<open>An additive reading of the entries adds up to the same reading of the elements.\<close>

lemma sum_bt_entry:
  fixes g :: "'v \<Rightarrow> int"
  assumes "\<And>v. g (f v) = g v + c" and "g d = 0"
  shows "sum_list (map (\<lambda>p. g (snd p)) (bt_entry k d f m)) = sum_list (map (\<lambda>p. g (snd p)) m) + c"
  using assms by (induction m) auto

lemma sum_bt_fold:
  fixes g :: "'v \<Rightarrow> int"
  assumes "\<And>x v. g (step x v) = g v + c x" and "g d = 0"
  shows "sum_list (map (\<lambda>p. g (snd p)) (fold (\<lambda>x. bt_entry (key x) d (step x)) xs m))
       = sum_list (map (\<lambda>p. g (snd p)) m) + sum_list (map c xs)"
  using assms by (induction xs arbitrary: m) (auto simp: sum_bt_entry [where c = "c _"])

lemma sum_bt_group:
  fixes g :: "'v \<Rightarrow> int"
  assumes "\<And>x v. g (step x v) = g v + c x" and "g d = 0"
  shows "sum_list (map (\<lambda>p. g (snd p)) (bt_group key d step xs)) = sum_list (map c xs)"
  using sum_bt_fold [where m = "[]" and key = key and step = step and xs = xs, OF assms] by simp

text \<open>Accumulating pairs of integers.\<close>

lemma fold_add_pair:
  fixes a b :: "'a \<Rightarrow> int"
  shows "fold (\<lambda>x (u, v). (u + a x, v + b x)) xs (p, q)
       = (p + sum_list (map a xs), q + sum_list (map b xs))"
  by (induction xs arbitrary: p q) auto

end
