(* ===== verification/Ledger_Laws.thy ===== *)
theory Ledger_Laws
  imports Ledger Sample
begin

text \<open>
  What the ledger keeps: the invariant of the journal and line tables and its preservation by
  every posting, the reversal walk (it returns, and it is the parity of the chain), the effect
  of a reversal on balances, and the refusal of a second live journal for one source.
\<close>

section \<open>The chain of reversals\<close>

text \<open>
  Newest first: ids are unique, and a reversal is a manual journal that names an older journal
  nobody else reverses.
\<close>

fun chain_ok :: "journal list \<Rightarrow> bool" where
  "chain_ok [] = True"
| "chain_ok (j # js) \<longleftrightarrow>
     jn_id j \<notin> jn_id ` set js
     \<and> (case jn_reversal_of j of None \<Rightarrow> True
         | Some r \<Rightarrow> r \<in> jn_id ` set js \<and> Some r \<notin> jn_reversal_of ` set js
             \<and> jn_source_type j = JS_Manual)
     \<and> chain_ok js"

definition journals_ok :: "journal list \<Rightarrow> bool" where
  "journals_ok js \<longleftrightarrow> chain_ok (rev js)"

lemma journals_ok_Nil [simp]: "journals_ok []"
  by (simp add: journals_ok_def)

lemma journals_ok_snoc [simp]:
  "journals_ok (js @ [j]) \<longleftrightarrow>
     jn_id j \<notin> jn_id ` set js
     \<and> (\<forall>r. jn_reversal_of j = Some r \<longrightarrow> r \<in> jn_id ` set js \<and> Some r \<notin> jn_reversal_of ` set js
          \<and> jn_source_type j = JS_Manual)
     \<and> journals_ok js"
  by (auto simp: journals_ok_def split: option.splits)

lemma journals_ok_distinct: "journals_ok js \<Longrightarrow> distinct (map jn_id js)"
  by (induction js rule: rev_induct) auto

text \<open>The number of journals from a given one on: it drops at every step of the walk.\<close>

definition from_here :: "db \<Rightarrow> string \<Rightarrow> nat" where
  "from_here s i = length (dropWhile (\<lambda>j. jn_id j \<noteq> i) (db_journals s))"

lemma find_reversal_later:
  assumes "journals_ok js" and "List.find (\<lambda>j. jn_reversal_of j = Some cur) js = Some r"
  shows "length (dropWhile (\<lambda>j. jn_id j \<noteq> jn_id r) js) < length (dropWhile (\<lambda>j. jn_id j \<noteq> cur) js)"
  using assms
proof (induction js rule: rev_induct)
  case Nil
  then show ?case by simp
next
  case (snoc x xs)
  show ?case
  proof (cases "List.find (\<lambda>j. jn_reversal_of j = Some cur) xs")
    case (Some r')
    then have r: "r' = r" using snoc.prems(2) by simp
    have lt: "length (dropWhile (\<lambda>j. jn_id j \<noteq> jn_id r) xs) < length (dropWhile (\<lambda>j. jn_id j \<noteq> cur) xs)"
      using snoc.IH snoc.prems(1) Some r by simp
    have "r \<in> set xs" using Some r by (auto dest: find_eq_SomeD)
    moreover have "\<exists>j \<in> set xs. jn_id j = cur"
    proof (rule ccontr)
      assume "\<not> (\<exists>j \<in> set xs. jn_id j = cur)"
      then have "dropWhile (\<lambda>j. jn_id j \<noteq> cur) xs = []" by simp
      with lt show False by simp
    qed
    ultimately show ?thesis using lt by (auto simp: dropWhile_append1)
  next
    case None
    then have r: "r = x" and x: "jn_reversal_of x = Some cur"
      using snoc.prems(2) by (auto simp: find_append split: if_splits)
    with snoc.prems(1) have new: "jn_id x \<notin> jn_id ` set xs" and old: "cur \<in> jn_id ` set xs" by auto
    have "dropWhile (\<lambda>j. jn_id j \<noteq> jn_id r) (xs @ [x]) = [x]"
      using new by (subst dropWhile_append2) (auto simp: r image_iff)
    moreover have "dropWhile (\<lambda>j. jn_id j \<noteq> cur) xs \<noteq> []"
      using old by (auto simp: dropWhile_eq_Nil_conv)
    ultimately show ?thesis using old by (auto simp: dropWhile_append1)
  qed
qed

lemma find_reversal_descends:
  "journals_ok (db_journals s) \<Longrightarrow> find_reversal s cur = Some r \<Longrightarrow> from_here s r < from_here s cur"
  by (auto simp: find_reversal_def from_here_def find_reversal_later)

lemma reversal_walk_enough:
  "journals_ok (db_journals s) \<Longrightarrow> from_here s cur < n \<Longrightarrow> \<exists>b. reversal_walk n s cur c = Inr b"
proof (induction n arbitrary: cur c)
  case 0
  then show ?case by simp
next
  case (Suc n)
  show ?case
  proof (cases "find_reversal s cur")
    case None
    then show ?thesis by simp
  next
    case (Some r)
    then have "from_here s r < n"
      using find_reversal_descends [OF Suc.prems(1) Some] Suc.prems(2) by linarith
    then show ?thesis using Suc.IH [OF Suc.prems(1)] Some by simp
  qed
qed

lemma reversal_walk_more: "reversal_walk n s cur c = Inr b \<Longrightarrow> reversal_walk (n + k) s cur c = Inr b"
  by (induction n arbitrary: cur c) (auto split: option.splits)

lemma reversal_walk_flip: "reversal_walk n s cur c = Inr b \<Longrightarrow> reversal_walk n s cur (\<not> c) = Inr (\<not> b)"
proof (induction n arbitrary: cur c)
  case 0
  then show ?case by simp
next
  case (Suc n)
  then show ?case
    using Suc.IH [of _ "\<not> c"] by (cases "find_reversal s cur") auto
qed

lemma from_here_le: "from_here s i \<le> length (db_journals s)"
  by (simp add: from_here_def length_dropWhile_le)

lemma is_net_reversed_returns:
  "journals_ok (db_journals s) \<Longrightarrow> \<exists>b. is_net_reversed s i = Inr b"
  unfolding is_net_reversed_def by (rule reversal_walk_enough) (auto simp: from_here_le le_imp_less_Suc)

lemma is_net_reversed_fuel:
  assumes "journals_ok (db_journals s)" and "reversal_walk n s i False = Inr b"
  shows "is_net_reversed s i = Inr b"
proof -
  obtain b' where b': "is_net_reversed s i = Inr b'" using is_net_reversed_returns [OF assms(1)] by blast
  then have "reversal_walk (Suc (length (db_journals s)) + n) s i False = Inr b'"
    unfolding is_net_reversed_def by (rule reversal_walk_more)
  moreover have "reversal_walk (n + Suc (length (db_journals s))) s i False = Inr b"
    using assms(2) by (rule reversal_walk_more)
  ultimately show ?thesis by (simp add: b' add.commute)
qed

lemma is_net_reversed_rec:
  assumes "journals_ok (db_journals s)"
  shows "is_net_reversed s i =
     (case find_reversal s i of
        None \<Rightarrow> Inr False
      | Some r \<Rightarrow> attempt (is_net_reversed s r) (\<lambda>b. Inr (\<not> b)))"
proof (cases "find_reversal s i")
  case None
  then show ?thesis by (simp add: is_net_reversed_def)
next
  case (Some r)
  obtain b where b: "is_net_reversed s r = Inr b" using is_net_reversed_returns [OF assms] by blast
  then have "reversal_walk (Suc (length (db_journals s))) s r True = Inr (\<not> b)"
    unfolding is_net_reversed_def by (rule reversal_walk_flip [where c = False, simplified])
  then have "reversal_walk (Suc (Suc (length (db_journals s)))) s i False = Inr (\<not> b)"
    using Some by (subst reversal_walk.simps(2)) simp
  from is_net_reversed_fuel [OF assms this] Some b show ?thesis by simp
qed

text \<open>Which journals are live is a matter of the journal table alone.\<close>

lemma is_net_reversed_cong:
  assumes "db_journals s' = db_journals s"
  shows "is_net_reversed s' g = is_net_reversed s g"
proof -
  have find: "find_reversal s' x = find_reversal s x" for x by (simp add: assms find_reversal_def)
  have "reversal_walk m s' x b = reversal_walk m s x b" for m x b
    by (induction m arbitrary: x b) (simp_all add: find split: option.splits)
  then show ?thesis by (simp add: is_net_reversed_def assms)
qed

section \<open>The invariant of the ledger\<close>

definition lines_of :: "db \<Rightarrow> string \<Rightarrow> journal_line list" where
  "lines_of s i = filter (\<lambda>l. jl_journal_id l = i) (db_lines s)"

definition stored_line_ok :: "journal list \<Rightarrow> journal_line \<Rightarrow> bool" where
  "stored_line_ok js l \<longleftrightarrow> line_ok l \<and> normalize_currency_code (jl_currency l) = Inr (jl_currency l)
     \<and> list_ex (\<lambda>j. jn_id j = jl_journal_id l \<and> jn_book_id j = jl_book_id l) js"

definition ledger_ok :: "db \<Rightarrow> bool" where
  "ledger_ok s \<longleftrightarrow>
     journals_ok (db_journals s)
     \<and> list_all (stored_line_ok (db_journals s)) (db_lines s)
     \<and> list_all (\<lambda>j. balanced (lines_of s (jn_id j)) \<and> 2 \<le> length (lines_of s (jn_id j))) (db_journals s)"

lemma ledger_ok_empty: "ledger_ok empty_db"
  by (simp add: ledger_ok_def empty_db_def)

lemma ledger_ok_cong:
  "db_journals s' = db_journals s \<Longrightarrow> db_lines s' = db_lines s \<Longrightarrow> ledger_ok s' = ledger_ok s"
  by (simp add: ledger_ok_def lines_of_def)

lemma ledger_ok_post:
  assumes post: "post_journal_in_tx E book new ro s = Inr (p, s')"
    and older: "\<And>r. ro = Some r \<Longrightarrow> r \<in> jn_id ` set (db_journals s) \<and> nj_source_type new = JS_Manual"
    and ok: "ledger_ok s"
  shows "ledger_ok s'"
proof -
  let ?j = "pj_journal p"
  note lines = posted_lines_ok [OF post]
  from post obtain ls where row: "?j = journal_row E book new ro s"
    and fresh: "jn_id ?j \<notin> jn_id ` set (db_journals s)"
    and once: "\<forall>r. ro = Some r \<longrightarrow> Some r \<notin> jn_reversal_of ` set (db_journals s)
           \<and> (r = jn_id ?j \<or> r \<in> jn_id ` set (db_journals s))"
    and js: "db_journals s' = db_journals s @ [?j]" and ln: "db_lines s' = db_lines s @ pj_lines p"
    by (rule post_journal_effect)
  have chain: "journals_ok (db_journals s')"
    using ok once older fresh by (auto simp: js ledger_ok_def row)
  have old_refs: "jl_journal_id l \<in> jn_id ` set (db_journals s)" if "l \<in> set (db_lines s)" for l
    using ok that by (force simp: ledger_ok_def list_all_iff stored_line_ok_def list_ex_iff)
  have new_lines: "lines_of s' (jn_id ?j) = pj_lines p"
  proof -
    have "filter (\<lambda>l. jl_journal_id l = jn_id ?j) (db_lines s) = []"
      unfolding filter_empty_conv using old_refs fresh by metis
    moreover have "filter (\<lambda>l. jl_journal_id l = jn_id ?j) (pj_lines p) = pj_lines p"
      using lines(4) by (simp add: filter_id_conv)
    ultimately show ?thesis by (simp add: lines_of_def ln)
  qed
  have old_lines: "lines_of s' i = lines_of s i" if "i \<in> jn_id ` set (db_journals s)" for i
    using lines(4) fresh that by (force simp: lines_of_def ln filter_empty_conv)
  have stored: "list_all (stored_line_ok (db_journals s')) (db_lines s')"
    using ok lines(2,4,5)
    by (auto simp: ledger_ok_def js ln list_all_iff stored_line_ok_def row)
  have per_journal: "list_all (\<lambda>j. balanced (lines_of s' (jn_id j)) \<and> 2 \<le> length (lines_of s' (jn_id j)))
      (db_journals s')"
    using ok lines(1,3) new_lines
    by (auto simp: js list_all_iff ledger_ok_def old_lines)
  show ?thesis using chain stored per_journal by (simp add: ledger_ok_def)
qed

text \<open>The whole ledger balances in every currency, so a trial balance over it does.\<close>

lemma sum_by_journal:
  fixes f :: "journal_line \<Rightarrow> int"
  assumes "distinct (map jn_id js)" and "\<forall>l \<in> set ls. jl_journal_id l \<in> jn_id ` set js"
  shows "sum_list (map f ls) = sum_list (map (\<lambda>j. sum_list (map f (filter (\<lambda>l. jl_journal_id l = jn_id j) ls))) js)"
  using assms
proof (induction ls)
  case Nil
  then show ?case by simp
next
  case (Cons l ls)
  then have one: "sum_list (map (\<lambda>j. if jl_journal_id l = jn_id j then f l else 0) js) = f l"
    by (intro sum_list_indicator) auto
  have split: "sum_list (map f (filter (\<lambda>l. jl_journal_id l = jn_id j) (l # ls)))
      = (if jl_journal_id l = jn_id j then f l else 0)
        + sum_list (map f (filter (\<lambda>l. jl_journal_id l = jn_id j) ls))" for j
    by simp
  show ?case
    using Cons.IH Cons.prems unfolding split sum_list_addf one by simp
qed

lemma ledger_ok_line_ref:
  "ledger_ok s \<Longrightarrow> l \<in> set (db_lines s) \<Longrightarrow>
     \<exists>j \<in> set (db_journals s). jn_id j = jl_journal_id l \<and> jn_book_id j = jl_book_id l"
  by (auto simp: ledger_ok_def list_all_iff stored_line_ok_def list_ex_iff)

lemma ledger_ok_balanced:
  assumes "ledger_ok s"
  shows "balanced (db_lines s)"
proof -
  have d: "distinct (map jn_id (db_journals s))"
    using assms by (simp add: ledger_ok_def journals_ok_distinct)
  have r: "\<forall>l \<in> set (db_lines s). jl_journal_id l \<in> jn_id ` set (db_journals s)"
    using assms by (force simp: ledger_ok_def list_all_iff stored_line_ok_def list_ex_iff)
  have bal: "debits_in c (lines_of s (jn_id j)) = credits_in c (lines_of s (jn_id j))"
    if "j \<in> set (db_journals s)" for c j
    using assms that by (auto simp: ledger_ok_def list_all_iff balanced_iff)
  have sum: "sum_list (map f (filter Q (db_lines s)))
      = sum_list (map (\<lambda>j. sum_list (map f (filter Q (lines_of s (jn_id j))))) (db_journals s))"
    for f :: "journal_line \<Rightarrow> int" and Q
    using sum_by_journal [OF d, of "filter Q (db_lines s)" f] r
    by (simp add: lines_of_def conj_commute)
  show ?thesis
    unfolding balanced_iff debits_in_def credits_in_def sum
    using bal by (auto simp: debits_in_def credits_in_def intro!: arg_cong [where f = sum_list])
qed

section \<open>What a reversal does\<close>

definition net_in :: "string \<Rightarrow> string \<Rightarrow> journal_line list \<Rightarrow> int" where
  "net_in account currency ls =
     sum_list (map (\<lambda>l. jl_debit_minor l - jl_credit_minor l)
       (filter (\<lambda>l. jl_coa_id l = account \<and> jl_currency l = currency) ls))"

definition account_net :: "db \<Rightarrow> string \<Rightarrow> string \<Rightarrow> int" where
  "account_net s account currency = net_in account currency (db_lines s)"

text \<open>What a line says, apart from its id, journal and position.\<close>

definition line_says :: "journal_line \<Rightarrow> string \<times> int \<times> int \<times> string \<times> string option \<times> vat_role option" where
  "line_says l = (jl_coa_id l, jl_debit_minor l, jl_credit_minor l, jl_currency l,
     jl_vat_rate_id l, jl_vat_role l)"

definition mirror :: "journal_line \<Rightarrow> string \<times> int \<times> int \<times> string \<times> string option \<times> vat_role option" where
  "mirror l = (jl_coa_id l, jl_credit_minor l, jl_debit_minor l, jl_currency l,
     jl_vat_rate_id l, jl_vat_role l)"

lemma net_in_append [simp]: "net_in a c (xs @ ys) = net_in a c xs + net_in a c ys"
  by (simp add: net_in_def)

lemma net_in_Cons [simp]:
  "net_in a c (l # ls) = (if jl_coa_id l = a \<and> jl_currency l = c
     then jl_debit_minor l - jl_credit_minor l else 0) + net_in a c ls"
  by (simp add: net_in_def)

lemma net_in_mirror: "map line_says xs = map mirror ys \<Longrightarrow> net_in a c xs = - net_in a c ys"
proof (induction ys arbitrary: xs)
  case Nil
  then show ?case by (simp add: net_in_def)
next
  case (Cons y ys)
  then obtain x xs' where xs: "xs = x # xs'" and x: "line_says x = mirror y"
    and rest: "map line_says xs' = map mirror ys"
    by (cases xs) auto
  show ?case using Cons.IH [OF rest] x by (simp add: xs line_says_def mirror_def)
qed

lemma normalize_lines_fixed:
  "\<forall>l \<in> set ls. normalize_currency_code (nl_currency l) = Inr (nl_currency l) \<Longrightarrow>
     normalize_lines ls = Inr ls"
  by (induction ls) auto

lemma line_says_stored:
  assumes "map line_view st = map (\<lambda>(k, l). stored_line [] j now k l) (enumerate n (map flip_line xs))"
  shows "map line_says st = map mirror xs"
  using assms
proof (induction xs arbitrary: n st)
  case Nil
  then show ?case by simp
next
  case (Cons y xs)
  then obtain x st' where st: "st = x # st'" and x: "line_view x = stored_line [] j now n (flip_line y)"
    and rest: "map line_view st' = map (\<lambda>(k, l). stored_line [] j now k l) (enumerate (Suc n) (map flip_line xs))"
    by (cases st) auto
  have "line_says x = mirror y"
    using line_view_eqD [OF x] by (simp add: line_says_def mirror_def flip_line_def)
  then show ?case using Cons.IH [OF rest] by (simp add: st)
qed

lemma journal_get_Inr [res_simps]:
  "journal_get s i = Inr q \<longleftrightarrow>
     (\<exists>j. get_journal s i = Some j \<and> q = \<lparr>pj_journal = j, pj_lines = lines_for_journal s i\<rparr>)"
  by (auto simp: journal_get_def res_simps)

lemma get_journal_in: "get_journal s i = Some j \<Longrightarrow> j \<in> set (db_journals s) \<and> jn_id j = i"
  by (auto simp: get_journal_def dest: tab_find_Some)

lemma find_reversal_None: "find_reversal s i = None \<longleftrightarrow> Some i \<notin> jn_reversal_of ` set (db_journals s)"
  by (auto simp: find_reversal_def find_None_iff image_iff)

lemma find_reversal_snoc:
  assumes "db_journals s' = db_journals s @ [j]"
  shows "find_reversal s' i =
    (case find_reversal s i of
       None \<Rightarrow> if jn_reversal_of j = Some i then Some (jn_id j) else None
     | Some r \<Rightarrow> Some r)"
  by (simp add: find_reversal_def assms find_append split: option.splits)

lemma reverse_in_tx_post:
  assumes "reverse_journal_in_tx E book i d n s = Inr (p, s')"
  obtains new where "post_journal_in_tx E book new (Some i) s = Inr (p, s')"
    and "nj_lines new = map flip_line (lines_for_journal s i)"
    and "find_reversal s i = None" and "i \<in> jn_id ` set (db_journals s)"
    and "nj_source_type new = JS_Manual" and "nj_source_id new = None"
proof -
  from assms obtain j where j: "get_journal s i = Some j" and none: "find_reversal s i = None"
    by (auto simp: reverse_journal_in_tx_def res_simps split: option.splits)
  from get_journal_in [OF j] have "i \<in> jn_id ` set (db_journals s)" by auto
  with assms j none show thesis
    by (intro that) (auto simp: reverse_journal_in_tx_def journal_get_def Let_def)
qed

lemma set_lines_for_journal: "set (lines_for_journal s i) = set (lines_of s i)"
  by (simp add: lines_for_journal_def lines_of_def)

lemma lines_for_journal_normalized:
  "ledger_ok s \<Longrightarrow> l \<in> set (lines_for_journal s i) \<Longrightarrow>
     normalize_currency_code (jl_currency l) = Inr (jl_currency l)"
  by (auto simp: set_lines_for_journal lines_of_def ledger_ok_def list_all_iff stored_line_ok_def)

lemma reverse_in_tx_mirrors:
  assumes "ledger_ok s" and "reverse_journal_in_tx E book i d n s = Inr (p, s')"
  shows "map line_says (pj_lines p) = map mirror (lines_for_journal s i)"
proof -
  from assms(2) obtain new where post: "post_journal_in_tx E book new (Some i) s = Inr (p, s')"
    and ls: "nj_lines new = map flip_line (lines_for_journal s i)"
    by (rule reverse_in_tx_post)
  from post obtain ls' where ok: "postable E book new s ls'"
    and view: "map line_view (pj_lines p) =
           map (\<lambda>(k, l). stored_line [] (pj_journal p) (e_now E (db_draws s)) k l) (enumerate 0 ls')"
    by (rule post_journal_effect)
  have "normalize_lines (nj_lines new) = Inr (nj_lines new)"
    using assms(1) by (intro normalize_lines_fixed) (auto simp: ls flip_line_def lines_for_journal_normalized)
  with ok have "ls' = map flip_line (lines_for_journal s i)" by (simp add: postable_def ls)
  with view show ?thesis by (simp add: line_says_stored)
qed

lemma ledger_ok_reverse:
  assumes "ledger_ok s" and "reverse_journal_in_tx E book i d n s = Inr (p, s')"
  shows "ledger_ok s'"
proof -
  from assms(2) obtain new where post: "post_journal_in_tx E book new (Some i) s = Inr (p, s')"
    and "i \<in> jn_id ` set (db_journals s)" and "nj_source_type new = JS_Manual"
    by (rule reverse_in_tx_post)
  then show ?thesis using ledger_ok_post [OF post _ assms(1)] by simp
qed

lemma reversal_effect:
  assumes "ledger_ok s" and "reverse_journal_in_tx E book i d n s = Inr (p, s')"
  shows "find_reversal s i = None" and "find_reversal s' i = Some (jn_id (pj_journal p))"
    and "find_reversal s' (jn_id (pj_journal p)) = None"
    and "db_journals s' = db_journals s @ [pj_journal p]" and "db_lines s' = db_lines s @ pj_lines p"
    and "same_but_ledger s s'" and "jn_reversal_of (pj_journal p) = Some i"
    and "jn_source_type (pj_journal p) = JS_Manual"
proof -
  from assms(2) obtain new where post: "post_journal_in_tx E book new (Some i) s = Inr (p, s')"
    and none: "find_reversal s i = None" and manual: "nj_source_type new = JS_Manual"
    by (rule reverse_in_tx_post)
  from post obtain ls where row: "pj_journal p = journal_row E book new (Some i) s"
    and fresh: "jn_id (pj_journal p) \<notin> jn_id ` set (db_journals s)"
    and js: "db_journals s' = db_journals s @ [pj_journal p]"
    and ln: "db_lines s' = db_lines s @ pj_lines p" and same: "same_but_ledger s s'"
    by (rule post_journal_effect)
  have ok': "journals_ok (db_journals s')" using ledger_ok_reverse [OF assms] by (simp add: ledger_ok_def)
  show "find_reversal s i = None" by (rule none)
  show rv: "jn_reversal_of (pj_journal p) = Some i" by (simp add: row)
  show "jn_source_type (pj_journal p) = JS_Manual" by (simp add: row manual)
  show "find_reversal s' i = Some (jn_id (pj_journal p))"
    using find_reversal_snoc [OF js, of i] none rv by simp
  show "db_journals s' = db_journals s @ [pj_journal p]" by (rule js)
  show "db_lines s' = db_lines s @ pj_lines p" by (rule ln)
  show "same_but_ledger s s'" by (rule same)
  show "find_reversal s' (jn_id (pj_journal p)) = None"
  proof (rule ccontr)
    assume "find_reversal s' (jn_id (pj_journal p)) \<noteq> None"
    then obtain r where r: "find_reversal s' (jn_id (pj_journal p)) = Some r" by blast
    have one: "from_here s' (jn_id (pj_journal p)) = 1"
      using fresh unfolding from_here_def js by (subst dropWhile_append2) (auto simp: image_iff)
    from r obtain k where k: "k \<in> set (db_journals s')" "jn_id k = r"
      by (auto simp: find_reversal_def dest!: find_eq_SomeD)
    then have "dropWhile (\<lambda>j. jn_id j \<noteq> r) (db_journals s') \<noteq> []"
      by (auto simp: dropWhile_eq_Nil_conv)
    then have "0 < from_here s' r" by (simp add: from_here_def)
    with find_reversal_descends [OF ok' r] one show False by simp
  qed
qed

section \<open>Correctness of the ledger operations\<close>

definition sample_line :: "string \<Rightarrow> int \<Rightarrow> int \<Rightarrow> new_journal_line" where
  "sample_line account debit credit =
     \<lparr>nl_coa_id = account, nl_debit_minor = debit, nl_credit_minor = credit, nl_currency = '' zar'',
      nl_description = None, nl_vat_rate_id = None, nl_vat_role = None\<rparr>"

definition sample_journal :: "journal_source_type \<Rightarrow> string option \<Rightarrow> new_journal" where
  "sample_journal ty src =
     \<lparr>nj_book_id = ''b'', nj_posted_date = ''2026-02-01'', nj_narrative = None, nj_reference = None,
      nj_source_type = ty, nj_source_id = src,
      nj_lines = [sample_line ''c1000'' 115 0, sample_line ''c4000'' 0 100, sample_line ''c2100'' 0 15]\<rparr>"

definition sample_posted :: "(posted_journal \<times> db) res" where
  "sample_posted = journal_post sample_env (sample_journal JS_Transaction (Some ''t1'')) sample_db"

lemma sample_posted_ran: "sample_posted = Inr (out_of sample_posted, db_of sample_posted)"
  by (rule run_witness) code_simp

definition open_on :: "book \<Rightarrow> string \<Rightarrow> bool" where
  "open_on book d \<longleftrightarrow> (case bk_financial_lock_date book of None \<Rightarrow> True | Some lock \<Rightarrow> lock < d)"

lemma postable_open: "postable E book new s ls \<Longrightarrow> open_on book (nj_posted_date new)"
  by (auto simp: postable_def open_on_def split: option.splits)

text \<open>
  \<^bold>\<open>C1.\<close> A journal that is posted is stored exactly: the request's header becomes one new row
  with a fresh id, its lines become the new rows of the line table, in order, with normalised
  currencies, and nothing but the ledger and the audit log changes. The stored lines have one
  positive side each, bounded by the maximum, balance in every currency, name open accounts of
  the book, and the posted date is after the book's lock date.
\<close>

theorem journal_post_stores:
  assumes "journal_post E new s = Inr (p, s')"
  shows "db_journals s' = db_journals s @ [pj_journal p] \<and> db_lines s' = db_lines s @ pj_lines p
    \<and> same_but_ledger s s'
    \<and> jn_id (pj_journal p) \<notin> jn_id ` set (db_journals s)
    \<and> balanced (pj_lines p) \<and> list_all line_ok (pj_lines p) \<and> 2 \<le> length (pj_lines p)
    \<and> (\<exists>book ls. book_get s (nj_book_id new) = Inr book \<and> open_on book (nj_posted_date new)
         \<and> pj_journal p = journal_row E book new None s
         \<and> normalize_lines (nj_lines new) = Inr ls \<and> list_all (account_takes s book) ls
         \<and> map line_view (pj_lines p)
             = map (\<lambda>(k, l). stored_line [] (pj_journal p) (e_now E (db_draws s)) k l) (enumerate 0 ls))"
proof -
  from assms obtain book where book: "book_get s (nj_book_id new) = Inr book"
    and post: "post_journal_in_tx E book new None s = Inr (p, s')"
    by (auto simp: journal_post_def attempt_eq_Inr)
  from post obtain ls where ls: "postable E book new s ls"
    and row: "pj_journal p = journal_row E book new None s"
    and "jn_id (pj_journal p) \<notin> jn_id ` set (db_journals s)"
    and "db_journals s' = db_journals s @ [pj_journal p]" and "db_lines s' = db_lines s @ pj_lines p"
    and "same_but_ledger s s'"
    and view: "map line_view (pj_lines p)
             = map (\<lambda>(k, l). stored_line [] (pj_journal p) (e_now E (db_draws s)) k l) (enumerate 0 ls)"
    by (rule post_journal_effect)
  moreover have "normalize_lines (nj_lines new) = Inr ls" and "list_all (account_takes s book) ls"
    using ls by (auto simp: postable_def check_accounts_Inr)
  ultimately show ?thesis
    using book posted_lines_ok(1-3) [OF post] postable_open [OF ls] by blast
qed

lemma journal_post_stores_witness:
  "db_journals (db_of sample_posted) = [pj_journal (out_of sample_posted)]"
  using journal_post_stores [OF sample_posted_ran [unfolded sample_posted_def]]
  by (simp add: sample_posted_def sample_db_def empty_db_def)

text \<open>The totals of the request's lines in one currency, and the guard on the source of a request.\<close>

definition tally_in :: "(new_journal_line \<Rightarrow> int) \<Rightarrow> string \<Rightarrow> new_journal_line list \<Rightarrow> int" where
  "tally_in side c ls = sum_list (map side (filter (\<lambda>l. nl_currency l = c) ls))"

definition source_free :: "db \<Rightarrow> book \<Rightarrow> new_journal \<Rightarrow> bool" where
  "source_free s book new \<longleftrightarrow>
     (case nj_source_id new of
        None \<Rightarrow> True
      | Some i \<Rightarrow> nj_source_type new = JS_Manual
          \<or> list_all (\<lambda>k. is_net_reversed s k = Inr True)
              (find_journals_by_source s (bk_id book) (nj_source_type new) i))"

lemma refuse_live_source_free:
  "list_all (\<lambda>k. is_net_reversed s k = Inr True) ks \<Longrightarrow> refuse_live_source s ty ks = Inr ()"
  by (induction ks) simp_all

lemma check_balanced_first:
  assumes "bt_sorted m" and "(c, (d, k)) \<in> set m" and "d \<noteq> k"
    and "\<And>c' d' k'. (c', (d', k')) \<in> set m \<Longrightarrow> c' < c \<Longrightarrow> d' = k'"
  shows "check_balanced m
    = Inl (UnbalancedJournal (max i64_min (min i64_max d)) (max i64_min (min i64_max k)))"
  using assms
proof (induction m rule: check_balanced.induct)
  case 1
  then show ?case by simp
next
  case (2 c0 d0 k0 m)
  show ?case
  proof (cases "c0 = c")
    case True
    with 2 have "(d0, k0) = (d, k)" by (auto simp: bt_sorted_Cons image_iff)
    with 2(4) show ?thesis by simp
  next
    case False
    with 2 have "c0 < c" by (auto simp: bt_sorted_Cons)
    with 2(5) have "d0 = k0" by auto
    moreover have "check_balanced m
        = Inl (UnbalancedJournal (max i64_min (min i64_max d)) (max i64_min (min i64_max k)))"
      using 2 False \<open>d0 = k0\<close> by (intro 2(1)) (auto simp: bt_sorted_Cons)
    ultimately show ?thesis by simp
  qed
qed

lemma tally_lines_total:
  "list_all (\<lambda>l. one_side (nl_debit_minor l) (nl_credit_minor l)
     \<and> max (nl_debit_minor l) (nl_credit_minor l) \<le> MAX_LINE_AMOUNT_MINOR) ls
   \<Longrightarrow> tally_lines ls m = Inr (fold (\<lambda>l. bt_entry (nl_currency l) (0, 0)
            (\<lambda>(d, c). (d + nl_debit_minor l, c + nl_credit_minor l))) ls m)"
  by (induction ls arbitrary: m) (auto simp: Let_def)

lemma tally_group_entry:
  "(c, (d, k)) \<in> set (bt_group nl_currency (0, 0)
      (\<lambda>l (d, c). (d + nl_debit_minor l, c + nl_credit_minor l)) ls)
   \<longleftrightarrow> c \<in> nl_currency ` set ls \<and> d = tally_in nl_debit_minor c ls \<and> k = tally_in nl_credit_minor c ls"
  unfolding in_bt_group_iff tally_in_def fold_add_pair [of nl_debit_minor nl_credit_minor] by simp

lemma tally_in_absent: "c \<notin> nl_currency ` set ls \<Longrightarrow> tally_in side c ls = 0"
proof -
  assume "c \<notin> nl_currency ` set ls"
  then have "filter (\<lambda>l. nl_currency l = c) ls = []" by (auto simp: filter_empty_conv)
  then show ?thesis by (simp add: tally_in_def)
qed

text \<open>
  \<^bold>\<open>C9.\<close> A request whose debits and credits differ in some currency is always refused, whatever
  its source, its date and its other currencies. When its date, the book's lock, its source and the
  shape of its lines pass, the refusal is the unbalanced-journal error, and it reports the two
  totals of the alphabetically first currency that does not balance, clamped to 64 bits.
\<close>

theorem unbalanced_journal_refused:
  assumes "normalize_lines (nj_lines new) = Inr ls"
    and "tally_in nl_debit_minor c ls \<noteq> tally_in nl_credit_minor c ls"
  shows "(\<exists>e. journal_post E new s = Inl e)
    \<and> (\<forall>book d. book_get s (nj_book_id new) = Inr book \<and> 2 \<le> length (nj_lines new)
         \<and> tl_parse (e_time E) (nj_posted_date new) = Some d \<and> open_on book (nj_posted_date new)
         \<and> source_free s book new
         \<and> list_all (\<lambda>l. one_side (nl_debit_minor l) (nl_credit_minor l)
              \<and> max (nl_debit_minor l) (nl_credit_minor l) \<le> MAX_LINE_AMOUNT_MINOR) ls
         \<and> (\<forall>c' < c. tally_in nl_debit_minor c' ls = tally_in nl_credit_minor c' ls)
         \<longrightarrow> journal_post E new s = Inl (UnbalancedJournal
               (max i64_min (min i64_max (tally_in nl_debit_minor c ls)))
               (max i64_min (min i64_max (tally_in nl_credit_minor c ls)))))"
proof (intro conjI allI impI)
  have "journal_post E new s \<noteq> Inr x" for x
  proof
    assume "journal_post E new s = Inr x"
    then obtain book m where "tally_lines ls [] = Inr m" and "check_balanced m = Inr ()"
      using assms(1)
      by (cases x) (auto simp: journal_post_def attempt_eq_Inr postable_def elim!: post_journal_effect)
    with tally_balanced [of ls m c] assms(2) show False by (simp add: tally_in_def)
  qed
  then show "\<exists>e. journal_post E new s = Inl e" by (cases "journal_post E new s") auto
next
  fix book d
  let ?shape = "\<lambda>l. one_side (nl_debit_minor l) (nl_credit_minor l)
    \<and> max (nl_debit_minor l) (nl_credit_minor l) \<le> MAX_LINE_AMOUNT_MINOR"
  assume a: "book_get s (nj_book_id new) = Inr book \<and> 2 \<le> length (nj_lines new)
    \<and> tl_parse (e_time E) (nj_posted_date new) = Some d \<and> open_on book (nj_posted_date new)
    \<and> source_free s book new \<and> list_all ?shape ls
    \<and> (\<forall>c' < c. tally_in nl_debit_minor c' ls = tally_in nl_credit_minor c' ls)"
  let ?m = "bt_group nl_currency (0, 0) (\<lambda>l (d, c). (d + nl_debit_minor l, c + nl_credit_minor l)) ls"
  have here: "c \<in> nl_currency ` set ls" using assms(2) tally_in_absent [of c ls] by metis
  have "tally_lines ls [] = Inr ?m" using a by (intro tally_lines_total) blast
  moreover have "check_balanced ?m = Inl (UnbalancedJournal
      (max i64_min (min i64_max (tally_in nl_debit_minor c ls)))
      (max i64_min (min i64_max (tally_in nl_credit_minor c ls))))"
    using assms(2) a here by (intro check_balanced_first bt_group_sorted) (auto simp: tally_group_entry)
  moreover have "(case nj_source_id new of None \<Rightarrow> Inr ()
      | Some i \<Rightarrow> refuse_live_source s (nj_source_type new)
          (find_journals_by_source s (bk_id book) (nj_source_type new) i)) = Inr ()"
    if "nj_source_type new \<noteq> JS_Manual"
    using a that by (auto simp: source_free_def refuse_live_source_free split: option.splits)
  ultimately show "journal_post E new s = Inl (UnbalancedJournal
      (max i64_min (min i64_max (tally_in nl_debit_minor c ls)))
      (max i64_min (min i64_max (tally_in nl_credit_minor c ls))))"
    using a assms(1)
    by (simp add: journal_post_def post_journal_in_tx_def parse_date_def open_on_def split: option.splits)
      (auto simp: leD)
qed

lemma unbalanced_journal_refused_witness:
  "journal_post sample_env
     ((sample_journal JS_Transaction (Some ''t1''))\<lparr>nj_lines := [sample_line ''c1000'' 7 0, sample_line ''c4000'' 0 6]\<rparr>)
     sample_db = Inl (UnbalancedJournal 7 6)"
proof -
  let ?new = "(sample_journal JS_Transaction (Some ''t1''))
    \<lparr>nj_lines := [sample_line ''c1000'' 7 0, sample_line ''c4000'' 0 6]\<rparr>"
  let ?ls = "[(sample_line ''c1000'' 7 0)\<lparr>nl_currency := ''ZAR''\<rparr>,
    (sample_line ''c4000'' 0 6)\<lparr>nl_currency := ''ZAR''\<rparr>]"
  have ls: "normalize_lines (nj_lines ?new) = Inr ?ls" by code_simp
  have ne: "tally_in nl_debit_minor ''ZAR'' ?ls \<noteq> tally_in nl_credit_minor ''ZAR'' ?ls" by code_simp
  have low: "tally_in nl_debit_minor c' ?ls = tally_in nl_credit_minor c' ?ls" if "c' < ''ZAR''" for c'
    using that by (auto simp: tally_in_def sample_line_def)
  have pre: "book_get sample_db (nj_book_id ?new) = Inr sample_book"
    "2 \<le> length (nj_lines ?new)" "tl_parse (e_time sample_env) (nj_posted_date ?new) = Some (Date 2026 2 1)"
    "open_on sample_book (nj_posted_date ?new)" "source_free sample_db sample_book ?new"
    "list_all (\<lambda>l. one_side (nl_debit_minor l) (nl_credit_minor l)
       \<and> max (nl_debit_minor l) (nl_credit_minor l) \<le> MAX_LINE_AMOUNT_MINOR) ?ls"
    by code_simp+
  have out: "UnbalancedJournal (max i64_min (min i64_max (tally_in nl_debit_minor ''ZAR'' ?ls)))
      (max i64_min (min i64_max (tally_in nl_credit_minor ''ZAR'' ?ls))) = UnbalancedJournal 7 6"
    by code_simp
  show ?thesis
    using unbalanced_journal_refused [OF ls ne, of sample_env sample_db, THEN conjunct2, rule_format,
        of sample_book "Date 2026 2 1"] pre low unfolding out by blast
qed

text \<open>Reading a reversal off \<^verbatim>\<open>journal_reverse\<close>.\<close>

lemma journal_reverse_in_tx:
  assumes "journal_reverse E i d n s = Inr (p, s')"
  obtains j book where "get_journal s i = Some j" and "book_get s (jn_book_id j) = Inr book"
    and "reverse_journal_in_tx E book i d n s = Inr (p, s')"
  using assms by (auto simp: journal_reverse_def attempt_eq_Inr journal_get_Inr)

lemma journal_post_row:
  assumes "journal_post E new s = Inr (p, s')"
  obtains book where "pj_journal p = journal_row E book new None s"
    and "jn_id (pj_journal p) \<notin> jn_id ` set (db_journals s)"
    and "db_journals s' = db_journals s @ [pj_journal p]"
proof -
  from assms obtain book where "post_journal_in_tx E book new None s = Inr (p, s')"
    by (auto simp: journal_post_def attempt_eq_Inr)
  then show thesis by (rule post_journal_effect) (rule that)
qed

lemma ledger_ok_journal_post:
  assumes "ledger_ok s" and "journal_post E new s = Inr (p, s')"
  shows "ledger_ok s'"
  using assms by (auto simp: journal_post_def attempt_eq_Inr intro: ledger_ok_post)

lemma ledger_ok_journal_reverse:
  assumes "ledger_ok s" and "journal_reverse E i d n s = Inr (p, s')"
  shows "ledger_ok s'"
  using assms(2) by (rule journal_reverse_in_tx) (rule ledger_ok_reverse [OF assms(1)])

definition sample_reversed :: "(posted_journal \<times> db) res" where
  "sample_reversed = journal_reverse sample_env (jn_id (pj_journal (out_of sample_posted))) None None
     (db_of sample_posted)"

lemma sample_reversed_ran: "sample_reversed = Inr (out_of sample_reversed, db_of sample_reversed)"
  by (rule run_witness) code_simp

lemma ledger_ok_sample_db: "ledger_ok sample_db"
  by (simp add: ledger_ok_def sample_db_def empty_db_def)

lemma sample_ledger_ok: "ledger_ok (db_of sample_posted)" "ledger_ok (db_of sample_reversed)"
proof -
  show posted: "ledger_ok (db_of sample_posted)"
    by (rule ledger_ok_journal_post [OF ledger_ok_sample_db sample_posted_ran [unfolded sample_posted_def],
          folded sample_posted_def])
  show "ledger_ok (db_of sample_reversed)"
    by (rule ledger_ok_journal_reverse [OF posted sample_reversed_ran [unfolded sample_reversed_def],
          folded sample_reversed_def])
qed

text \<open>
  \<^bold>\<open>C8.\<close> The reversal walk always returns on a well-formed chain, and its result is the parity
  of the chain: a journal nobody reversed is live, and one that was reversed is live exactly
  when its reversal is not.
\<close>

theorem net_reversed_parity:
  assumes "journals_ok (db_journals s)"
  shows "is_net_reversed s i =
      (case find_reversal s i of
         None \<Rightarrow> Inr False
       | Some r \<Rightarrow> attempt (is_net_reversed s r) (\<lambda>b. Inr (\<not> b)))
    \<and> (\<exists>b. is_net_reversed s i = Inr b)"
  using is_net_reversed_rec [OF assms] is_net_reversed_returns [OF assms] by blast

lemma net_reversed_parity_witness:
  "is_net_reversed (db_of sample_reversed) (jn_id (pj_journal (out_of sample_posted))) = Inr True"
proof -
  have ok: "journals_ok (db_journals (db_of sample_reversed))"
    using sample_ledger_ok(2) by (simp add: ledger_ok_def)
  obtain book where r: "reverse_journal_in_tx sample_env book (jn_id (pj_journal (out_of sample_posted)))
      None None (db_of sample_posted) = Inr (out_of sample_reversed, db_of sample_reversed)"
    using sample_reversed_ran unfolding sample_reversed_def by (rule journal_reverse_in_tx)
  note eff = reversal_effect [OF sample_ledger_ok(1) r]
  show ?thesis
    using net_reversed_parity [OF ok, of "jn_id (pj_journal (out_of sample_posted))"]
      net_reversed_parity [OF ok, of "jn_id (pj_journal (out_of sample_reversed))"] eff(2,3)
    by simp
qed

lemma net_in_insort: "net_in a c (insort_key f x xs) = net_in a c (x # xs)"
  by (induction xs) auto

lemma net_in_sort: "net_in a c (sort_key f xs) = net_in a c xs"
  by (induction xs) (simp_all add: net_in_insort)

lemma net_in_lines_for_journal: "net_in a c (lines_for_journal s i) = net_in a c (lines_of s i)"
  by (simp add: lines_for_journal_def lines_of_def net_in_sort)

text \<open>
  \<^bold>\<open>C2.\<close> A reversal is the exact mirror of the journal it reverses: line by line, in the original
  order, the same account, currency and VAT tags with the two sides swapped. Every account's
  balance moves back by exactly what the original journal moved it, in every currency; the
  ledger only grows, and its invariant is kept.
\<close>

theorem reversal_mirrors:
  assumes "ledger_ok s" and "journal_reverse E i d n s = Inr (p, s')"
  shows "map line_says (pj_lines p) = map mirror (lines_for_journal s i)
    \<and> account_net s' a c = account_net s a c - net_in a c (lines_of s i)
    \<and> db_journals s' = db_journals s @ [pj_journal p] \<and> db_lines s' = db_lines s @ pj_lines p
    \<and> jn_reversal_of (pj_journal p) = Some i \<and> ledger_ok s'"
proof -
  from assms(2) obtain j book where r: "reverse_journal_in_tx E book i d n s = Inr (p, s')"
    by (rule journal_reverse_in_tx)
  note mirrored = reverse_in_tx_mirrors [OF assms(1) r]
  have "account_net s' a c = account_net s a c - net_in a c (lines_of s i)"
    using net_in_mirror [OF mirrored, of a c] reversal_effect(5) [OF assms(1) r]
    by (simp add: account_net_def net_in_lines_for_journal)
  then show ?thesis
    using mirrored reversal_effect(4,5,7) [OF assms(1) r] ledger_ok_reverse [OF assms(1) r] by blast
qed

lemma reversal_mirrors_witness:
  "account_net (db_of sample_reversed) ''c1000'' ''ZAR'' = 115 - 115"
proof -
  have "account_net (db_of sample_posted) ''c1000'' ''ZAR'' = 115"
    and "net_in ''c1000'' ''ZAR'' (lines_of (db_of sample_posted)
           (jn_id (pj_journal (out_of sample_posted)))) = 115"
    by code_simp+
  with reversal_mirrors [OF sample_ledger_ok(1) sample_reversed_ran [unfolded sample_reversed_def],
      of "''c1000''" "''ZAR''"]
  show ?thesis by (simp add: sample_reversed_def)
qed

text \<open>
  A journal is reversed at most once: it was live before its reversal, it is cancelled
  after it, and every later attempt to reverse it is refused, naming the reversal.
\<close>

theorem reversed_at_most_once:
  assumes "ledger_ok s" and "journal_reverse E i d n s = Inr (p, s')"
  shows "is_net_reversed s i = Inr False \<and> is_net_reversed s' i = Inr True
    \<and> journal_reverse E' i d' n' s' = Inl (DuplicateJournal ''reversal'' (jn_id (pj_journal p)))"
proof -
  from assms(2) obtain j book where j: "get_journal s i = Some j"
    and b: "book_get s (jn_book_id j) = Inr book"
    and r: "reverse_journal_in_tx E book i d n s = Inr (p, s')"
    by (rule journal_reverse_in_tx)
  note eff = reversal_effect [OF assms(1) r]
  have ok: "journals_ok (db_journals s)" "journals_ok (db_journals s')"
    using assms(1) ledger_ok_reverse [OF assms(1) r] by (auto simp: ledger_ok_def)
  have "is_net_reversed s' (jn_id (pj_journal p)) = Inr False"
    using is_net_reversed_rec [OF ok(2)] eff(3) by simp
  then have cancelled: "is_net_reversed s' i = Inr True"
    using is_net_reversed_rec [OF ok(2), of i] eff(2) by simp
  have "get_journal s' i = Some j" using j by (simp add: get_journal_def eff(4))
  moreover have "book_get s' (jn_book_id j) = Inr book"
    using b by (simp add: book_get_def same_but_ledger_tables(1) [OF eff(6)])
  ultimately have "journal_reverse E' i d' n' s' = Inl (DuplicateJournal ''reversal'' (jn_id (pj_journal p)))"
    using eff(2) by (simp add: journal_reverse_def reverse_journal_in_tx_def journal_get_def)
  with cancelled show ?thesis using is_net_reversed_rec [OF ok(1), of i] eff(1) by simp
qed

lemma reversed_at_most_once_witness:
  "is_net_reversed (db_of sample_reversed) (jn_id (pj_journal (out_of sample_posted))) = Inr True"
  using reversed_at_most_once [OF sample_ledger_ok(1) sample_reversed_ran [unfolded sample_reversed_def]]
  by (simp add: sample_reversed_def)

text \<open>A journal that reverses nothing leaves every walk as it was.\<close>

lemma is_net_reversed_plain:
  assumes "journals_ok (db_journals s')" and "db_journals s' = db_journals s @ [j]"
    and "jn_reversal_of j = None"
  shows "is_net_reversed s' i = is_net_reversed s i"
proof -
  have "find_reversal s' k = find_reversal s k" for k
    using find_reversal_snoc [OF assms(2), of k] assms(3) by (simp split: option.splits)
  then have walk: "reversal_walk n s' k b = reversal_walk n s k b" for n k b
    by (induction n arbitrary: k b) (simp_all split: option.splits)
  have "journals_ok (db_journals s)" using assms(1,2) by simp
  then obtain b where b: "is_net_reversed s i = Inr b" using is_net_reversed_returns by blast
  then have "reversal_walk (Suc (length (db_journals s))) s' i False = Inr b"
    unfolding is_net_reversed_def walk by simp
  from is_net_reversed_fuel [OF assms(1) this] b show ?thesis by simp
qed

lemma new_journal_live:
  assumes "journals_ok (js @ [j])" and "db_journals s' = js @ [j]"
  shows "find_reversal s' (jn_id j) = None"
proof -
  have "Some (jn_id j) \<notin> jn_reversal_of ` set js"
  proof
    assume "Some (jn_id j) \<in> jn_reversal_of ` set js"
    moreover have "journals_ok js \<Longrightarrow> Some r \<in> jn_reversal_of ` set js \<Longrightarrow> r \<in> jn_id ` set js" for r
      by (induction js rule: rev_induct) auto
    ultimately have "jn_id j \<in> jn_id ` set js" using assms(1) by simp
    with assms(1) show False by simp
  qed
  then show ?thesis using assms by (auto simp: find_reversal_None)
qed

lemma set_find_journals_by_source:
  "set (find_journals_by_source s b ty i) =
     jn_id ` {j \<in> set (db_journals s). jn_book_id j = b \<and> jn_source_type j = ty \<and> jn_source_id j = Some i}"
  by (auto simp: find_journals_by_source_def)

text \<open>
  \<^bold>\<open>C7.\<close> At the moment a journal generated from a source (a transaction, a receipt, an order,
  a depreciation period) is posted, it is the only net-live journal of that source: every other
  one had been cancelled, and the posting revives none of them.
\<close>

theorem posting_leaves_one_live_journal:
  assumes "ledger_ok s" and "journal_post E new s = Inr (p, s')"
    and "nj_source_type new \<noteq> JS_Manual" and "nj_source_id new = Some i"
  shows "jn_id (pj_journal p) \<in> set (find_journals_by_source s' (nj_book_id new) (nj_source_type new) i)
    \<and> (\<forall>k \<in> set (find_journals_by_source s' (nj_book_id new) (nj_source_type new) i).
         is_net_reversed s' k = Inr (k \<noteq> jn_id (pj_journal p)))"
proof -
  let ?j = "pj_journal p"
  from assms(2) obtain book where book: "book_get s (nj_book_id new) = Inr book"
    and post: "post_journal_in_tx E book new None s = Inr (p, s')"
    by (auto simp: journal_post_def attempt_eq_Inr)
  from book have bid: "bk_id book = nj_book_id new" by (auto simp: res_simps dest: tab_find_Some)
  from post obtain ls where ls: "postable E book new s ls" and row: "?j = journal_row E book new None s"
    and fresh: "jn_id ?j \<notin> jn_id ` set (db_journals s)" and js: "db_journals s' = db_journals s @ [?j]"
    by (rule post_journal_effect)
  have ok': "journals_ok (db_journals s')"
    using ledger_ok_journal_post [OF assms(1,2)] by (simp add: ledger_ok_def)
  have live: "is_net_reversed s' (jn_id ?j) = Inr False"
    using new_journal_live [OF ok' [unfolded js] js] is_net_reversed_rec [OF ok', of "jn_id ?j"] by simp
  have old: "is_net_reversed s' k = Inr True"
    if "k \<in> set (find_journals_by_source s (nj_book_id new) (nj_source_type new) i)" for k
    using ls that assms(3,4) is_net_reversed_plain [OF ok' js, of k]
    by (simp add: postable_def bid row)
  have "set (find_journals_by_source s' (nj_book_id new) (nj_source_type new) i)
      = insert (jn_id ?j) (set (find_journals_by_source s (nj_book_id new) (nj_source_type new) i))"
  proof -
    have "jn_book_id ?j = nj_book_id new" "jn_source_type ?j = nj_source_type new" "jn_source_id ?j = Some i"
      using assms(4) by (simp_all add: row bid)
    then show ?thesis unfolding set_find_journals_by_source js by (auto simp del: journal_row_fields)
  qed
  moreover have "k \<noteq> jn_id ?j"
    if "k \<in> set (find_journals_by_source s (nj_book_id new) (nj_source_type new) i)" for k
    using fresh that by (auto simp: set_find_journals_by_source image_iff)
  ultimately show ?thesis using live old by auto
qed

definition sample_reposted :: "(posted_journal \<times> db) res" where
  "sample_reposted = journal_post sample_env (sample_journal JS_Transaction (Some ''t1''))
     (db_of sample_reversed)"

lemma sample_reposted_ran: "sample_reposted = Inr (out_of sample_reposted, db_of sample_reposted)"
  by (rule run_witness) code_simp

lemma posting_leaves_one_live_journal_witness:
  "is_net_reversed (db_of sample_reposted) (jn_id (pj_journal (out_of sample_reposted))) = Inr False"
  using posting_leaves_one_live_journal
    [OF sample_ledger_ok(2) sample_reposted_ran [unfolded sample_reposted_def], of "''t1''"]
  by (auto simp: sample_reposted_def sample_journal_def)

lemma reverse_reversal:
  assumes "ledger_ok s" and "find_reversal s j = Some r" and "reverse_journal_in_tx E book r d n s = Inr (p, s')"
  shows "find_reversal s' j = Some r" and "is_net_reversed s j = Inr True" and "is_net_reversed s' j = Inr False"
proof -
  note eff = reversal_effect [OF assms(1,3)]
  have ok: "journals_ok (db_journals s)" and ok': "journals_ok (db_journals s')"
    using assms(1) ledger_ok_reverse [OF assms(1,3)] by (auto simp: ledger_ok_def)
  show found: "find_reversal s' j = Some r" using find_reversal_snoc [OF eff(4), of j] assms(2) by simp
  have "is_net_reversed s r = Inr False" using is_net_reversed_rec [OF ok, of r] eff(1) by simp
  then show "is_net_reversed s j = Inr True" using is_net_reversed_rec [OF ok, of j] assms(2) by simp
  have "is_net_reversed s' (jn_id (pj_journal p)) = Inr False"
    using is_net_reversed_rec [OF ok'] eff(3) by simp
  then have "is_net_reversed s' r = Inr True"
    using is_net_reversed_rec [OF ok', of r] eff(2) by simp
  then show "is_net_reversed s' j = Inr False" using is_net_reversed_rec [OF ok', of j] found by simp
qed

text \<open>
  \<^bold>\<open>C10.\<close> Reversing a reversal makes the original journal live again, without looking at its
  source: a journal posted in the meantime to replace it stays live too. So the rule that a
  source has at most one net-live journal holds when a journal is posted, but not when one is
  reversed.
\<close>

theorem reversing_a_reversal_reinstates:
  assumes "ledger_ok s" and "find_reversal s j = Some r" and "journal_reverse E r d n s = Inr (p, s')"
    and "find_reversal s k = None" and "k \<noteq> r"
  shows "is_net_reversed s j = Inr True \<and> is_net_reversed s k = Inr False
    \<and> is_net_reversed s' j = Inr False \<and> is_net_reversed s' k = Inr False"
proof -
  from assms(3) obtain g book where rev: "reverse_journal_in_tx E book r d n s = Inr (p, s')"
    by (rule journal_reverse_in_tx)
  note eff = reversal_effect [OF assms(1) rev]
  have ok: "journals_ok (db_journals s)" and ok': "journals_ok (db_journals s')"
    using assms(1) ledger_ok_reverse [OF assms(1) rev] by (auto simp: ledger_ok_def)
  have "find_reversal s' k = None" using find_reversal_snoc [OF eff(4), of k] assms(4,5) eff(7) by simp
  then show ?thesis
    using reverse_reversal [OF assms(1,2) rev] is_net_reversed_rec [OF ok, of k]
      is_net_reversed_rec [OF ok', of k] assms(4) by simp
qed

definition sample_reinstated :: "(posted_journal \<times> db) res" where
  "sample_reinstated = journal_reverse sample_env (jn_id (pj_journal (out_of sample_reversed))) None None
     (db_of sample_reposted)"

lemma sample_reinstated_ran: "sample_reinstated = Inr (out_of sample_reinstated, db_of sample_reinstated)"
  by (rule run_witness) code_simp

text \<open>Both journals of the source \<open>t1\<close> are live in the end.\<close>

lemma reversing_a_reversal_reinstates_witness:
  "is_net_reversed (db_of sample_reinstated) (jn_id (pj_journal (out_of sample_posted))) = Inr False
   \<and> is_net_reversed (db_of sample_reinstated) (jn_id (pj_journal (out_of sample_reposted))) = Inr False
   \<and> jn_source_id (pj_journal (out_of sample_posted)) = jn_source_id (pj_journal (out_of sample_reposted))"
proof -
  let ?posted = "pj_journal (out_of sample_posted)" and ?new = "pj_journal (out_of sample_reposted)"
  let ?reversed = "pj_journal (out_of sample_reversed)"
  have ok: "ledger_ok (db_of sample_reposted)"
    by (rule ledger_ok_journal_post [OF sample_ledger_ok(2) sample_reposted_ran [unfolded sample_reposted_def],
          folded sample_reposted_def])
  obtain g book where r: "reverse_journal_in_tx sample_env book (jn_id ?posted) None None
      (db_of sample_posted) = Inr (out_of sample_reversed, db_of sample_reversed)"
    using sample_reversed_ran unfolding sample_reversed_def by (rule journal_reverse_in_tx)
  note eff = reversal_effect [OF sample_ledger_ok(1) r]
  obtain book1 where new: "?new = journal_row sample_env book1 (sample_journal JS_Transaction (Some ''t1''))
        None (db_of sample_reversed)"
    and fresh: "jn_id ?new \<notin> jn_id ` set (db_journals (db_of sample_reversed))"
    and js: "db_journals (db_of sample_reposted) = db_journals (db_of sample_reversed) @ [?new]"
    using sample_reposted_ran unfolding sample_reposted_def by (rule journal_post_row)
  obtain book2 where posted: "?posted = journal_row sample_env book2
      (sample_journal JS_Transaction (Some ''t1'')) None sample_db"
    using sample_posted_ran unfolding sample_posted_def by (rule journal_post_row)
  have "find_reversal (db_of sample_reposted) (jn_id ?posted) = Some (jn_id ?reversed)"
    using find_reversal_snoc [OF js, of "jn_id ?posted"] eff(2) by simp
  moreover have "find_reversal (db_of sample_reposted) (jn_id ?new) = None"
    using ok by (intro new_journal_live [OF _ js]) (simp add: ledger_ok_def flip: js)
  moreover have "jn_id ?new \<noteq> jn_id ?reversed" using fresh eff(4) by auto
  moreover have "jn_source_id ?posted = jn_source_id ?new" by (simp add: posted new sample_journal_def)
  ultimately show ?thesis
    using reversing_a_reversal_reinstates [OF ok _ sample_reinstated_ran [unfolded sample_reinstated_def],
        of "jn_id ?posted" "jn_id ?new", folded sample_reinstated_def] by blast
qed

end
