(* ===== verification/Period_Close.thy ===== *)
theory Period_Close
  imports Ledger_Laws
begin

text \<open>
  Closing a period: \<^verbatim>\<open>repo/close.rs\<close> and \<^verbatim>\<open>book_set_lock_date\<close>, \<^verbatim>\<open>close_period_check\<close>,
  \<^verbatim>\<open>close_period\<close>, \<^verbatim>\<open>reopen_period\<close> of \<^verbatim>\<open>service.rs\<close>. A book that is never edited outside these
  operations always passes the balance check, and a closed period's trial balance is fixed.
\<close>

section \<open>Queries\<close>

text \<open>
  The join with \<^verbatim>\<open>journals\<close> finds one row per line, because journal ids are unique. Rows are
  grouped by currency, in ascending order.
\<close>

definition lines_up_to :: "db \<Rightarrow> string \<Rightarrow> string \<Rightarrow> journal_line list" where
  "lines_up_to s book_id as_of =
     filter (\<lambda>l. jl_book_id l = book_id
        \<and> list_ex (\<lambda>j. jn_id j = jl_journal_id l \<and> jn_posted_date j \<le> as_of) (db_journals s)) (db_lines s)"

definition balance_as_of :: "db \<Rightarrow> string \<Rightarrow> string \<Rightarrow> close_period_currency_balance list res" where
  "balance_as_of s book_id as_of =
     (let ls = lines_up_to s book_id as_of
      in map_res (\<lambda>c.
           attempt (sql_sum (map jl_debit_minor (filter (\<lambda>l. jl_currency l = c) ls))) (\<lambda>debit.
           attempt (sql_sum (map jl_credit_minor (filter (\<lambda>l. jl_currency l = c) ls))) (\<lambda>credit.
             Inr \<lparr>cb_currency = c, cb_debit_minor = debit, cb_credit_minor = credit\<rparr>)))
         (sort (remdups (map jl_currency ls))))"

definition within :: "string \<Rightarrow> string \<Rightarrow> string \<Rightarrow> bool" where
  "within from_date to_date d \<longleftrightarrow> from_date \<le> d \<and> d \<le> to_date"

definition uncategorised_count :: "db \<Rightarrow> string \<Rightarrow> string \<Rightarrow> string \<Rightarrow> int" where
  "uncategorised_count s book_id from_date to_date =
     int (length (filter (\<lambda>t. tx_book_id t = book_id \<and> tx_category_id t = None
        \<and> tx_status t \<noteq> TX_Rejected \<and> within from_date to_date (tx_posted_date t)) (db_txns s)))"

definition unreconciled_count :: "db \<Rightarrow> string \<Rightarrow> string \<Rightarrow> string \<Rightarrow> int" where
  "unreconciled_count s book_id from_date to_date =
     int (length (filter (\<lambda>t. tx_book_id t = book_id \<and> tx_status t \<noteq> TX_Rejected
        \<and> within from_date to_date (tx_posted_date t)
        \<and> \<not> list_ex (\<lambda>m. rm_transaction_id m = tx_id t
              \<and> (rm_state m = RS_Auto \<or> rm_state m = RS_Confirmed)) (db_recon s)) (db_txns s)))"

definition draft_sales_order_count :: "db \<Rightarrow> string \<Rightarrow> string \<Rightarrow> string \<Rightarrow> int" where
  "draft_sales_order_count s book_id from_date to_date =
     int (length (filter (\<lambda>r. so_book_id r = book_id \<and> so_status r = SO_Draft
        \<and> within from_date to_date (so_order_date r)) (db_orders s)))"

definition unpaid_invoice_due_count :: "db \<Rightarrow> string \<Rightarrow> string \<Rightarrow> string \<Rightarrow> int" where
  "unpaid_invoice_due_count s book_id from_date to_date =
     int (length (filter (\<lambda>i. iv_book_id i = book_id \<and> within from_date to_date (iv_due_date i)
        \<and> \<not> list_ex (\<lambda>p. ip_invoice_id p = iv_id i) (db_payments s)) (db_invoices s)))"

section \<open>Operations\<close>

definition book_set_lock_date :: "env \<Rightarrow> string \<Rightarrow> string option \<Rightarrow> db \<Rightarrow> (book \<times> db) res" where
  "book_set_lock_date E book_id lock_date s =
     attempt (book_get s book_id) (\<lambda>before.
     attempt (case lock_date of None \<Rightarrow> Inr ()
                | Some date \<Rightarrow> attempt (parse_date (e_time E) date) (\<lambda>_. Inr ())) (\<lambda>_.
       let (now, s1) = now_iso E s;
           s2 = set_lock_date book_id lock_date now s1;
           after = before\<lparr>bk_financial_lock_date := lock_date, bk_updated_at := now\<rparr>
       in attempt (emit_audit E (Some book_id) ''book'' (Some book_id) ''lock_date''
            (Some (Snap_book before)) (Some (Snap_book after)) s2) (\<lambda>s3. Inr (after, s3))))"

fun join_with :: "string \<Rightarrow> string list \<Rightarrow> string" where
  "join_with sep [] = []"
| "join_with sep [x] = x"
| "join_with sep (x # xs) = x @ sep @ join_with sep xs"

definition is_balanced :: "close_period_currency_balance list \<Rightarrow> bool" where
  "is_balanced balance \<longleftrightarrow> list_all (\<lambda>b. cb_debit_minor b = cb_credit_minor b) balance"

definition imbalance_detail :: "close_period_currency_balance list \<Rightarrow> string" where
  "imbalance_detail balance =
     join_with '', '' (map (\<lambda>b. cb_currency b @ '' debit '' @ show_int (cb_debit_minor b)
         @ '' != credit '' @ show_int (cb_credit_minor b))
       (filter (\<lambda>b. cb_debit_minor b \<noteq> cb_credit_minor b) balance))"

definition close_blocks ::
    "string option \<Rightarrow> string \<Rightarrow> close_period_currency_balance list \<Rightarrow> string list" where
  "close_blocks previous_lock_date to_date balance =
     (case previous_lock_date of
        None \<Rightarrow> []
      | Some prev \<Rightarrow>
          if to_date \<le> prev
          then [''book is already closed through '' @ prev @ ''; reopen the period first to move ''
                @ ''the close date backward, or close through a later date'']
          else [])
     @ (if is_balanced balance then []
        else [''trial balance does not balance as of '' @ to_date @ '': '' @ imbalance_detail balance])"

definition close_warnings :: "int \<Rightarrow> int \<Rightarrow> int \<Rightarrow> int \<Rightarrow> string list" where
  "close_warnings uncategorised unreconciled drafts unpaid =
     (if 0 < uncategorised
      then [show_int uncategorised @ '' uncategorised transaction(s) in this period''] else [])
     @ (if 0 < unreconciled
        then [show_int unreconciled @ '' unreconciled statement line(s) in this period''] else [])
     @ (if 0 < drafts then [show_int drafts @ '' draft sales order(s) dated in this period''] else [])
     @ (if 0 < unpaid
        then [show_int unpaid @ '' invoice(s) due in this period with no payment ''
              @ ''recorded against them''] else [])"

definition build_close_report :: "env \<Rightarrow> db \<Rightarrow> string \<Rightarrow> string \<Rightarrow> close_period_report res" where
  "build_close_report E s book_id to_date =
     attempt (book_get s book_id) (\<lambda>book.
     attempt (parse_date (e_time E) to_date) (\<lambda>_.
       let previous_lock_date = bk_financial_lock_date book in
     attempt (case previous_lock_date of
                None \<Rightarrow> Inr ''0001-01-01''
              | Some prev \<Rightarrow> if prev < to_date then day_after (e_time E) prev else Inr to_date) (\<lambda>from_date.
     attempt (balance_as_of s book_id to_date) (\<lambda>balance.
       let uncategorised = uncategorised_count s book_id from_date to_date;
           unreconciled = unreconciled_count s book_id from_date to_date;
           drafts = draft_sales_order_count s book_id from_date to_date;
           unpaid = unpaid_invoice_due_count s book_id from_date to_date;
           blocking_reasons = close_blocks previous_lock_date to_date balance
       in Inr \<lparr>cr_book_id = book_id, cr_to_date = to_date, cr_previous_lock_date = previous_lock_date,
            cr_balance = balance, cr_balanced = is_balanced balance,
            cr_uncategorised_transaction_count = uncategorised,
            cr_unreconciled_statement_line_count = unreconciled,
            cr_draft_sales_order_count = drafts, cr_unpaid_invoice_due_count = unpaid,
            cr_blocking_reasons = blocking_reasons,
            cr_warnings = close_warnings uncategorised unreconciled drafts unpaid,
            cr_closeable = (blocking_reasons = []), cr_closed = False\<rparr>))))"

definition close_period_check :: "env \<Rightarrow> db \<Rightarrow> string \<Rightarrow> string \<Rightarrow> close_period_report res" where
  "close_period_check E s book_id to_date = build_close_report E s book_id to_date"

definition close_period :: "env \<Rightarrow> string \<Rightarrow> string \<Rightarrow> db \<Rightarrow> (close_period_report \<times> db) res" where
  "close_period E book_id to_date s =
     attempt (build_close_report E s book_id to_date) (\<lambda>report.
       if \<not> cr_closeable report then Inl (CloseBlocked (cr_blocking_reasons report))
       else attempt (book_get s book_id) (\<lambda>before.
         let (now, s1) = now_iso E s;
             s2 = set_lock_date book_id (Some to_date) now s1;
             closed_report = report\<lparr>cr_closed := True\<rparr>
         in attempt (emit_audit E (Some book_id) ''book'' (Some book_id) ''close''
              (Some (Snap_book before)) (Some (Snap_close closed_report)) s2)
              (\<lambda>s3. Inr (closed_report, s3))))"

definition reopen_period :: "env \<Rightarrow> string \<Rightarrow> string option \<Rightarrow> string \<Rightarrow> db \<Rightarrow> (book \<times> db) res" where
  "reopen_period E book_id to_date reason s =
     attempt (book_get s book_id) (\<lambda>before.
       case bk_financial_lock_date before of
         None \<Rightarrow> Inl NotClosed
       | Some current_lock \<Rightarrow>
           if trim reason = [] then Inl (Validation ''reopening a closed period needs a reason'')
           else attempt (case to_date of
               None \<Rightarrow> Inr ()
             | Some date \<Rightarrow> attempt (parse_date (e_time E) date) (\<lambda>_.
                 if current_lock \<le> date
                 then Inl (Validation (''reopening to '' @ date
                         @ '' does not move the lock date backward from '' @ current_lock))
                 else Inr ())) (\<lambda>_.
             let (now, s1) = now_iso E s;
                 s2 = set_lock_date book_id to_date now s1;
                 after = before\<lparr>bk_financial_lock_date := to_date, bk_updated_at := now\<rparr>
             in attempt (emit_audit E (Some book_id) ''book'' (Some book_id) ''reopen''
                  (Some (Snap_book before)) (Some (Snap_reopen after reason)) s2)
                  (\<lambda>s3. Inr (after, s3))))"

section \<open>The trial balance\<close>

lemma lines_up_to_post:
  assumes post: "post_journal_in_tx E book new ro s = Inr (p, s')" and ok: "ledger_ok s"
    and away: "bk_id book \<noteq> b \<or> d < nj_posted_date new"
  shows "lines_up_to s' b d = lines_up_to s b d"
proof -
  let ?j = "pj_journal p"
  from post obtain ls where row: "?j = journal_row E book new ro s"
    and fresh: "jn_id ?j \<notin> jn_id ` set (db_journals s)"
    and js: "db_journals s' = db_journals s @ [?j]" and ln: "db_lines s' = db_lines s @ pj_lines p"
    by (rule post_journal_effect)
  have old: "jl_journal_id l \<noteq> jn_id ?j" if "l \<in> set (db_lines s)" for l
    using ledger_ok_line_ref [OF ok that] fresh by (metis imageI)
  have "filter (\<lambda>l. jl_book_id l = b \<and> list_ex (\<lambda>j. jn_id j = jl_journal_id l \<and> jn_posted_date j \<le> d)
      (db_journals s @ [?j])) (pj_lines p) = []"
    using posted_lines_ok(4) [OF post] fresh away
    by (auto simp: filter_empty_conv list_ex_iff row image_iff)
  moreover have "filter (\<lambda>l. jl_book_id l = b \<and> list_ex (\<lambda>j. jn_id j = jl_journal_id l \<and> jn_posted_date j \<le> d)
      (db_journals s @ [?j])) (db_lines s) = lines_up_to s b d"
    unfolding lines_up_to_def using not_sym [OF old] by (intro filter_cong) auto
  ultimately show ?thesis by (simp add: lines_up_to_def js ln)
qed

lemma balance_as_of_cong: "lines_up_to s' b d = lines_up_to s b d \<Longrightarrow> balance_as_of s' b d = balance_as_of s b d"
  by (simp add: balance_as_of_def)

lemma lines_up_to_balanced:
  assumes "ledger_ok s"
  shows "balanced (lines_up_to s b d)"
proof -
  let ?in = "\<lambda>j. jn_book_id j = b \<and> jn_posted_date j \<le> d"
  have js: "distinct (map jn_id (db_journals s))" using assms by (simp add: ledger_ok_def journals_ok_distinct)
  have refs: "\<exists>j \<in> set (db_journals s). jn_id j = jl_journal_id l \<and> jn_book_id j = jl_book_id l"
    if "l \<in> set (db_lines s)" for l
    using ledger_ok_line_ref [OF assms that] .
  have same: "j = k" if "j \<in> set (db_journals s)" "k \<in> set (db_journals s)" "jn_id j = jn_id k" for j k
    using js that by (auto simp: distinct_map dest: inj_onD)
  have mem: "(l \<in> set (lines_up_to s b d)) = (l \<in> set (db_lines s) \<and>
      (\<exists>j \<in> set (db_journals s). jn_id j = jl_journal_id l \<and> ?in j))" for l
    using refs same by (fastforce simp: lines_up_to_def list_ex_iff)
  have part: "filter (\<lambda>l. jl_journal_id l = jn_id j) (lines_up_to s b d)
      = (if ?in j then lines_of s (jn_id j) else [])" if j: "j \<in> set (db_journals s)" for j
  proof -
    have "(jl_book_id l = b \<and> list_ex (\<lambda>j. jn_id j = jl_journal_id l \<and> jn_posted_date j \<le> d) (db_journals s))
        = ?in j" if "l \<in> set (db_lines s)" "jl_journal_id l = jn_id j" for l
    proof -
      from refs [OF that(1)] obtain k where "k \<in> set (db_journals s)" "jn_id k = jl_journal_id l"
        and book: "jn_book_id k = jl_book_id l" by blast
      with same [of k j] j that(2) have "k = j" by simp
      with book have "jl_book_id l = jn_book_id j" by simp
      moreover have "list_ex (\<lambda>j. jn_id j = jl_journal_id l \<and> jn_posted_date j \<le> d) (db_journals s)
          = (jn_posted_date j \<le> d)"
        using same [of _ j] j that(2) by (auto simp: list_ex_iff)
      ultimately show ?thesis by simp
    qed
    then have "filter (\<lambda>l. jl_journal_id l = jn_id j) (lines_up_to s b d)
        = filter (\<lambda>l. jl_journal_id l = jn_id j \<and> ?in j) (db_lines s)"
      unfolding lines_up_to_def filter_filter by (intro filter_cong) blast+
    then show ?thesis by (simp add: lines_of_def)
  qed
  have bal: "debits_in c (lines_of s (jn_id j)) = credits_in c (lines_of s (jn_id j))"
    if "j \<in> set (db_journals s)" for c j
    using assms that by (auto simp: ledger_ok_def list_all_iff balanced_iff)
  have ids: "\<forall>l \<in> set (lines_up_to s b d). jl_journal_id l \<in> jn_id ` set (db_journals s)"
    by (metis mem imageI)
  have split: "sum_list (map f (filter (\<lambda>l. jl_currency l = c) (lines_up_to s b d)))
      = sum_list (map (\<lambda>j. sum_list (map f (filter (\<lambda>l. jl_currency l = c)
            (filter (\<lambda>l. jl_journal_id l = jn_id j) (lines_up_to s b d))))) (db_journals s))"
    for f :: "journal_line \<Rightarrow> int" and c
    using sum_by_journal [OF js, of "filter (\<lambda>l. jl_currency l = c) (lines_up_to s b d)" f] ids
    by (simp add: conj_commute)
  have each: "sum_list (map jl_debit_minor (filter (\<lambda>l. jl_currency l = c)
        (filter (\<lambda>l. jl_journal_id l = jn_id j) (lines_up_to s b d))))
      = sum_list (map jl_credit_minor (filter (\<lambda>l. jl_currency l = c)
        (filter (\<lambda>l. jl_journal_id l = jn_id j) (lines_up_to s b d))))"
    if "j \<in> set (db_journals s)" for j c
    using bal [OF that] part [OF that] by (simp add: debits_in_def credits_in_def)
  show ?thesis
    unfolding balanced_iff debits_in_def credits_in_def split
    by (intro allI arg_cong [where f = sum_list] map_cong refl each)
qed

lemma balance_as_of_row:
  assumes "balance_as_of s b d = Inr bs" and "x \<in> set bs"
  shows "cb_debit_minor x = debits_in (cb_currency x) (lines_up_to s b d)
    \<and> cb_credit_minor x = credits_in (cb_currency x) (lines_up_to s b d)"
proof -
  from map_res_in [OF assms [unfolded balance_as_of_def Let_def]] obtain c where
    "sql_sum (map jl_debit_minor (filter (\<lambda>l. jl_currency l = c) (lines_up_to s b d))) = Inr (cb_debit_minor x)"
    "sql_sum (map jl_credit_minor (filter (\<lambda>l. jl_currency l = c) (lines_up_to s b d))) = Inr (cb_credit_minor x)"
    "cb_currency x = c"
    by (auto simp: attempt_eq_Inr)
  then show ?thesis by (auto simp: debits_in_def credits_in_def dest!: sql_sum_Inr)
qed

lemma ledger_ok_is_balanced: "ledger_ok s \<Longrightarrow> balance_as_of s b d = Inr bs \<Longrightarrow> is_balanced bs"
  using balance_as_of_row lines_up_to_balanced by (fastforce simp: is_balanced_def list_all_iff balanced_iff)

section \<open>The lock date\<close>

lemma book_get_set_lock_date:
  assumes "book_get s b = Inr book"
  shows "book_get (set_lock_date b lock now s) b
    = Inr (book\<lparr>bk_financial_lock_date := lock, bk_updated_at := now\<rparr>)"
proof -
  from assms have "tab_find bk_id b (db_books s) = Some book" and "bk_id book = b"
    by (auto simp: res_simps dest: tab_find_Some)
  then show ?thesis
    by (simp add: book_get_Inr set_lock_date_def tab_find_map_key)
qed

text \<open>Two stores that differ in the books and the audit log only.\<close>

definition same_but_books :: "db \<Rightarrow> db \<Rightarrow> bool" where
  "same_but_books s s' \<longleftrightarrow>
     s'\<lparr>db_books := [], db_audit := [], db_draws := 0\<rparr> = s\<lparr>db_books := [], db_audit := [], db_draws := 0\<rparr>"

lemma same_but_books_tables:
  assumes "same_but_books s s'"
  shows "db_journals s' = db_journals s" and "db_lines s' = db_lines s" and "db_coa s' = db_coa s"
    and "db_movements s' = db_movements s" and "db_orders s' = db_orders s" and "db_txns s' = db_txns s"
  using assms by (cases s; cases s'; simp add: same_but_books_def)+

lemma relock_Inr:
  assumes "emit_audit E x1 x2 x3 x4 x5 x6 (set_lock_date b lock now (s\<lparr>db_draws := n\<rparr>)) = Inr s'"
  shows "same_but_books s s'" and "book_get s' = book_get (set_lock_date b lock now s)"
    and "map bk_id (db_books s') = map bk_id (db_books s)"
  using assms by (auto elim!: emit_audit_Inr simp: same_but_books_def set_lock_date_def book_get_def
      fun_eq_iff image_image)

lemma close_report_Inr:
  assumes "build_close_report E s b d = Inr r"
  obtains book balance where "book_get s b = Inr book" and "balance_as_of s b d = Inr balance"
    and "cr_balance r = balance" and "cr_balanced r = is_balanced balance"
    and "cr_blocking_reasons r = close_blocks (bk_financial_lock_date book) d balance"
    and "cr_closeable r \<longleftrightarrow> cr_blocking_reasons r = []" and "cr_closed r = False"
    and "cr_previous_lock_date r = bk_financial_lock_date book" and "cr_to_date r = d"
    and "tl_parse (e_time E) d \<noteq> None"
  using assms by (auto simp: build_close_report_def attempt_eq_Inr Let_def parse_date_Inr)

lemma close_period_Inr:
  assumes "close_period E b d s = Inr (r, s')"
  obtains r0 now n where "build_close_report E s b d = Inr r0" and "cr_closeable r0"
    and "r = r0\<lparr>cr_closed := True\<rparr>" and "same_but_books s s'"
    and "book_get s' = book_get (set_lock_date b (Some d) now s)"
proof -
  from assms obtain r0 before where "build_close_report E s b d = Inr r0" "cr_closeable r0"
    "r = r0\<lparr>cr_closed := True\<rparr>"
    and a: "emit_audit E (Some b) ''book'' (Some b) ''close'' (Some (Snap_book before)) (Some (Snap_close r))
      (set_lock_date b (Some d) (e_now E (db_draws s)) (s\<lparr>db_draws := Suc (db_draws s)\<rparr>)) = Inr s'"
    by (auto simp: close_period_def attempt_eq_Inr guard_eq_Inr Let_def)
  then show thesis using that relock_Inr [OF a] by blast
qed

lemma reopen_period_Inr:
  assumes "reopen_period E b to_date reason s = Inr (book', s')"
  obtains book lock now where "book_get s b = Inr book" and "bk_financial_lock_date book = Some lock"
    and "\<forall>t. to_date = Some t \<longrightarrow> t < lock" and "trim reason \<noteq> []"
    and "book' = book\<lparr>bk_financial_lock_date := to_date, bk_updated_at := now\<rparr>"
    and "same_but_books s s'" and "book_get s' = book_get (set_lock_date b to_date now s)"
proof -
  from assms obtain book where book: "book_get s b = Inr book"
    by (auto simp: reopen_period_def attempt_eq_Inr)
  from assms book obtain lock where l: "bk_financial_lock_date book = Some lock"
    by (cases "bk_financial_lock_date book") (auto simp: reopen_period_def)
  from assms book l obtain now where lock: "\<forall>t. to_date = Some t \<longrightarrow> t < lock"
    and reason: "trim reason \<noteq> []"
    and b': "book' = book\<lparr>bk_financial_lock_date := to_date, bk_updated_at := now\<rparr>"
    and a: "emit_audit E (Some b) ''book'' (Some b) ''reopen'' (Some (Snap_book book))
      (Some (Snap_reopen book' reason))
      (set_lock_date b to_date now (s\<lparr>db_draws := Suc (db_draws s)\<rparr>)) = Inr s'"
    by (cases to_date) (auto simp: reopen_period_def attempt_eq_Inr guard_eq_Inr Let_def)
  show thesis using that [OF book l lock reason b'] relock_Inr [OF a] by blast
qed

text \<open>A posting into a book is refused on or before the book's lock date.\<close>

lemma locked_refuses:
  assumes "book_get s (nj_book_id new) = Inr book" and "\<not> open_on book (nj_posted_date new)"
  shows "\<exists>e. journal_post E new s = Inl e"
proof (cases "journal_post E new s")
  case (Inr r)
  then obtain p s' where "post_journal_in_tx E book new None s = Inr (p, s')"
    using assms(1) by (cases r) (auto simp: journal_post_def)
  then show ?thesis by (rule post_journal_effect) (use assms(2) postable_open in blast)
qed auto

section \<open>Correctness of closing and reopening\<close>

text \<open>
  On a ledger that was only written by the posting path, the trial balance of a close
  always balances, so the only thing that can block a close is that the book is already closed
  through the date asked for.
\<close>

theorem close_blocked_only_when_closed:
  assumes "ledger_ok s" and "close_period_check E s b d = Inr r"
  shows "cr_balanced r
    \<and> (cr_closeable r \<longleftrightarrow> (case cr_previous_lock_date r of None \<Rightarrow> True | Some prev \<Rightarrow> prev < d))"
proof (rule close_report_Inr [OF assms(2) [unfolded close_period_check_def]])
  fix book balance
  assume bal: "balance_as_of s b d = Inr balance"
    and "cr_balanced r = is_balanced balance"
    and "cr_blocking_reasons r = close_blocks (bk_financial_lock_date book) d balance"
    and "cr_closeable r \<longleftrightarrow> cr_blocking_reasons r = []"
    and "cr_previous_lock_date r = bk_financial_lock_date book"
  with ledger_ok_is_balanced [OF assms(1) bal] show ?thesis
    by (auto simp: close_blocks_def split: option.splits)
qed

lemma close_blocked_only_when_closed_witness:
  "\<exists>r. close_period_check sample_env (db_of sample_posted) ''b'' ''2026-02-28'' = Inr r \<and> cr_balanced r"
proof -
  have "ran (close_period_check sample_env (db_of sample_posted) ''b'' ''2026-02-28'') \<noteq> None"
    by code_simp
  then obtain r where r: "close_period_check sample_env (db_of sample_posted) ''b'' ''2026-02-28'' = Inr r"
    by (cases "close_period_check sample_env (db_of sample_posted) ''b'' ''2026-02-28''") auto
  with close_blocked_only_when_closed [OF sample_ledger_ok(1) r] show ?thesis by blast
qed

subsection \<open>A closed period under the operations that follow\<close>

definition shut :: "db \<Rightarrow> string \<Rightarrow> string \<Rightarrow> bool" where
  "shut s b d \<longleftrightarrow> (\<exists>book lock. book_get s b = Inr book \<and> bk_financial_lock_date book = Some lock \<and> d \<le> lock)"

text \<open>
  What may happen to the store after book \<^verbatim>\<open>b\<close> was closed through \<^verbatim>\<open>d\<close>: journals are posted and
  reversed in any book as it is stored, periods are closed, lock dates are set and periods are
  reopened, only not so that the lock of \<^verbatim>\<open>b\<close> falls below \<^verbatim>\<open>d\<close>; everything else leaves the ledger and
  the books alone.
\<close>

inductive closed_step :: "string \<Rightarrow> string \<Rightarrow> db \<Rightarrow> db \<Rightarrow> bool" for b d where
  Posting: "book_get s i = Inr book \<Longrightarrow> post_journal_in_tx E book new None s = Inr (p, s')
    \<Longrightarrow> closed_step b d s s'"
| Reversing: "book_get s i = Inr book \<Longrightarrow> reverse_journal_in_tx E book k on n s = Inr (p, s')
    \<Longrightarrow> closed_step b d s s'"
| Closing: "close_period E i d' s = Inr (r, s') \<Longrightarrow> closed_step b d s s'"
| Locking: "book_set_lock_date E i lock s = Inr (book, s')
    \<Longrightarrow> (i = b \<Longrightarrow> case lock of None \<Rightarrow> False | Some l \<Rightarrow> d \<le> l) \<Longrightarrow> closed_step b d s s'"
| Reopening: "reopen_period E i lock why s = Inr (book, s')
    \<Longrightarrow> (i = b \<Longrightarrow> case lock of None \<Rightarrow> False | Some l \<Rightarrow> d \<le> l) \<Longrightarrow> closed_step b d s s'"
| Aside: "db_journals s' = db_journals s \<Longrightarrow> db_lines s' = db_lines s \<Longrightarrow> db_books s' = db_books s
    \<Longrightarrow> closed_step b d s s'"

definition keeps_shut :: "string \<Rightarrow> string \<Rightarrow> db \<Rightarrow> db \<Rightarrow> bool" where
  "keeps_shut b d s s' \<longleftrightarrow> ledger_ok s' \<and> shut s' b d \<and> (\<forall>d' \<le> d. lines_up_to s' b d' = lines_up_to s b d')"

lemma shut_books: "db_books s' = db_books s \<Longrightarrow> shut s' b d = shut s b d"
  by (simp add: shut_def book_get_def)

lemma keeps_shut_post:
  assumes "ledger_ok s" and "shut s b d" and "book_get s i = Inr book"
    and post: "post_journal_in_tx E book new ro s = Inr (p, s')" and "ledger_ok s'"
  shows "keeps_shut b d s s'"
proof -
  from post obtain ls where "postable E book new s ls" and same: "same_but_ledger s s'"
    by (rule post_journal_effect)
  then have "open_on book (nj_posted_date new)" by (blast dest: postable_open)
  moreover have "bk_id book = i" using assms(3) by (auto simp: book_get_Inr dest: tab_find_Some)
  moreover obtain bk lock where "book_get s b = Inr bk" and lock: "bk_financial_lock_date bk = Some lock" "d \<le> lock"
    using assms(2) unfolding shut_def by blast
  ultimately have "lock < nj_posted_date new" if "bk_id book = b" using assms(3) that by (simp add: open_on_def)
  with lock(2) have "d < nj_posted_date new" if "bk_id book = b" using that by (metis order.strict_trans1)
  then have "bk_id book \<noteq> b \<or> d' < nj_posted_date new" if "d' \<le> d" for d'
    using that by (metis order.strict_trans1)
  then have "lines_up_to s' b d' = lines_up_to s b d'" if "d' \<le> d" for d'
    using that by (intro lines_up_to_post [OF post assms(1)])
  moreover have "shut s' b d" using assms(2) shut_books [OF same_but_ledger_tables(1) [OF same]] by blast
  ultimately show ?thesis using assms(5) by (simp add: keeps_shut_def)
qed

lemma lines_up_to_cong:
  "db_journals s' = db_journals s \<Longrightarrow> db_lines s' = db_lines s \<Longrightarrow> lines_up_to s' b d = lines_up_to s b d"
  by (simp add: lines_up_to_def)

lemma keeps_shut_relock:
  assumes "ledger_ok s" and "shut s b d" and "same_but_books s s'" and "book_get s i = Inr book"
    and books: "book_get s' = book_get (set_lock_date i lock now s)"
    and up: "i = b \<Longrightarrow> case lock of None \<Rightarrow> False | Some l \<Rightarrow> d \<le> l"
  shows "keeps_shut b d s s'"
proof -
  have "shut s' b d"
  proof (cases "i = b")
    case True
    with up obtain l where "lock = Some l" "d \<le> l" by (cases lock) auto
    then show ?thesis
      using assms(4) book_get_set_lock_date [of s i book lock now] by (auto simp: shut_def books True)
  next
    case False
    from assms(2) obtain bk l where bk: "book_get s b = Inr bk" "bk_financial_lock_date bk = Some l" "d \<le> l"
      unfolding shut_def by blast
    from bk(1) have "tab_find bk_id b (db_books s) = Some bk" and "bk_id bk = b"
      by (auto simp: book_get_Inr dest: tab_find_Some)
    with False have "book_get s' b = Inr bk"
      by (simp add: books book_get_Inr set_lock_date_def tab_find_map_key)
    with bk(2,3) show ?thesis unfolding shut_def by blast
  qed
  then show ?thesis
    using assms(1) ledger_ok_cong [OF same_but_books_tables(1,2) [OF assms(3)]]
      lines_up_to_cong [OF same_but_books_tables(1,2) [OF assms(3)]]
    by (simp add: keeps_shut_def)
qed

lemma closed_step_keeps:
  assumes "closed_step b d s s'" and ok: "ledger_ok s" and shut: "shut s b d"
  shows "keeps_shut b d s s'"
  using assms(1)
proof cases
  case (Posting i book E new p)
  show ?thesis
    using ok shut Posting by (rule keeps_shut_post) (rule ledger_ok_post [OF Posting(2) _ ok], simp)
next
  case (Reversing i book E k on n p)
  from Reversing(2) obtain new where "post_journal_in_tx E book new (Some k) s = Inr (p, s')"
    by (auto simp: reverse_journal_in_tx_def attempt_eq_Inr Let_def split: option.splits)
  with ok shut Reversing(1) show ?thesis by (rule keeps_shut_post) (rule ledger_ok_reverse [OF ok Reversing(2)])
next
  case (Closing E i d' r)
  obtain r0 now where r0: "build_close_report E s i d' = Inr r0" "cr_closeable r0"
    and same: "same_but_books s s'" and books: "book_get s' = book_get (set_lock_date i (Some d') now s)"
    using Closing by (rule close_period_Inr)
  from r0(1) obtain book bal where book: "book_get s i = Inr book"
    and "cr_blocking_reasons r0 = close_blocks (bk_financial_lock_date book) d' bal"
    and "cr_closeable r0 \<longleftrightarrow> cr_blocking_reasons r0 = []" by (rule close_report_Inr)
  with r0(2) have "prev < d'" if "bk_financial_lock_date book = Some prev" for prev
    using that by (auto simp: close_blocks_def split: if_splits)
  moreover obtain bk lock where bk: "book_get s b = Inr bk" "bk_financial_lock_date bk = Some lock" "d \<le> lock"
    using shut unfolding shut_def by blast
  ultimately have "lock < d'" if "i = b" using book that by simp
  with bk(3) have "i = b \<Longrightarrow> d \<le> d'" by (metis order.strict_trans1 order.strict_implies_order)
  then show ?thesis by (intro keeps_shut_relock [OF ok shut same book books]) simp
next
  case (Locking E i lock book')
  then obtain book x where book: "book_get s i = Inr book"
    and "emit_audit E (Some i) ''book'' (Some i) ''lock_date'' (Some (Snap_book book)) x
      (set_lock_date i lock (e_now E (db_draws s)) (s\<lparr>db_draws := Suc (db_draws s)\<rparr>)) = Inr s'"
    by (auto simp: book_set_lock_date_def attempt_eq_Inr Let_def)
  then show ?thesis by (intro keeps_shut_relock [OF ok shut _ book _ Locking(2)] relock_Inr)
next
  case (Reopening E i lock why book')
  from Reopening(1) obtain book now where "book_get s i = Inr book" and "same_but_books s s'"
    and "book_get s' = book_get (set_lock_date i lock now s)" by (rule reopen_period_Inr)
  then show ?thesis by (intro keeps_shut_relock [OF ok shut]) (use Reopening(2) in auto)
next
  case Aside
  then show ?thesis
    using ok shut lines_up_to_cong [of s' s] ledger_ok_cong [of s' s] shut_books [of s' s]
    by (simp add: keeps_shut_def)
qed

lemma closed_steps_keep:
  assumes "(closed_step b d)\<^sup>*\<^sup>* s s'" and "ledger_ok s" and "shut s b d"
  shows "keeps_shut b d s s'"
  using assms
proof (induction rule: rtranclp_induct)
  case base
  then show ?case by (simp add: keeps_shut_def)
next
  case (step y z)
  then have "keeps_shut b d s y" by blast
  with closed_step_keeps [OF step(2)] show ?case by (simp add: keeps_shut_def)
qed

lemma shut_refuses:
  assumes "shut s b d" and "nj_book_id new = b" and "nj_posted_date new \<le> d"
  shows "\<exists>e. journal_post E new s = Inl e"
proof -
  from assms(1) obtain book lock where book: "book_get s b = Inr book"
    and lock: "bk_financial_lock_date book = Some lock" "d \<le> lock" unfolding shut_def by blast
  have "nj_posted_date new \<le> lock" using assms(3) lock(2) by (rule order.trans)
  then have "\<not> open_on book (nj_posted_date new)" by (simp add: open_on_def lock(1))
  with book assms(2) show ?thesis by (intro locked_refuses [where book = book]) simp_all
qed

lemma shut_refuses_reversal:
  assumes "shut s b d" and "get_journal s i = Some j" and "jn_book_id j = b"
    and on: "(case on of None \<Rightarrow> jn_posted_date j | Some w \<Rightarrow> w) \<le> d"
  shows "\<exists>e. journal_reverse E i on n s = Inl e"
proof (cases "journal_reverse E i on n s")
  case (Inr r)
  from assms(1) obtain book lock where book: "book_get s b = Inr book"
    and lock: "bk_financial_lock_date book = Some lock" "d \<le> lock" unfolding shut_def by blast
  from Inr obtain new p s' where "post_journal_in_tx E book new (Some i) s = Inr (p, s')"
    and date: "nj_posted_date new = (case on of None \<Rightarrow> jn_posted_date j | Some w \<Rightarrow> w)"
    using assms(2,3) book
    by (cases r) (auto simp: journal_reverse_def reverse_journal_in_tx_def attempt_eq_Inr journal_get_Inr Let_def
        split: option.splits)
  then obtain ls where "postable E book new s ls" by (metis post_journal_effect)
  then have "lock < nj_posted_date new" using lock(1) by (simp add: postable_def)
  moreover have "nj_posted_date new \<le> lock" using on lock(2) unfolding date by (rule order.trans)
  ultimately show ?thesis by simp
qed auto

text \<open>
  \<^bold>\<open>C4.\<close> A close that succeeds is the checked report marked as closed; it writes no journal and
  moves the lock date to the closing date. From then on, through any later postings, reversals,
  closes, lock dates and reopenings that do not take the lock back below the closing date, the
  book stays locked at least through that date, every trial balance of the book as of a date in
  the closed period stays what it was when the period was closed (the one in the report among
  them), and posting a journal into the book on or before that date is refused, as is
  reversing one of its journals with a date in the closed period.
\<close>

theorem close_period_seals:
  assumes "close_period E b d s = Inr (r, s')" and "ledger_ok s" and "(closed_step b d)\<^sup>*\<^sup>* s' s''"
  shows "close_period_check E s b d = Inr (r\<lparr>cr_closed := False\<rparr>) \<and> cr_closed r
    \<and> same_but_books s s'
    \<and> (\<exists>book. book_get s' b = Inr book \<and> bk_financial_lock_date book = Some d)
    \<and> (\<exists>book lock. book_get s'' b = Inr book \<and> bk_financial_lock_date book = Some lock \<and> d \<le> lock)
    \<and> (\<forall>d' \<le> d. balance_as_of s'' b d' = balance_as_of s b d')
    \<and> balance_as_of s'' b d = Inr (cr_balance r)
    \<and> (\<forall>E' new. nj_book_id new = b \<and> nj_posted_date new \<le> d \<longrightarrow> (\<exists>e. journal_post E' new s'' = Inl e))
    \<and> (\<forall>E' i j on n. get_journal s'' i = Some j \<and> jn_book_id j = b
          \<and> (case on of None \<Rightarrow> jn_posted_date j | Some w \<Rightarrow> w) \<le> d
          \<longrightarrow> (\<exists>e. journal_reverse E' i on n s'' = Inl e))"
proof -
  from assms(1) obtain r0 now n where r0: "build_close_report E s b d = Inr r0"
    and r: "r = r0\<lparr>cr_closed := True\<rparr>" and same: "same_but_books s s'"
    and books: "book_get s' = book_get (set_lock_date b (Some d) now s)"
    by (rule close_period_Inr)
  from r0 obtain book balance where "book_get s b = Inr book" and "cr_closed r0 = False"
    and bal: "balance_as_of s b d = Inr (cr_balance r0)"
    by (rule close_report_Inr) blast
  with books have b: "book_get s' b
      = Inr (book\<lparr>bk_financial_lock_date := Some d, bk_updated_at := now\<rparr>)"
    by (simp add: book_get_set_lock_date)
  have lines: "lines_up_to s' b d' = lines_up_to s b d'" for d'
    using same_but_books_tables(1,2) [OF same] by (rule lines_up_to_cong)
  have ok: "ledger_ok s'" using assms(2) ledger_ok_cong [OF same_but_books_tables(1,2) [OF same]] by simp
  have "shut s' b d" using b by (simp add: shut_def)
  with closed_steps_keep [OF assms(3) ok] have kept: "shut s'' b d"
    "d' \<le> d \<Longrightarrow> balance_as_of s'' b d' = balance_as_of s b d'" for d'
    by (simp_all add: keeps_shut_def lines balance_as_of_cong [of s'' b d' s])
  have "close_period_check E s b d = Inr (r\<lparr>cr_closed := False\<rparr>)"
    using r0 \<open>cr_closed r0 = False\<close> by (cases r0) (simp add: close_period_check_def r)
  moreover have "balance_as_of s'' b d = Inr (cr_balance r)" using bal kept(2) by (simp add: r)
  ultimately show ?thesis
    using b same kept shut_refuses [OF kept(1)] shut_refuses_reversal [OF kept(1)]
    by (simp add: r shut_def)
qed

definition sample_closed :: "(close_period_report \<times> db) res" where
  "sample_closed = close_period sample_env ''b'' ''2026-02-28'' (db_of sample_posted)"

lemma sample_closed_ran: "sample_closed = Inr (out_of sample_closed, db_of sample_closed)"
  by (rule run_witness) code_simp

definition sample_march :: "(posted_journal \<times> db) res" where
  "sample_march = post_journal_in_tx sample_env (the (ran (book_get (db_of sample_closed) ''b'')))
     ((sample_journal JS_Manual None)\<lparr>nj_posted_date := ''2026-03-02''\<rparr>) None (db_of sample_closed)"

lemma sample_march_step: "closed_step ''b'' ''2026-02-28'' (db_of sample_closed) (db_of sample_march)"
proof -
  have "sample_march = Inr (out_of sample_march, db_of sample_march)" by (rule run_witness) code_simp
  moreover have "book_get (db_of sample_closed) ''b'' = Inr (the (ran (book_get (db_of sample_closed) ''b'')))"
    by code_simp
  ultimately show ?thesis by (auto simp: sample_march_def intro: closed_step.Posting)
qed

lemma close_period_seals_witness:
  "balance_as_of (db_of sample_march) ''b'' ''2026-02-28'' = balance_as_of (db_of sample_posted) ''b'' ''2026-02-28''
   \<and> (\<exists>e. journal_post sample_env (sample_journal JS_Manual None) (db_of sample_march) = Inl e)
   \<and> db_journals (db_of sample_march) \<noteq> db_journals (db_of sample_posted)"
proof -
  have new: "db_journals (db_of sample_march) \<noteq> db_journals (db_of sample_posted)" by code_simp
  have old: "nj_book_id (sample_journal JS_Manual None) = ''b''"
    "nj_posted_date (sample_journal JS_Manual None) \<le> ''2026-02-28''" by code_simp+
  note it = close_period_seals [OF sample_closed_ran [unfolded sample_closed_def] sample_ledger_ok(1),
      folded sample_closed_def, OF r_into_rtranclp, OF sample_march_step]
  show ?thesis
    by (intro conjI new it [THEN conjunct2, THEN conjunct2, THEN conjunct2, THEN conjunct2, THEN conjunct2,
          THEN conjunct1, rule_format] it [THEN conjunct2, THEN conjunct2, THEN conjunct2, THEN conjunct2,
          THEN conjunct2, THEN conjunct2, THEN conjunct2, THEN conjunct1, rule_format] old order.refl)
qed

text \<open>
  Reopening needs a closed book and a reason, and it only moves the lock date back: to an
  earlier date, or away. A book that is not closed is refused with its own error, and closing
  twice through the same date is refused.
\<close>

theorem reopen_moves_back:
  assumes "reopen_period E b to_date reason s = Inr (book', s')"
  shows "(\<exists>book lock. book_get s b = Inr book \<and> bk_financial_lock_date book = Some lock
        \<and> (\<forall>t. to_date = Some t \<longrightarrow> t < lock))
    \<and> trim reason \<noteq> [] \<and> bk_financial_lock_date book' = to_date \<and> book_get s' b = Inr book'
    \<and> same_but_books s s'
    \<and> (to_date = None \<longrightarrow> reopen_period E' b td' reason' s' = Inl NotClosed)"
proof -
  from assms obtain book lock now where book: "book_get s b = Inr book" "bk_financial_lock_date book = Some lock"
    "\<forall>t. to_date = Some t \<longrightarrow> t < lock" and reason: "trim reason \<noteq> []"
    and b': "book' = book\<lparr>bk_financial_lock_date := to_date, bk_updated_at := now\<rparr>"
    and same: "same_but_books s s'" and books: "book_get s' = book_get (set_lock_date b to_date now s)"
    by (rule reopen_period_Inr)
  have "book_get s' b = Inr book'" using books book(1) by (simp add: b' book_get_set_lock_date)
  moreover have "to_date = None \<longrightarrow> reopen_period E' b td' reason' s' = Inl NotClosed"
    using calculation by (auto simp: reopen_period_def b')
  ultimately show ?thesis using book reason same by (simp add: b')
qed

lemma reopen_moves_back_witness:
  "\<exists>book s'. reopen_period sample_env ''b'' (Some ''2026-01-31'') ''late invoice'' (db_of sample_closed)
     = Inr (book, s') \<and> bk_financial_lock_date book = Some ''2026-01-31''"
proof -
  let ?r = "reopen_period sample_env ''b'' (Some ''2026-01-31'') ''late invoice'' (db_of sample_closed)"
  have "ran ?r \<noteq> None" by code_simp
  then have "?r = Inr (out_of ?r, db_of ?r)" by (rule run_witness)
  from reopen_moves_back [OF this] this show ?thesis by blast
qed

end
