(* ===== verification/Stock.thy ===== *)
theory Stock
  imports Store Sample
begin

text \<open>
  The stock-movement ledger: \<^verbatim>\<open>repo/stock.rs\<close> and \<^verbatim>\<open>insert_movement_in_tx\<close>,
  \<^verbatim>\<open>stock_movement_record\<close>, \<^verbatim>\<open>stock_transfer\<close> and the on-hand queries of \<^verbatim>\<open>service.rs\<close>. On-hand
  quantities are never stored; every question is a sum over movements, and the lemmas say how
  each operation moves those sums.
\<close>

section \<open>Repository\<close>

text \<open>Movements are inserted and never changed (\<^verbatim>\<open>stock_movements_no_update\<close>, \<^verbatim>\<open>_no_delete\<close>).\<close>

definition stock_insert :: "stock_movement \<Rightarrow> db \<Rightarrow> db res" where
  "stock_insert m s =
     constrain (sm_qty_delta m \<noteq> 0) (\<not> has sm_id (sm_id m) (db_movements s))
       (has bk_id (sm_book_id m) (db_books s) \<and> has pv_id (sm_variant_id m) (db_variants s)
        \<and> has lo_id (sm_location_id m) (db_locations s))
       (Inr (s\<lparr>db_movements := db_movements s @ [m]\<rparr>))"

definition movement_order :: "stock_movement list \<Rightarrow> stock_movement list" where
  "movement_order = sort_key (\<lambda>m. (sm_created_at m, sm_id m))"

definition stock_movements_for_variant :: "db \<Rightarrow> string \<Rightarrow> stock_movement list" where
  "stock_movements_for_variant s variant_id =
     movement_order (filter (\<lambda>m. sm_variant_id m = variant_id) (db_movements s))"

definition stock_movements_for_location :: "db \<Rightarrow> string \<Rightarrow> stock_movement list" where
  "stock_movements_for_location s location_id =
     movement_order (filter (\<lambda>m. sm_location_id m = location_id) (db_movements s))"

definition stock_movements_for_ref :: "db \<Rightarrow> string \<Rightarrow> string \<Rightarrow> stock_movement list" where
  "stock_movements_for_ref s ref_kind ref_id =
     movement_order (filter (\<lambda>m. sm_ref_kind m = Some ref_kind \<and> sm_ref_id m = Some ref_id) (db_movements s))"

definition stock_on_hand :: "db \<Rightarrow> string \<Rightarrow> string \<Rightarrow> int res" where
  "stock_on_hand s variant_id location_id =
     sql_sum (map sm_qty_delta
       (filter (\<lambda>m. sm_variant_id m = variant_id \<and> sm_location_id m = location_id) (db_movements s)))"

definition stock_on_hand_total :: "db \<Rightarrow> string \<Rightarrow> int res" where
  "stock_on_hand_total s variant_id =
     sql_sum (map sm_qty_delta (filter (\<lambda>m. sm_variant_id m = variant_id) (db_movements s)))"

definition moved_at :: "db \<Rightarrow> string \<Rightarrow> string list" where
  "moved_at s variant_id =
     sort (remdups (map sm_location_id (filter (\<lambda>m. sm_variant_id m = variant_id) (db_movements s))))"

definition stock_on_hand_by_location :: "db \<Rightarrow> string \<Rightarrow> (string \<times> int) list res" where
  "stock_on_hand_by_location s variant_id =
     map_res (\<lambda>l. attempt (stock_on_hand s variant_id l) (\<lambda>q. Inr (l, q))) (moved_at s variant_id)"

definition stock_low_variants :: "db \<Rightarrow> string \<Rightarrow> low_stock_variant list res" where
  "stock_low_variants s book_id =
     attempt (map_res (\<lambda>v. attempt (stock_on_hand_total s (pv_id v)) (\<lambda>q. Inr (v, q)))
         (filter (\<lambda>v. pv_book_id v = book_id) (db_variants s))) (\<lambda>rows.
       Inr (map (\<lambda>(v, q). \<lparr>lsv_variant = v, lsv_on_hand = q\<rparr>)
         (sort_key (\<lambda>(v, q). (pv_sku v, pv_id v))
           (filter (\<lambda>(v, q). q \<le> pv_reorder_point v) rows))))"

section \<open>Operations\<close>

definition insert_movement_in_tx ::
    "env \<Rightarrow> string \<Rightarrow> string \<Rightarrow> string \<Rightarrow> int \<Rightarrow> stock_movement_kind \<Rightarrow> string option \<Rightarrow> string option
      \<Rightarrow> string option \<Rightarrow> string option \<Rightarrow> db \<Rightarrow> (stock_movement \<times> db) res" where
  "insert_movement_in_tx E book_id variant_id location_id qty_delta kind ref_kind ref_id note created_by s =
     (let (i, s1) = new_id E s;
          (now, s2) = now_iso E s1;
          movement = \<lparr>sm_id = i, sm_book_id = book_id, sm_variant_id = variant_id,
            sm_location_id = location_id, sm_qty_delta = qty_delta, sm_kind = kind,
            sm_ref_kind = ref_kind, sm_ref_id = ref_id, sm_note = note,
            sm_created_by = created_by, sm_created_at = now\<rparr>
      in attempt (stock_insert movement s2) (\<lambda>s3.
         attempt (emit_audit E (Some book_id) ''stock_movement'' (Some i) ''record'' None
           (Some (Snap_movement movement)) s3) (\<lambda>s4. Inr (movement, s4))))"

definition stock_movement_record ::
    "env \<Rightarrow> new_stock_movement \<Rightarrow> db \<Rightarrow> (stock_movement \<times> db) res" where
  "stock_movement_record E new s =
     attempt (product_variant_get s (nsm_variant_id new)) (\<lambda>variant.
     attempt (location_get s (nsm_location_id new)) (\<lambda>location.
       if lo_book_id location \<noteq> pv_book_id variant
       then Inl (Validation ''stock movement location and variant belong to different books'')
       else if nsm_qty_delta new = 0
       then Inl (Validation ''stock movement qty_delta must not be zero'')
       else if nsm_ref_id new \<noteq> None \<and> nsm_ref_kind new = None
       then Inl (Validation (''stock movement has a ref_id but no ref_kind to name what ''
              @ ''it refers to''))
       else insert_movement_in_tx E (pv_book_id variant) (pv_id variant) (lo_id location)
              (nsm_qty_delta new) (nsm_kind new) (nsm_ref_kind new) (nsm_ref_id new)
              (nsm_note new) (nsm_created_by new) s))"

definition stock_transfer ::
    "env \<Rightarrow> string \<Rightarrow> string \<Rightarrow> string \<Rightarrow> int \<Rightarrow> string option \<Rightarrow> string option \<Rightarrow> db
      \<Rightarrow> (transfer_result \<times> db) res" where
  "stock_transfer E variant_id from_location_id to_location_id qty note created_by s =
     (if qty \<le> 0 then Inl (Validation ''transfer quantity must be positive'')
      else if from_location_id = to_location_id
      then Inl (Validation ''transfer source and destination locations must differ'')
      else attempt (product_variant_get s variant_id) (\<lambda>variant.
           attempt (location_get s from_location_id) (\<lambda>from_location.
           attempt (location_get s to_location_id) (\<lambda>to_location.
             if lo_book_id from_location \<noteq> pv_book_id variant \<or> lo_book_id to_location \<noteq> pv_book_id variant
             then Inl (Validation ''stock transfer location and variant belong to different books'')
             else let (ref_id, s1) = new_id E s in
               attempt (insert_movement_in_tx E (pv_book_id variant) (pv_id variant)
                   (lo_id from_location) (wrap64 (- qty)) SM_Transfer (Some ''transfer'') (Some ref_id)
                   note created_by s1) (\<lambda>(out, s2).
               attempt (insert_movement_in_tx E (pv_book_id variant) (pv_id variant)
                   (lo_id to_location) qty SM_Transfer (Some ''transfer'') (Some ref_id)
                   note created_by s2) (\<lambda>(into, s3).
                 Inr (\<lparr>tr_out = out, tr_in = into\<rparr>, s3)))))))"

section \<open>Quantities\<close>

text \<open>What the sums stand for: the quantity of a variant at a location, and everywhere.\<close>

definition quantity_at :: "stock_movement list \<Rightarrow> string \<Rightarrow> string \<Rightarrow> int" where
  "quantity_at ms v l = sum_list (map sm_qty_delta (filter (\<lambda>m. sm_variant_id m = v \<and> sm_location_id m = l) ms))"

definition quantity_of :: "stock_movement list \<Rightarrow> string \<Rightarrow> int" where
  "quantity_of ms v = sum_list (map sm_qty_delta (filter (\<lambda>m. sm_variant_id m = v) ms))"

lemma quantity_at_Nil [simp]: "quantity_at [] v l = 0"
  by (simp add: quantity_at_def)

lemma quantity_of_Nil [simp]: "quantity_of [] v = 0"
  by (simp add: quantity_of_def)

lemma quantity_at_Cons [simp]:
  "quantity_at (m # ms) v l =
     (if sm_variant_id m = v \<and> sm_location_id m = l then sm_qty_delta m else 0) + quantity_at ms v l"
  by (simp add: quantity_at_def)

lemma quantity_of_Cons [simp]:
  "quantity_of (m # ms) v = (if sm_variant_id m = v then sm_qty_delta m else 0) + quantity_of ms v"
  by (simp add: quantity_of_def)

lemma quantity_at_append [simp]: "quantity_at (xs @ ys) v l = quantity_at xs v l + quantity_at ys v l"
  by (simp add: quantity_at_def)

lemma quantity_of_append [simp]: "quantity_of (xs @ ys) v = quantity_of xs v + quantity_of ys v"
  by (simp add: quantity_of_def)

lemma stock_on_hand_Inr: "stock_on_hand s v l = Inr q \<Longrightarrow> q = quantity_at (db_movements s) v l"
  by (simp add: stock_on_hand_def quantity_at_def sql_sum_Inr)

lemma stock_on_hand_total_Inr: "stock_on_hand_total s v = Inr q \<Longrightarrow> q = quantity_of (db_movements s) v"
  by (simp add: stock_on_hand_total_def quantity_of_def sql_sum_Inr)

lemma quantity_of_by_location:
  assumes "distinct ls" and "\<forall>m \<in> set ms. sm_variant_id m = v \<longrightarrow> sm_location_id m \<in> set ls"
  shows "sum_list (map (quantity_at ms v) ls) = quantity_of ms v"
  using assms(2)
proof (induction ms)
  case Nil
  then show ?case by (induction ls) auto
next
  case (Cons m ms)
  have "sum_list (map (\<lambda>l. if sm_variant_id m = v \<and> sm_location_id m = l then sm_qty_delta m else 0) ls)
      = (if sm_variant_id m = v then sm_qty_delta m else 0)"
  proof (cases "sm_variant_id m = v")
    case True
    then have "sm_location_id m \<in> id ` set ls" using Cons.prems by simp
    with assms(1) True show ?thesis
      using sum_list_indicator [of id ls "sm_location_id m" "sm_qty_delta m"] by simp
  qed (simp add: sum_list_map_zero)
  then show ?case using Cons by (simp add: sum_list_addf)
qed

lemma insert_movement_Inr:
  assumes "insert_movement_in_tx E b v l q kind rk ri note who s = Inr (m, s')"
  obtains n es where "s' = s\<lparr>db_movements := db_movements s @ [m], db_draws := n, db_audit := es\<rparr>"
    and "sm_variant_id m = v" and "sm_location_id m = l" and "sm_qty_delta m = q" and "q \<noteq> 0"
    and "sm_ref_kind m = rk" and "sm_ref_id m = ri" and "sm_kind m = kind" and "sm_book_id m = b"
    and "sm_id m \<notin> sm_id ` set (db_movements s)" and "\<exists>e. es = db_audit s @ [e]"
proof -
  from assms obtain s3 where
    m: "m = \<lparr>sm_id = e_id E (db_draws s), sm_book_id = b, sm_variant_id = v, sm_location_id = l,
        sm_qty_delta = q, sm_kind = kind, sm_ref_kind = rk, sm_ref_id = ri, sm_note = note,
        sm_created_by = who, sm_created_at = e_now E (Suc (db_draws s))\<rparr>"
    and ins: "stock_insert m (s\<lparr>db_draws := Suc (Suc (db_draws s))\<rparr>) = Inr s3"
    and audit: "emit_audit E (Some b) ''stock_movement'' (Some (sm_id m)) ''record'' None
        (Some (Snap_movement m)) s3 = Inr s'"
    by (auto simp: insert_movement_in_tx_def Let_def attempt_eq_Inr)
  from ins have s3: "s3 = s\<lparr>db_draws := Suc (Suc (db_draws s)), db_movements := db_movements s @ [m]\<rparr>"
    and ok: "q \<noteq> 0" "sm_id m \<notin> sm_id ` set (db_movements s)"
    by (auto simp: stock_insert_def constrain_Inr has_iff m)
  from audit obtain e where s': "s' = s3\<lparr>db_draws := Suc (Suc (db_draws s3)), db_audit := db_audit s3 @ [e]\<rparr>"
    by (rule emit_audit_Inr)
  show thesis
    by (rule that [of "db_audit s @ [e]" "Suc (Suc (db_draws s3))"]) (use ok in \<open>simp_all add: s' s3 m\<close>)
qed

section \<open>Correctness of the stock ledger\<close>

text \<open>
  A recorded movement moves exactly one quantity: the on-hand of its variant at its
  location, and the variant's total, change by the recorded delta, no other pair changes, and
  the movement is a new row at the end of the ledger, with nothing else written but its audit
  entry.
\<close>

theorem movement_moves_one_quantity:
  assumes "stock_movement_record E new s = Inr (m, s')"
  shows "quantity_at (db_movements s') v l = quantity_at (db_movements s) v l
      + (if v = nsm_variant_id new \<and> l = nsm_location_id new then nsm_qty_delta new else 0)
    \<and> quantity_of (db_movements s') v = quantity_of (db_movements s) v
      + (if v = nsm_variant_id new then nsm_qty_delta new else 0)
    \<and> sm_id m \<notin> sm_id ` set (db_movements s) \<and> sm_qty_delta m \<noteq> 0
    \<and> s' = s\<lparr>db_movements := db_movements s @ [m], db_draws := db_draws s', db_audit := db_audit s'\<rparr>"
proof -
  from assms obtain variant location where
    "tab_find pv_id (nsm_variant_id new) (db_variants s) = Some variant"
    and "tab_find lo_id (nsm_location_id new) (db_locations s) = Some location"
    and ins: "insert_movement_in_tx E (pv_book_id variant) (pv_id variant) (lo_id location)
        (nsm_qty_delta new) (nsm_kind new) (nsm_ref_kind new) (nsm_ref_id new) (nsm_note new)
        (nsm_created_by new) s = Inr (m, s')"
    by (auto simp: stock_movement_record_def attempt_eq_Inr guard_eq_Inr location_get_Inr
        product_variant_get_Inr)
  then have ids: "pv_id variant = nsm_variant_id new" "lo_id location = nsm_location_id new"
    by (auto dest: tab_find_Some)
  from ins obtain n es where "s' = s\<lparr>db_movements := db_movements s @ [m], db_draws := n, db_audit := es\<rparr>"
    and "sm_variant_id m = nsm_variant_id new" and "sm_location_id m = nsm_location_id new"
    and "sm_qty_delta m = nsm_qty_delta new" and "nsm_qty_delta new \<noteq> 0"
    and "sm_id m \<notin> sm_id ` set (db_movements s)"
    unfolding ids by (rule insert_movement_Inr)
  then show ?thesis by simp
qed

definition sample_count :: "(stock_movement \<times> db) res" where
  "sample_count = stock_movement_record sample_env
     \<lparr>nsm_variant_id = ''v1'', nsm_location_id = ''l1'', nsm_qty_delta = 12, nsm_kind = SM_Count,
      nsm_ref_kind = None, nsm_ref_id = None, nsm_note = None, nsm_created_by = None\<rparr> sample_db"

lemma movement_moves_one_quantity_witness:
  "quantity_at (db_movements (db_of sample_count)) ''v1'' ''l1'' = 12"
proof -
  have "ran sample_count \<noteq> None" by code_simp
  then have "sample_count = Inr (out_of sample_count, db_of sample_count)" by (rule run_witness)
  from movement_moves_one_quantity [OF this [unfolded sample_count_def], of "''v1''" "''l1''",
      folded sample_count_def]
  show ?thesis by (simp add: sample_db_def empty_db_def)
qed

text \<open>
  \<^bold>\<open>C14.\<close> A transfer is two movements that share a reference and sum to zero: the source loses
  the quantity, the destination gains it, every other pair keeps its quantity and so does every
  variant's total. The two legs are what the look-up by that reference finds among the new rows.
\<close>

theorem transfer_conserves_stock:
  assumes "in_i64 q" and "stock_transfer E v from_l to_l q note who s = Inr (r, s')"
  shows "0 < q \<and> from_l \<noteq> to_l
    \<and> sm_qty_delta (tr_out r) + sm_qty_delta (tr_in r) = 0
    \<and> quantity_at (db_movements s') v from_l = quantity_at (db_movements s) v from_l - q
    \<and> quantity_at (db_movements s') v to_l = quantity_at (db_movements s) v to_l + q
    \<and> (\<forall>w. quantity_of (db_movements s') w = quantity_of (db_movements s) w)
    \<and> (\<forall>w l. (w, l) \<notin> {(v, from_l), (v, to_l)} \<longrightarrow>
        quantity_at (db_movements s') w l = quantity_at (db_movements s) w l)
    \<and> sm_ref_id (tr_out r) = sm_ref_id (tr_in r) \<and> sm_ref_id (tr_out r) \<noteq> None
    \<and> sm_ref_kind (tr_out r) = Some ''transfer'' \<and> sm_ref_kind (tr_in r) = Some ''transfer''
    \<and> sm_id (tr_out r) \<noteq> sm_id (tr_in r)
    \<and> db_movements s' = db_movements s @ [tr_out r, tr_in r]"
proof -
  from assms(2) obtain variant lf lt i s1 s2 where q: "0 < q" "from_l \<noteq> to_l"
    and find: "tab_find pv_id v (db_variants s) = Some variant"
      "tab_find lo_id from_l (db_locations s) = Some lf" "tab_find lo_id to_l (db_locations s) = Some lt"
    and s1: "db_movements s1 = db_movements s"
    and out: "insert_movement_in_tx E (pv_book_id variant) (pv_id variant) (lo_id lf) (wrap64 (- q))
        SM_Transfer (Some ''transfer'') (Some i) note who s1 = Inr (tr_out r, s2)"
    and into: "insert_movement_in_tx E (pv_book_id variant) (pv_id variant) (lo_id lt) q
        SM_Transfer (Some ''transfer'') (Some i) note who s2 = Inr (tr_in r, s')"
  proof -
    from assms(2) obtain variant lf lt s2 where q: "0 < q" "from_l \<noteq> to_l"
      and find: "tab_find pv_id v (db_variants s) = Some variant"
        "tab_find lo_id from_l (db_locations s) = Some lf" "tab_find lo_id to_l (db_locations s) = Some lt"
      and out: "insert_movement_in_tx E (pv_book_id variant) (pv_id variant) (lo_id lf) (wrap64 (- q))
          SM_Transfer (Some ''transfer'') (Some (e_id E (db_draws s))) note who
          (s\<lparr>db_draws := Suc (db_draws s)\<rparr>) = Inr (tr_out r, s2)"
      and into: "insert_movement_in_tx E (pv_book_id variant) (pv_id variant) (lo_id lt) q
          SM_Transfer (Some ''transfer'') (Some (e_id E (db_draws s))) note who s2 = Inr (tr_in r, s')"
      by (auto simp: stock_transfer_def attempt_eq_Inr guard_eq_Inr Let_def location_get_Inr
          product_variant_get_Inr)
    show ?thesis by (rule that [OF q find _ out into]) simp
  qed
  have ids: "pv_id variant = v" "lo_id lf = from_l" "lo_id lt = to_l"
    using find by (auto dest: tab_find_Some)
  from out obtain n es where o: "s2 = s1\<lparr>db_movements := db_movements s1 @ [tr_out r], db_draws := n, db_audit := es\<rparr>"
    "sm_variant_id (tr_out r) = v" "sm_location_id (tr_out r) = from_l"
    "sm_qty_delta (tr_out r) = wrap64 (- q)" "sm_ref_kind (tr_out r) = Some ''transfer''"
    "sm_ref_id (tr_out r) = Some i"
    unfolding ids by (rule insert_movement_Inr)
  from into obtain n' es' where t: "s' = s2\<lparr>db_movements := db_movements s2 @ [tr_in r], db_draws := n', db_audit := es'\<rparr>"
    "sm_variant_id (tr_in r) = v" "sm_location_id (tr_in r) = to_l" "sm_qty_delta (tr_in r) = q"
    "sm_ref_kind (tr_in r) = Some ''transfer''" "sm_ref_id (tr_in r) = Some i"
    "sm_id (tr_in r) \<notin> sm_id ` set (db_movements s2)"
    unfolding ids by (rule insert_movement_Inr)
  have neg: "wrap64 (- q) = - q"
    using assms(1) q(1) by (intro wrap64_id) (auto simp: in_i64_def i64_min_def i64_max_def)
  show ?thesis using q o t by (auto simp: s1 neg)
qed

definition sample_transfer :: "(transfer_result \<times> db) res" where
  "sample_transfer = stock_transfer sample_env ''v1'' ''l1'' ''l2'' 4 None None sample_db"

lemma transfer_conserves_stock_witness:
  "quantity_at (db_movements (db_of sample_transfer)) ''v1'' ''l2'' = 4"
proof -
  have "ran sample_transfer \<noteq> None" by code_simp
  then have "sample_transfer = Inr (out_of sample_transfer, db_of sample_transfer)" by (rule run_witness)
  note run = this [unfolded sample_transfer_def]
  have "in_i64 4" by code_simp
  from transfer_conserves_stock [OF this run, folded sample_transfer_def]
  have "quantity_at (db_movements (db_of sample_transfer)) ''v1'' ''l2''
      = quantity_at (db_movements sample_db) ''v1'' ''l2'' + 4"
    by blast
  then show ?thesis by (simp add: sample_db_def empty_db_def)
qed

text \<open>
  The three readings of on-hand agree: the per-location rows name each location the
  variant ever moved at once, in order, each with its on-hand there, and they add up to the
  variant's total.
\<close>

theorem on_hand_by_location_adds_up:
  assumes "stock_on_hand_by_location s v = Inr rows"
  shows "map fst rows = moved_at s v \<and> sorted_wrt (<) (map fst rows)
    \<and> (\<forall>(l, q) \<in> set rows. stock_on_hand s v l = Inr q \<and> q = quantity_at (db_movements s) v l)
    \<and> sum_list (map snd rows) = quantity_of (db_movements s) v
    \<and> (\<forall>t. stock_on_hand_total s v = Inr t \<longrightarrow> t = sum_list (map snd rows))"
proof -
  have each: "list_all2 (\<lambda>l row. fst row = l \<and> stock_on_hand s v l = Inr (snd row)) (moved_at s v) rows"
    using map_res_Inr [OF assms [unfolded stock_on_hand_by_location_def]]
    by (rule list_all2_mono) (auto simp: attempt_eq_Inr)
  have fsts: "map fst rows = moved_at s v"
    using each by (induction rule: list_all2_induct) auto
  have rows: "\<forall>(l, q) \<in> set rows. stock_on_hand s v l = Inr q"
    using each by (induction rule: list_all2_induct) auto
  have "map snd rows = map (quantity_at (db_movements s) v) (moved_at s v)"
    using each by (induction rule: list_all2_induct) (auto dest: stock_on_hand_Inr)
  then have sum: "sum_list (map snd rows) = quantity_of (db_movements s) v"
    using quantity_of_by_location [of "moved_at s v" "db_movements s" v]
    by (auto simp: moved_at_def)
  have "sorted_wrt (<) (map fst rows)"
    by (simp add: fsts moved_at_def strict_sorted_iff)
  then show ?thesis
    using fsts rows sum by (auto dest: stock_on_hand_Inr stock_on_hand_total_Inr)
qed

lemma on_hand_by_location_adds_up_witness:
  "quantity_of (db_movements (db_of sample_transfer)) ''v1'' = -4 + 4"
proof -
  have "stock_on_hand_by_location (db_of sample_transfer) ''v1'' = Inr [(''l1'', -4), (''l2'', 4)]"
    by code_simp
  from on_hand_by_location_adds_up [OF this] show ?thesis by simp
qed

text \<open>
  The low-stock report lists exactly the book's variants whose total over all locations is
  at or below their own reorder point, a variant that never moved counting as zero, each with
  that total.
\<close>

theorem low_stock_exact:
  assumes "stock_low_variants s b = Inr rows"
  shows "(\<exists>r \<in> set rows. lsv_variant r = v \<and> lsv_on_hand r = q)
    \<longleftrightarrow> v \<in> set (db_variants s) \<and> pv_book_id v = b
       \<and> q = quantity_of (db_movements s) (pv_id v) \<and> q \<le> pv_reorder_point v"
proof -
  from assms obtain vs where
    vs: "map_res (\<lambda>v. attempt (stock_on_hand_total s (pv_id v)) (\<lambda>q. Inr (v, q)))
         (filter (\<lambda>v. pv_book_id v = b) (db_variants s)) = Inr vs"
    and rows: "rows = map (\<lambda>(v, q). \<lparr>lsv_variant = v, lsv_on_hand = q\<rparr>)
         (sort_key (\<lambda>(v, q). (pv_sku v, pv_id v)) (filter (\<lambda>(v, q). q \<le> pv_reorder_point v) vs))"
    by (auto simp: stock_low_variants_def attempt_eq_Inr)
  have "list_all2 (\<lambda>v p. p = (v, quantity_of (db_movements s) (pv_id v)))
      (filter (\<lambda>v. pv_book_id v = b) (db_variants s)) vs"
    using map_res_Inr [OF vs] by (rule list_all2_mono) (auto simp: attempt_eq_Inr dest: stock_on_hand_total_Inr)
  then have "vs = map (\<lambda>v. (v, quantity_of (db_movements s) (pv_id v)))
      (filter (\<lambda>v. pv_book_id v = b) (db_variants s))"
    by (induction rule: list_all2_induct) auto
  then show ?thesis by (auto simp: rows)
qed

lemma low_stock_exact_witness:
  "\<exists>rows. stock_low_variants sample_db ''b'' = Inr rows
     \<and> (\<exists>r \<in> set rows. lsv_variant r = sample_variant ''v1'' 1000 \<and> lsv_on_hand r = 0)"
proof -
  have "ran (stock_low_variants sample_db ''b'') \<noteq> None" by code_simp
  then obtain rows where rows: "stock_low_variants sample_db ''b'' = Inr rows"
    by (cases "stock_low_variants sample_db ''b''") auto
  with low_stock_exact [OF rows, of "sample_variant ''v1'' 1000" 0] show ?thesis
    by (simp add: sample_db_def empty_db_def sample_variant_def)
qed

end
