(* ===== verification/Vat.thy ===== *)
theory Vat
  imports Core_Prelude
begin

text \<open>
  Integer VAT arithmetic on minor units: \<^verbatim>\<open>crates/slipscan-core/src/vat.rs\<close>. Rates are basis
  points; products are formed in 128 bits (plain integers here) and the quotient is cast back
  to 64 bits (\<open>wrap64\<close>). The lemmas show that the rounding is to nearest with halves away from
  zero, that an inclusive amount is always split exactly, and that charging VAT on a net amount
  and then extracting it from the gross one gives the same VAT back.
\<close>

definition div_round_half_away :: "int \<Rightarrow> int \<Rightarrow> int" where
  "div_round_half_away numerator denominator =
     (let half = tdiv denominator 2;
          rounded = (if 0 \<le> numerator then tdiv (numerator + half) denominator
                     else tdiv (numerator - half) denominator)
      in wrap64 rounded)"

definition vat_from_inclusive :: "int \<Rightarrow> int \<Rightarrow> int" where
  "vat_from_inclusive gross_minor rate_bps =
     (if rate_bps \<le> 0 then 0
      else div_round_half_away (gross_minor * rate_bps) (10000 + rate_bps))"

definition vat_on_net :: "int \<Rightarrow> int \<Rightarrow> int" where
  "vat_on_net net_minor rate_bps =
     (if rate_bps \<le> 0 then 0 else div_round_half_away (net_minor * rate_bps) 10000)"

definition split_inclusive :: "int \<Rightarrow> int \<Rightarrow> int \<times> int" where
  "split_inclusive gross_minor rate_bps =
     (let vat = vat_from_inclusive gross_minor rate_bps in (wrap64 (gross_minor - vat), vat))"

section \<open>Rounding to nearest, halves away from zero\<close>

text \<open>The quotient before the cast to 64 bits.\<close>

definition round_away :: "int \<Rightarrow> int \<Rightarrow> int" where
  "round_away n d = (if 0 \<le> n then (n + d div 2) div d else - ((- n + d div 2) div d))"

lemma div_round_half_away_eq: "0 < d \<Longrightarrow> div_round_half_away n d = wrap64 (round_away n d)"
  by (simp add: div_round_half_away_def round_away_def tdiv_neg algebra_simps)

lemma round_away_nonneg: "0 \<le> n \<Longrightarrow> round_away n d = (n + d div 2) div d"
  by (simp add: round_away_def)

lemma round_away_neg: "0 < d \<Longrightarrow> round_away (- n) d = - round_away n d"
  by (simp add: round_away_def div_eq_0_iff)

lemma round_away_bounds_nonneg:
  assumes "0 \<le> n" and "0 < d"
  shows "2 * n - d \<le> 2 * (round_away n d * d)" and "2 * (round_away n d * d) \<le> 2 * n + d"
proof -
  let ?m = "n + d div 2"
  have q: "round_away n d * d = ?m - ?m mod d"
    using assms(1) by (simp add: round_away_nonneg minus_mod_eq_div_mult)
  have "0 \<le> ?m mod d" and "?m mod d < d" using assms(2) by simp_all
  moreover have "2 * (d div 2) \<le> d" and "d \<le> 2 * (d div 2) + 1" by simp_all
  ultimately show "2 * n - d \<le> 2 * (round_away n d * d)" and "2 * (round_away n d * d) \<le> 2 * n + d"
    using q by simp_all
qed

lemma twice_abs_le: "2 * n - d \<le> 2 * x \<Longrightarrow> 2 * x \<le> 2 * n + d \<Longrightarrow> 2 * \<bar>x - n\<bar> \<le> (d::int)"
  by (cases "n \<le> x") auto

lemma sum_of_halves: "p \<le> a + b \<Longrightarrow> 2 * a \<le> d \<Longrightarrow> 2 * b < d \<Longrightarrow> p < (d::int)"
  by linarith

lemma round_away_nearest:
  assumes "0 < d"
  shows "2 * \<bar>round_away n d * d - n\<bar> \<le> d"
proof (cases "0 \<le> n")
  case True
  then show ?thesis by (intro twice_abs_le round_away_bounds_nonneg assms)
next
  case False
  then show ?thesis
    using twice_abs_le [OF round_away_bounds_nonneg [of "- n" d]] round_away_neg [of d n] assms
    by (simp add: abs_minus_commute)
qed

text \<open>Ties go away from zero, so the nearest multiple is determined.\<close>

lemma round_away_tie:
  assumes "0 < d" and "0 \<le> n" and "2 * n = d * (2 * k + 1)"
  shows "round_away n d = k + 1"
proof -
  have "even (d * (2 * k + 1))" using assms(3) by (metis dvd_triv_left)
  then have "even d" by simp
  then obtain h where h: "d = 2 * h" by blast
  then have "n = h * (2 * k + 1)" using assms(3) by simp
  then have "n + d div 2 = d * (k + 1)" using h by (simp add: algebra_simps)
  then show ?thesis using assms(1,2) by (simp add: round_away_nonneg)
qed

lemma round_away_unique:
  assumes "0 < d" and "2 * \<bar>k * d - n\<bar> < d"
  shows "round_away n d = k"
proof -
  let ?r = "round_away n d"
  have "\<bar>(?r - k) * d\<bar> \<le> \<bar>?r * d - n\<bar> + \<bar>k * d - n\<bar>" by (simp add: algebra_simps)
  then have "\<bar>?r - k\<bar> * d \<le> \<bar>?r * d - n\<bar> + \<bar>k * d - n\<bar>"
    using assms(1) by (simp add: abs_mult)
  then have "\<bar>?r - k\<bar> * d < 1 * d"
    using sum_of_halves [OF _ round_away_nearest [OF assms(1), of n] assms(2)] by simp
  then have "\<bar>?r - k\<bar> < 1" using assms(1) mult_less_cancel_right_pos by blast
  then show ?thesis by simp
qed

lemma round_away_nonneg_sign: "0 < d \<Longrightarrow> 0 \<le> n \<Longrightarrow> 0 \<le> round_away n d"
  by (simp add: round_away_nonneg pos_imp_zdiv_nonneg_iff)

lemma round_away_mono:
  assumes "0 < d" and "m \<le> n"
  shows "round_away m d \<le> round_away n d"
proof (cases "0 \<le> m")
  case True
  then show ?thesis using assms by (simp add: round_away_nonneg zdiv_mono1)
next
  case False
  show ?thesis
  proof (cases "0 \<le> n")
    case True
    then have "round_away (- m) d \<ge> 0" using False assms by (simp add: round_away_nonneg_sign)
    then show ?thesis
      using round_away_neg [OF assms(1), of m] round_away_nonneg_sign [OF assms(1) True] by simp
  next
    case n: False
    then show ?thesis using False assms by (simp add: round_away_def zdiv_mono1)
  qed
qed

text \<open>A fraction between 0 and 1 of an integer rounds to between 0 and that integer.\<close>

lemma round_away_fraction:
  assumes "0 < d" and "0 \<le> r" and "r \<le> d"
  shows "0 \<le> g \<Longrightarrow> 0 \<le> round_away (g * r) d \<and> round_away (g * r) d \<le> g"
    and "g \<le> 0 \<Longrightarrow> g \<le> round_away (g * r) d \<and> round_away (g * r) d \<le> 0"
proof -
  have pos: "0 \<le> round_away (k * r) d \<and> round_away (k * r) d \<le> k" if "0 \<le> k" for k
  proof
    show "0 \<le> round_away (k * r) d" using assms that by (simp add: round_away_nonneg_sign)
    have "round_away (k * r) d \<le> round_away (k * d) d"
      using assms that by (intro round_away_mono) (simp_all add: mult_left_mono)
    also have "\<dots> = k" using assms(1) by (intro round_away_unique) simp_all
    finally show "round_away (k * r) d \<le> k" .
  qed
  then show "0 \<le> g \<Longrightarrow> 0 \<le> round_away (g * r) d \<and> round_away (g * r) d \<le> g" by blast
  show "g \<le> 0 \<Longrightarrow> g \<le> round_away (g * r) d \<and> round_away (g * r) d \<le> 0"
    using pos [of "- g"] round_away_neg [OF assms(1), of "g * r"] by simp
qed

lemma in_i64_between: "in_i64 a \<Longrightarrow> in_i64 c \<Longrightarrow> a \<le> b \<Longrightarrow> b \<le> c \<Longrightarrow> in_i64 b"
  by (simp add: in_i64_def)

lemma in_i64_0 [simp]: "in_i64 0"
  by (simp add: in_i64_def i64_min_def i64_max_def)

section \<open>VAT\<close>

text \<open>For 64-bit inputs neither function's cast changes the rounded quotient.\<close>

lemma vat_from_inclusive_eq:
  assumes "in_i64 gross" and "0 < bps"
  shows "vat_from_inclusive gross bps = round_away (gross * bps) (10000 + bps)"
proof -
  have frac: "0 \<le> gross \<Longrightarrow> in_i64 (round_away (gross * bps) (10000 + bps))"
    "gross \<le> 0 \<Longrightarrow> in_i64 (round_away (gross * bps) (10000 + bps))"
    using round_away_fraction [of "10000 + bps" bps gross] assms
    by (auto intro: in_i64_between [OF in_i64_0 assms(1)] in_i64_between [OF assms(1) in_i64_0])
  then have "in_i64 (round_away (gross * bps) (10000 + bps))" by linarith
  then show ?thesis using assms by (simp add: vat_from_inclusive_def div_round_half_away_eq)
qed

lemma vat_on_net_eq:
  assumes "in_i64 net" and "0 < bps" and "bps \<le> 10000"
  shows "vat_on_net net bps = round_away (net * bps) 10000"
proof -
  have frac: "0 \<le> net \<Longrightarrow> in_i64 (round_away (net * bps) 10000)"
    "net \<le> 0 \<Longrightarrow> in_i64 (round_away (net * bps) 10000)"
    using round_away_fraction [of 10000 bps net] assms
    by (auto intro: in_i64_between [OF in_i64_0 assms(1)] in_i64_between [OF assms(1) in_i64_0])
  then have "in_i64 (round_away (net * bps) 10000)" by linarith
  then show ?thesis using assms by (simp add: vat_on_net_def div_round_half_away_eq)
qed

lemma vat_on_net_nonneg:
  "in_i64 net \<Longrightarrow> 0 \<le> net \<Longrightarrow> bps \<le> 10000 \<Longrightarrow> 0 \<le> vat_on_net net bps \<and> vat_on_net net bps \<le> net"
  using vat_on_net_eq [of net bps] round_away_fraction(1) [of 10000 bps net]
  by (cases "0 < bps") (auto simp: vat_on_net_def)

lemma in_i64_vat_on_net [simp]: "in_i64 (vat_on_net net bps)"
  by (simp add: vat_on_net_def div_round_half_away_def Let_def)

lemma vat_from_inclusive_between:
  assumes "in_i64 gross"
  shows "0 \<le> gross \<Longrightarrow> 0 \<le> vat_from_inclusive gross bps \<and> vat_from_inclusive gross bps \<le> gross"
    and "gross \<le> 0 \<Longrightarrow> gross \<le> vat_from_inclusive gross bps \<and> vat_from_inclusive gross bps \<le> 0"
  using assms vat_from_inclusive_eq [OF assms] round_away_fraction [of "10000 + bps" bps gross]
  by (cases "0 < bps"; simp add: vat_from_inclusive_def)+

text \<open>
  Splitting a VAT-inclusive amount is exact for every 64-bit amount and rate, extreme
  ones included: net and VAT add up to the gross amount as integers (nothing wraps), both have
  the sign of the gross amount, and neither exceeds it.
\<close>

theorem split_inclusive_exact:
  assumes "in_i64 gross"
  shows "case split_inclusive gross bps of
      (net, vat) \<Rightarrow> net + vat = gross \<and> \<bar>net\<bar> + \<bar>vat\<bar> = \<bar>gross\<bar> \<and> vat = vat_from_inclusive gross bps"
proof -
  let ?v = "vat_from_inclusive gross bps"
  have "(0 \<le> gross \<and> 0 \<le> ?v \<and> ?v \<le> gross) \<or> (gross \<le> 0 \<and> gross \<le> ?v \<and> ?v \<le> 0)"
    using vat_from_inclusive_between [OF assms, of bps] by linarith
  moreover from this have "in_i64 (gross - ?v)"
    using assms by (auto simp: in_i64_def i64_min_def i64_max_def)
  ultimately show ?thesis by (auto simp: split_inclusive_def Let_def)
qed

theorem split_inclusive_exact_witness:
  "in_i64 9223372036854775807 \<and> split_inclusive 9223372036854775807 1500 = (8020323510308500702, 1203048526546275105)
   \<and> fst (split_inclusive 9223372036854775807 1500) + snd (split_inclusive 9223372036854775807 1500)
     = 9223372036854775807"
proof -
  have h: "in_i64 9223372036854775807" by (simp add: in_i64_def i64_min_def i64_max_def)
  have "split_inclusive 9223372036854775807 1500 = (8020323510308500702, 1203048526546275105)"
    by code_simp
  then show ?thesis using h split_inclusive_exact [OF h, of 1500] by simp
qed

text \<open>
  \<^bold>\<open>C23.\<close> The VAT extracted from an inclusive amount and the VAT charged on a net amount are the
  exact fraction rounded to the nearest minor unit, an exact half going away from zero, and
  both are odd functions of the amount, so a credit note mirrors the sale it undoes.
\<close>

theorem vat_rounds_to_nearest:
  assumes "in_i64 amount" and "in_i64 (- amount)" and "0 < bps" and "bps \<le> 10000"
  shows "2 * \<bar>vat_on_net amount bps * 10000 - amount * bps\<bar> \<le> 10000
    \<and> 2 * \<bar>vat_from_inclusive amount bps * (10000 + bps) - amount * bps\<bar> \<le> 10000 + bps
    \<and> (0 \<le> amount \<and> 2 * (amount * bps) = 10000 * (2 * k + 1) \<longrightarrow> vat_on_net amount bps = k + 1)
    \<and> vat_on_net (- amount) bps = - vat_on_net amount bps
    \<and> vat_from_inclusive (- amount) bps = - vat_from_inclusive amount bps"
  using round_away_nearest [of 10000 "amount * bps"] round_away_nearest [of "10000 + bps" "amount * bps"]
    round_away_tie [of 10000 "amount * bps" k] round_away_neg [of 10000 "amount * bps"]
    round_away_neg [of "10000 + bps" "amount * bps"] assms
  by (simp add: vat_on_net_eq vat_from_inclusive_eq)

theorem vat_rounds_to_nearest_witness:
  "vat_on_net 10 500 = 1 \<and> vat_on_net (- 10) 500 = - 1
   \<and> vat_from_inclusive (- 27) 1500 = - vat_from_inclusive 27 1500"
proof -
  have i: "in_i64 10" "in_i64 (- 10)" "in_i64 27" "in_i64 (- 27)"
    by (simp_all add: in_i64_def i64_min_def i64_max_def)
  show ?thesis
    using vat_rounds_to_nearest [OF i(1,2), of 500 0] vat_rounds_to_nearest [OF i(3,4), of 1500 0]
    by simp
qed

text \<open>
  Charging VAT on a net amount and then splitting the resulting gross amount gives back
  the same net amount and the same VAT, for every rate up to 100 percent and every amount whose
  gross fits 64 bits.
\<close>

theorem vat_round_trip:
  assumes "in_i64 net" and "in_i64 (net + vat_on_net net bps)" and "bps \<le> 10000"
  shows "split_inclusive (net + vat_on_net net bps) bps = (net, vat_on_net net bps)"
proof (cases "0 < bps")
  case False
  then show ?thesis using assms by (simp add: split_inclusive_def vat_from_inclusive_def vat_on_net_def)
next
  case True
  let ?v = "vat_on_net net bps"
  have "2 * \<bar>?v * 10000 - net * bps\<bar> \<le> 10000"
    using round_away_nearest [of 10000 "net * bps"] True assms by (simp add: vat_on_net_eq)
  moreover have "?v * (10000 + bps) - (net + ?v) * bps = ?v * 10000 - net * bps"
    by (simp add: algebra_simps)
  ultimately have "2 * \<bar>?v * (10000 + bps) - (net + ?v) * bps\<bar> < 10000 + bps"
    using True by simp
  then have "round_away ((net + ?v) * bps) (10000 + bps) = ?v"
    using True by (intro round_away_unique) simp_all
  then have "vat_from_inclusive (net + ?v) bps = ?v"
    using vat_from_inclusive_eq [OF assms(2) True] by simp
  then show ?thesis using assms(1) by (simp add: split_inclusive_def)
qed

theorem vat_round_trip_witness:
  "in_i64 999 \<and> in_i64 (999 + vat_on_net 999 1500) \<and> vat_on_net 999 1500 = 150
   \<and> split_inclusive (999 + vat_on_net 999 1500) 1500 = (999, vat_on_net 999 1500)"
proof -
  have h1: "in_i64 999" by (simp add: in_i64_def i64_min_def i64_max_def)
  have v: "vat_on_net 999 1500 = 150" by code_simp
  then have h2: "in_i64 (999 + vat_on_net 999 1500)" by (simp add: in_i64_def i64_min_def i64_max_def)
  show ?thesis using h1 h2 v vat_round_trip [OF h1 h2] by simp
qed

end
