(* ===== verification/Trade_Posting.thy ===== *)
theory Trade_Posting
  imports Ledger_Laws Vat
begin

text \<open>
  The journals the trade operations generate, in the transaction of the operation itself:
  goods receipts, confirmed orders (cost and revenue legs), their reversal on cancellation, and
  invoice payments (the section ``Trade postings'' of \<^verbatim>\<open>service.rs\<close>). A book without the accounts
  a leg needs posts nothing for it. The locale states what the trade operations rely on; every
  leg is an instance.
\<close>

section \<open>System accounts\<close>

definition COA_CODE_BANK :: string where "COA_CODE_BANK = ''1000''"
definition COA_CODE_VAT_OUTPUT :: string where "COA_CODE_VAT_OUTPUT = ''2100''"
definition COA_CODE_INVENTORY :: string where "COA_CODE_INVENTORY = ''1200''"
definition COA_CODE_AP :: string where "COA_CODE_AP = ''2000''"
definition COA_CODE_AR :: string where "COA_CODE_AR = ''1100''"
definition COA_CODE_REVENUE :: string where "COA_CODE_REVENUE = ''4000''"
definition COA_CODE_COGS :: string where "COA_CODE_COGS = ''5000''"
definition COA_CODE_DEPRECIATION_EXPENSE :: string where "COA_CODE_DEPRECIATION_EXPENSE = ''6250''"
definition COA_CODE_ACCUM_DEPRECIATION :: string where "COA_CODE_ACCUM_DEPRECIATION = ''1600''"

definition coa_by_code_opt :: "db \<Rightarrow> string \<Rightarrow> string \<Rightarrow> coa_account option" where
  "coa_by_code_opt s book_id code = get_coa_by_code s book_id code"

definition two_accounts :: "db \<Rightarrow> string \<Rightarrow> string \<Rightarrow> string \<Rightarrow> (coa_account \<times> coa_account) option" where
  "two_accounts s book_id code1 code2 =
     (case (coa_by_code_opt s book_id code1, coa_by_code_opt s book_id code2) of
        (Some a, Some b) \<Rightarrow> Some (a, b)
      | _ \<Rightarrow> None)"

definition trade_line :: "coa_account \<Rightarrow> int \<Rightarrow> int \<Rightarrow> string \<Rightarrow> string option \<Rightarrow> new_journal_line" where
  "trade_line coa debit credit currency description =
     \<lparr>nl_coa_id = ca_id coa, nl_debit_minor = debit, nl_credit_minor = credit, nl_currency = currency,
      nl_description = description, nl_vat_rate_id = None, nl_vat_role = None\<rparr>"

definition post_some ::
    "env \<Rightarrow> book \<Rightarrow> new_journal \<Rightarrow> db \<Rightarrow> (posted_journal option \<times> db) res" where
  "post_some E book new s =
     attempt (post_journal_in_tx E book new None s) (\<lambda>(p, s'). Inr (Some p, s'))"

section \<open>Goods receipts\<close>

definition post_po_receipt_journal ::
    "env \<Rightarrow> book \<Rightarrow> po_receipt \<Rightarrow> purchase_order_item \<Rightarrow> string \<Rightarrow> db
      \<Rightarrow> (posted_journal option \<times> db) res" where
  "post_po_receipt_journal E book receipt item order_currency s =
     (let cost_minor = wrap64 (poi_unit_price_minor item * pr_qty receipt) in
      if cost_minor = 0 then Inr (None, s)
      else (case two_accounts s (bk_id book) COA_CODE_INVENTORY COA_CODE_AP of
          None \<Rightarrow> Inr (None, s)
        | Some (inventory, ap) \<Rightarrow>
            let amount = i64_abs cost_minor in
            attempt (normalize_currency_code order_currency) (\<lambda>currency.
              let (inv_debit, inv_credit, ap_debit, ap_credit) =
                    (if 0 < cost_minor then (amount, 0, 0, amount) else (0, amount, amount, 0));
                  new = \<lparr>nj_book_id = bk_id book, nj_posted_date = take 10 (pr_created_at receipt),
                    nj_narrative = Some ''Goods receipt'', nj_reference = Some (pr_id receipt),
                    nj_source_type = JS_PoReceipt, nj_source_id = Some (pr_id receipt),
                    nj_lines = [trade_line inventory inv_debit inv_credit currency (pr_note receipt),
                                trade_line ap ap_debit ap_credit currency (pr_note receipt)]\<rparr>
              in post_some E book new s)))"

section \<open>Confirmed orders\<close>

fun confirm_cost :: "db \<Rightarrow> sales_order_item list \<Rightarrow> int \<Rightarrow> int res" where
  "confirm_cost s [] total_cost = Inr total_cost"
| "confirm_cost s (item # items) total_cost =
     (case soi_variant_id item of
        None \<Rightarrow> confirm_cost s items total_cost
      | Some v \<Rightarrow> attempt (product_variant_get s v) (\<lambda>variant.
          confirm_cost s items
            (wrap64 (total_cost + wrap64 (pv_cost_price_minor variant * soi_quantity item)))))"

text \<open>Net and VAT per rate, in ascending order of the rate.\<close>

definition vat_groups :: "(int \<times> int \<times> int) list \<Rightarrow> (int \<times> (int \<times> int)) list" where
  "vat_groups lines_in =
     fold (\<lambda>(quantity, unit_price_minor, tax_rate_bps).
         let net = wrap64 (quantity * unit_price_minor);
             vat = vat_on_net net tax_rate_bps
         in bt_entry tax_rate_bps (0, 0) (\<lambda>(n, v). (wrap64 (n + net), wrap64 (v + vat))))
       lines_in []"

definition rate_for :: "vat_rate list \<Rightarrow> int \<Rightarrow> vat_rate option" where
  "rate_for rates bps =
     (if bps \<le> 0 then None
      else (case sort_key (\<lambda>r. (vr_code r = ''EXE'', vr_code r))
              (filter (\<lambda>r. vr_is_active r \<and> vr_rate_bps r = bps) rates) of
          [] \<Rightarrow> None
        | r # _ \<Rightarrow> Some r))"

definition vat_line ::
    "coa_account \<Rightarrow> int \<Rightarrow> string \<Rightarrow> string option \<Rightarrow> vat_role \<Rightarrow> new_journal_line" where
  "vat_line coa credit currency rate role =
     \<lparr>nl_coa_id = ca_id coa, nl_debit_minor = 0, nl_credit_minor = credit, nl_currency = currency,
      nl_description = None, nl_vat_rate_id = rate, nl_vat_role = Some role\<rparr>"

fun group_lines ::
    "vat_rate list \<Rightarrow> coa_account \<Rightarrow> coa_account option \<Rightarrow> string \<Rightarrow> (int \<times> (int \<times> int)) list
      \<Rightarrow> new_journal_line list res" where
  "group_lines rates revenue vat_control currency [] = Inr []"
| "group_lines rates revenue vat_control currency ((bps, (net, vat)) # groups) =
     (let rate = map_option vr_id (rate_for rates bps);
          base = (if net \<noteq> 0 then [vat_line revenue net currency rate VR_OutputBase] else [])
      in attempt (if vat \<noteq> 0
           then (case vat_control of
               None \<Rightarrow> Inl (Panic ''need_vat_control guaranteed Some above'')
             | Some control \<Rightarrow> Inr [vat_line control vat currency rate VR_OutputVat])
           else Inr []) (\<lambda>tax.
         attempt (group_lines rates revenue vat_control currency groups) (\<lambda>rest.
           Inr (base @ tax @ rest))))"

definition post_revenue_ar_journal ::
    "env \<Rightarrow> book \<Rightarrow> string \<Rightarrow> (int \<times> int \<times> int) list \<Rightarrow> string \<Rightarrow> string \<Rightarrow> string
      \<Rightarrow> journal_source_type \<Rightarrow> string \<Rightarrow> db \<Rightarrow> (posted_journal option \<times> db) res" where
  "post_revenue_ar_journal E book currency lines_in posted_date narrative reference source_type source_id s =
     (let groups = vat_groups lines_in;
          total_net = i64_sum (map (\<lambda>g. fst (snd g)) groups);
          total_vat = i64_sum (map (\<lambda>g. snd (snd g)) groups);
          gross = wrap64 (total_net + total_vat)
      in if gross = 0 then Inr (None, s)
         else let need_vat_control = (total_vat \<noteq> 0);
                  vat_control = (if need_vat_control
                    then coa_by_code_opt s (bk_id book) COA_CODE_VAT_OUTPUT else None)
              in (case two_accounts s (bk_id book) COA_CODE_AR COA_CODE_REVENUE of
                    None \<Rightarrow> Inr (None, s)
                  | Some (ar, revenue) \<Rightarrow>
                      if need_vat_control \<and> vat_control = None then Inr (None, s)
                      else attempt (group_lines (list_vat_rates s (bk_id book)) revenue vat_control
                             currency groups) (\<lambda>lines.
                        post_some E book
                          \<lparr>nj_book_id = bk_id book, nj_posted_date = posted_date,
                           nj_narrative = Some narrative, nj_reference = Some reference,
                           nj_source_type = source_type, nj_source_id = Some source_id,
                           nj_lines = trade_line ar gross 0 currency (Some narrative) # lines\<rparr> s)))"

definition post_cost_journal ::
    "env \<Rightarrow> book \<Rightarrow> sales_order \<Rightarrow> string \<Rightarrow> int \<Rightarrow> db \<Rightarrow> (posted_journal option \<times> db) res" where
  "post_cost_journal E book order currency total_cost s =
     (if total_cost = 0 then Inr (None, s)
      else (case two_accounts s (bk_id book) COA_CODE_COGS COA_CODE_INVENTORY of
          None \<Rightarrow> Inr (None, s)
        | Some (cogs, inventory) \<Rightarrow>
            let text = ''Cost of sale: order #'' @ show_int (so_number order) in
            post_some E book
              \<lparr>nj_book_id = bk_id book, nj_posted_date = so_order_date order, nj_narrative = Some text,
               nj_reference = Some (so_id order), nj_source_type = JS_SalesCogs,
               nj_source_id = Some (so_id order),
               nj_lines = [trade_line cogs total_cost 0 currency (Some text),
                           trade_line inventory 0 total_cost currency (Some text)]\<rparr> s))"

definition post_sales_confirm_journals ::
    "env \<Rightarrow> book \<Rightarrow> sales_order \<Rightarrow> sales_order_item list \<Rightarrow> db
      \<Rightarrow> ((posted_journal option \<times> posted_journal option) \<times> db) res" where
  "post_sales_confirm_journals E book order items s =
     attempt (normalize_currency_code (so_currency order)) (\<lambda>currency.
     attempt (confirm_cost s items 0) (\<lambda>total_cost.
     attempt (post_cost_journal E book order currency total_cost s) (\<lambda>(cost_journal, s1).
     attempt (post_revenue_ar_journal E book currency
         (map (\<lambda>i. (soi_quantity i, soi_unit_price_minor i, soi_tax_rate_bps i)) items)
         (so_order_date order) (''Sale: order #'' @ show_int (so_number order)) (so_id order)
         JS_SalesRevenue (so_id order) s1) (\<lambda>(revenue_journal, s2).
       Inr ((cost_journal, revenue_journal), s2)))))"

section \<open>Cancelled orders\<close>

definition reverse_if_live ::
    "env \<Rightarrow> book \<Rightarrow> string \<Rightarrow> string \<Rightarrow> string \<Rightarrow> db \<Rightarrow> db res" where
  "reverse_if_live E book narrative reversal_date journal_id s =
     attempt (is_net_reversed s journal_id) (\<lambda>reversed.
       if reversed then Inr s
       else attempt (reverse_journal_in_tx E book journal_id (Some reversal_date) (Some narrative) s)
              (\<lambda>(_, s'). Inr s'))"

definition cancel_narrative :: "sales_order \<Rightarrow> string" where
  "cancel_narrative order = ''Cancelled: reversing sale order #'' @ show_int (so_number order)"

definition reverse_sales_confirm_journals ::
    "env \<Rightarrow> book \<Rightarrow> sales_order \<Rightarrow> string \<Rightarrow> db \<Rightarrow> db res" where
  "reverse_sales_confirm_journals E book order reversal_date s =
     for_each (\<lambda>source_type s1.
         for_each (reverse_if_live E book (cancel_narrative order) reversal_date)
           (find_journals_by_source s1 (bk_id book) source_type (so_id order)) s1)
       [JS_SalesCogs, JS_SalesRevenue] s"

section \<open>Invoice payments\<close>

definition post_invoice_payment_journal ::
    "env \<Rightarrow> book \<Rightarrow> invoice \<Rightarrow> invoice_payment \<Rightarrow> db \<Rightarrow> (posted_journal option \<times> db) res" where
  "post_invoice_payment_journal E book invoice payment s =
     (if ip_amount_minor payment = 0 then Inr (None, s)
      else (case two_accounts s (bk_id book) COA_CODE_BANK COA_CODE_AR of
          None \<Rightarrow> Inr (None, s)
        | Some (bank, ar) \<Rightarrow>
            attempt (normalize_currency_code (iv_currency invoice)) (\<lambda>currency.
              post_some E book
                \<lparr>nj_book_id = bk_id book, nj_posted_date = ip_paid_at payment,
                 nj_narrative = Some (''Payment received: invoice #'' @ show_int (iv_number invoice)),
                 nj_reference = Some (ip_id payment), nj_source_type = JS_InvoicePayment,
                 nj_source_id = Some (ip_id payment),
                 nj_lines = [trade_line bank (ip_amount_minor payment) 0 currency (ip_method payment),
                             trade_line ar 0 (ip_amount_minor payment) currency (ip_method payment)]\<rparr> s)))"

section \<open>The contract of a generated journal\<close>

text \<open>
  What the trade operations rely on: a generated posting either leaves the store alone, or it is
  one posting of the ledger, into the given book, for the given source, reversing nothing.
\<close>

locale trade_posting =
  fixes post :: "env \<Rightarrow> book \<Rightarrow> db \<Rightarrow> (posted_journal option \<times> db) res"
    and ty :: journal_source_type
    and src :: string
  assumes outcome: "post E book s = Inr (po, s') \<Longrightarrow>
    (po = None \<and> s' = s)
    \<or> (\<exists>p new. po = Some p \<and> nj_source_type new = ty \<and> nj_source_id new = Some src
         \<and> post_journal_in_tx E book new None s = Inr (p, s'))"
begin

lemma keeps_ledger: "post E book s = Inr (po, s') \<Longrightarrow> ledger_ok s \<Longrightarrow> ledger_ok s'"
  using outcome ledger_ok_post by blast

lemma keeps_tables: "post E book s = Inr (po, s') \<Longrightarrow> same_but_ledger s s'"
  using outcome by (fastforce elim: post_journal_effect)

lemma appends:
  assumes "post E book s = Inr (po, s')"
  shows "db_journals s' = db_journals s @ (case po of None \<Rightarrow> [] | Some p \<Rightarrow> [pj_journal p])
    \<and> db_lines s' = db_lines s @ (case po of None \<Rightarrow> [] | Some p \<Rightarrow> pj_lines p)"
  using outcome [OF assms] by (fastforce elim: post_journal_effect)

lemma posted:
  assumes "post E book s = Inr (Some p, s')"
  shows "balanced (pj_lines p) \<and> list_all line_ok (pj_lines p) \<and> jn_book_id (pj_journal p) = bk_id book
    \<and> jn_source_type (pj_journal p) = ty \<and> jn_source_id (pj_journal p) = Some src
    \<and> jn_reversal_of (pj_journal p) = None"
proof -
  from outcome [OF assms] obtain new where "nj_source_type new = ty" and "nj_source_id new = Some src"
    and post: "post_journal_in_tx E book new None s = Inr (p, s')"
    by auto
  then show ?thesis
    using posted_lines_ok [OF post] by (auto elim: post_journal_effect)
qed

lemma keeps_closed_lines:
  assumes "post E book s = Inr (po, s')" and "i \<in> jn_id ` set (db_journals s)" and "ledger_ok s"
  shows "lines_of s' i = lines_of s i"
  using outcome [OF assms(1)]
proof (elim disjE exE conjE)
  fix p new
  assume post: "post_journal_in_tx E book new None s = Inr (p, s')"
  then obtain ls where "jn_id (pj_journal p) \<notin> jn_id ` set (db_journals s)"
    and "db_lines s' = db_lines s @ pj_lines p"
    by (rule post_journal_effect)
  with posted_lines_ok(4) [OF post] assms(2) show ?thesis
    by (auto simp: lines_of_def filter_empty_conv)
qed simp

end

lemma post_some_Inr:
  "post_some E book new s = Inr (po, s') \<longleftrightarrow> (\<exists>p. po = Some p \<and> post_journal_in_tx E book new None s = Inr (p, s'))"
  by (auto simp: post_some_def attempt_eq_Inr)

interpretation receipt_posting:
  trade_posting "\<lambda>E book. post_po_receipt_journal E book receipt item cur" JS_PoReceipt "pr_id receipt"
  for receipt item cur
  by unfold_locales
    (auto simp: post_po_receipt_journal_def Let_def attempt_eq_Inr post_some_Inr split: if_splits option.splits)

interpretation cost_posting:
  trade_posting "\<lambda>E book. post_cost_journal E book order cur total" JS_SalesCogs "so_id order"
  for order cur total
  by unfold_locales
    (auto simp: post_cost_journal_def Let_def post_some_Inr split: if_splits option.splits)

interpretation revenue_posting:
  trade_posting "\<lambda>E book. post_revenue_ar_journal E book cur ls d narrative reference ty src" ty src
  for cur ls d narrative reference ty src
  by unfold_locales
    (auto simp: post_revenue_ar_journal_def Let_def attempt_eq_Inr post_some_Inr split: if_splits option.splits)

interpretation payment_posting:
  trade_posting "\<lambda>E book. post_invoice_payment_journal E book invoice payment" JS_InvoicePayment "ip_id payment"
  for invoice payment
  by unfold_locales
    (auto simp: post_invoice_payment_journal_def attempt_eq_Inr post_some_Inr split: if_splits option.splits)

section \<open>What the generated lines say\<close>

definition asks :: "new_journal_line \<Rightarrow> string \<times> int \<times> int \<times> string option \<times> vat_role option" where
  "asks l = (nl_coa_id l, nl_debit_minor l, nl_credit_minor l, nl_vat_rate_id l, nl_vat_role l)"

definition holds_line :: "journal_line \<Rightarrow> string \<times> int \<times> int \<times> string option \<times> vat_role option" where
  "holds_line l = (jl_coa_id l, jl_debit_minor l, jl_credit_minor l, jl_vat_rate_id l, jl_vat_role l)"

lemma holds_stored:
  assumes "map line_view st = map (\<lambda>(k, l). stored_line [] j now k l) (enumerate n ls)"
  shows "map holds_line st = map asks ls \<and> map jl_currency st = map nl_currency ls"
  using assms
proof (induction ls arbitrary: n st)
  case Nil
  then show ?case by simp
next
  case (Cons l ls)
  then obtain x st' where st: "st = x # st'" and x: "line_view x = stored_line [] j now n l"
    and rest: "map line_view st' = map (\<lambda>(k, l). stored_line [] j now k l) (enumerate (Suc n) ls)"
    by (cases st) auto
  show ?case using Cons.IH [OF rest] line_view_eqD [OF x] by (simp add: st holds_line_def asks_def)
qed

lemma normalize_lines_asks: "normalize_lines ls = Inr ls' \<Longrightarrow> map asks ls' = map asks ls"
  by (induction ls arbitrary: ls') (auto simp: attempt_eq_Inr asks_def)

lemma normalize_lines_currency:
  "normalize_lines ls = Inr ls' \<Longrightarrow> map (\<lambda>l. normalize_currency_code (nl_currency l)) ls
     = map (\<lambda>l. Inr (nl_currency l)) ls'"
  by (induction ls arbitrary: ls') (auto simp: attempt_eq_Inr)

lemma posted_says:
  assumes "post_journal_in_tx E book new ro s = Inr (p, s')"
  shows "map holds_line (pj_lines p) = map asks (nj_lines new)
    \<and> map (\<lambda>l. Inr (jl_currency l)) (pj_lines p) = map (\<lambda>l. normalize_currency_code (nl_currency l)) (nj_lines new)"
proof -
  from assms obtain ls where ls: "postable E book new s ls"
    and content: "map line_view (pj_lines p) =
           map (\<lambda>(k, l). stored_line [] (pj_journal p) (e_now E (db_draws s)) k l) (enumerate 0 ls)"
    by (rule post_journal_effect)
  then have norm: "normalize_lines (nj_lines new) = Inr ls" by (simp add: postable_def)
  have "map (\<lambda>l. Inr (jl_currency l) :: string res) (pj_lines p) = map Inr (map jl_currency (pj_lines p))"
    by simp
  also have "\<dots> = map Inr (map nl_currency ls)" using holds_stored [OF content] by simp
  also have "\<dots> = map (\<lambda>l. Inr (nl_currency l)) ls" by simp
  finally have "map (\<lambda>l. Inr (jl_currency l) :: string res) (pj_lines p) = map (\<lambda>l. Inr (nl_currency l)) ls" .
  then show ?thesis
    using holds_stored [OF content] normalize_lines_asks [OF norm] normalize_lines_currency [OF norm]
    by simp
qed

text \<open>A journal of two lines moves an amount from one account to another.\<close>

definition moves :: "string \<Rightarrow> string \<Rightarrow> int \<Rightarrow> string \<Rightarrow> string \<Rightarrow> string \<Rightarrow> int" where
  "moves to_account from_account amount currency a c =
     (if c = currency then (if a = to_account then amount else 0) - (if a = from_account then amount else 0) else 0)"

lemma two_lines_net:
  assumes post: "post_journal_in_tx E book new ro s = Inr (p, s')"
    and lines: "nj_lines new = [trade_line d x y currency w, trade_line k y x currency w']"
    and code: "normalize_currency_code raw = Inr currency"
  shows "net_in a c (pj_lines p) = moves (ca_id d) (ca_id k) (x - y) currency a c" and "one_side x y"
proof -
  from posted_says [OF post] obtain u v where uv: "pj_lines p = [u, v]"
    and u: "holds_line u = asks (trade_line d x y currency w)"
    and v: "holds_line v = asks (trade_line k y x currency w')"
    and cur: "Inr (jl_currency u) = normalize_currency_code currency" "Inr (jl_currency v) = normalize_currency_code currency"
    by (auto simp: lines map_eq_Cons_conv trade_line_def)
  then show "net_in a c (pj_lines p) = moves (ca_id d) (ca_id k) (x - y) currency a c"
    using normalize_currency_idem [OF code] by (auto simp: net_in_def moves_def asks_def holds_line_def trade_line_def)
  show "one_side x y"
    using posted_lines_ok(2) [OF post] u by (auto simp: uv line_ok_def holds_line_def asks_def trade_line_def)
qed

lemmas two_lines_move = two_lines_net(1) [where x = amount and y = 0 for amount, simplified]

section \<open>Order totals\<close>

text \<open>\<^verbatim>\<open>line_totals\<close> of \<^verbatim>\<open>repo/sales.rs\<close>: subtotal, tax per line, and their sum.\<close>

definition line_totals :: "(int \<times> int \<times> int) list \<Rightarrow> sales_order_totals" where
  "line_totals lines_in =
     (let (subtotal, tax) = foldl (\<lambda>(subtotal, tax) (quantity, unit_price_minor, tax_rate_bps).
            let line_subtotal = wrap64 (quantity * unit_price_minor)
            in (wrap64 (subtotal + line_subtotal), wrap64 (tax + vat_on_net line_subtotal tax_rate_bps)))
          (0, 0) lines_in
      in \<lparr>sot_subtotal_minor = subtotal, sot_tax_minor = tax, sot_total_minor = wrap64 (subtotal + tax)\<rparr>)"

definition line_net :: "int \<times> int \<times> int \<Rightarrow> int" where
  "line_net l = (case l of (q, p, bps) \<Rightarrow> wrap64 (q * p))"

definition line_vat :: "int \<times> int \<times> int \<Rightarrow> int" where
  "line_vat l = (case l of (q, p, bps) \<Rightarrow> vat_on_net (wrap64 (q * p)) bps)"

lemma wrap64_add_cong: "wrap64 a = wrap64 b \<Longrightarrow> wrap64 (c + a) = wrap64 (c + b)"
  by (metis wrap64_add_right)

lemma line_totals_fold:
  "foldl (\<lambda>(subtotal, tax) (quantity, unit_price_minor, tax_rate_bps).
      let line_subtotal = wrap64 (quantity * unit_price_minor)
      in (wrap64 (subtotal + line_subtotal), wrap64 (tax + vat_on_net line_subtotal tax_rate_bps)))
    (wrap64 a, wrap64 b) ls
   = (wrap64 (a + sum_list (map line_net ls)), wrap64 (b + sum_list (map line_vat ls)))"
proof (induction ls arbitrary: a b)
  case Nil
  then show ?case by simp
next
  case (Cons l ls)
  obtain q p bps where l: "l = (q, p, bps)" by (cases l) auto
  show ?case
    using Cons [of "a + line_net l" "b + line_vat l"]
    by (simp add: l Let_def line_net_def line_vat_def add.assoc)
qed

lemma line_totals_eq:
  "line_totals ls = \<lparr>sot_subtotal_minor = wrap64 (sum_list (map line_net ls)),
     sot_tax_minor = wrap64 (sum_list (map line_vat ls)),
     sot_total_minor = wrap64 (sum_list (map line_net ls) + sum_list (map line_vat ls))\<rparr>"
  using line_totals_fold [of 0 0 ls]
  by (simp add: line_totals_def in_i64_def i64_min_def i64_max_def)

lemma wrap_bt_entry:
  fixes net vat :: int
  defines "f \<equiv> \<lambda>(n, v). (wrap64 (n + net), wrap64 (v + vat))"
  shows "wrap64 (sum_list (map (\<lambda>g. fst (snd g)) (bt_entry k (0, 0) f m)))
       = wrap64 (sum_list (map (\<lambda>g. fst (snd g)) m) + net)"
    and "wrap64 (sum_list (map (\<lambda>g. snd (snd g)) (bt_entry k (0, 0) f m)))
       = wrap64 (sum_list (map (\<lambda>g. snd (snd g)) m) + vat)"
proof (induction m)
  case Nil
  case 1 show ?case by (simp add: f_def)
  case 2 show ?case by (simp add: f_def)
next
  case (Cons g m)
  obtain k' n v where g: "g = (k', n, v)" by (cases g) auto
  case 1
  show ?case
    using wrap64_add_cong [OF Cons(1), of n] by (auto simp: g f_def) (simp_all add: ac_simps)
  case 2
  show ?case
    using wrap64_add_cong [OF Cons(2), of v] by (auto simp: g f_def) (simp_all add: ac_simps)
qed

lemma vat_groups_sums:
  "i64_sum (map (\<lambda>g. fst (snd g)) (vat_groups ls)) = wrap64 (sum_list (map line_net ls))
   \<and> i64_sum (map (\<lambda>g. snd (snd g)) (vat_groups ls)) = wrap64 (sum_list (map line_vat ls))"
proof -
  let ?step = "\<lambda>(quantity, unit_price_minor, tax_rate_bps).
         let net = wrap64 (quantity * unit_price_minor);
             vat = vat_on_net net tax_rate_bps
         in bt_entry tax_rate_bps (0, 0) (\<lambda>(n, v). (wrap64 (n + net), wrap64 (v + vat)))"
  have "wrap64 (sum_list (map (\<lambda>g. fst (snd g)) (fold ?step ls m)))
        = wrap64 (sum_list (map (\<lambda>g. fst (snd g)) m) + sum_list (map line_net ls))
      \<and> wrap64 (sum_list (map (\<lambda>g. snd (snd g)) (fold ?step ls m)))
        = wrap64 (sum_list (map (\<lambda>g. snd (snd g)) m) + sum_list (map line_vat ls))" for m
  proof (induction ls arbitrary: m)
    case Nil
    then show ?case by simp
  next
    case (Cons l ls)
    obtain q p bps where l: "l = (q, p, bps)" by (cases l) auto
    let ?net = "wrap64 (q * p)"
    let ?m = "bt_entry bps (0, 0) (\<lambda>(n, v). (wrap64 (n + ?net), wrap64 (v + vat_on_net ?net bps))) m"
    have "wrap64 (sum_list (map (\<lambda>g. fst (snd g)) ?m) + x)
        = wrap64 (sum_list (map (\<lambda>g. fst (snd g)) m) + ?net + x)" for x
      using wrap64_add_cong [OF wrap_bt_entry(1), of x bps ?net "vat_on_net ?net bps" m]
      by (simp only: add.commute [of x])
    moreover have "wrap64 (sum_list (map (\<lambda>g. snd (snd g)) ?m) + x)
        = wrap64 (sum_list (map (\<lambda>g. snd (snd g)) m) + vat_on_net ?net bps + x)" for x
      using wrap64_add_cong [OF wrap_bt_entry(2), of x bps ?net "vat_on_net ?net bps" m]
      by (simp only: add.commute [of x])
    ultimately show ?case
      using Cons [of ?m] by (simp add: l Let_def line_net_def line_vat_def add.assoc)
  qed
  from this [of "[]"] show ?thesis by (simp add: i64_sum_eq vat_groups_def)
qed

section \<open>Correctness of the generated journals\<close>

text \<open>
  A goods receipt that posts a journal moves the inventory account up, and the payables
  account down, by exactly the receipt's quantity times the line's price, in the order's
  currency: a negative receipt swaps the sides instead of storing a negative amount.
\<close>

theorem receipt_journal_values_the_receipt:
  assumes "post_po_receipt_journal E book receipt item cur s = Inr (Some p, s')"
    and "in_i64 (poi_unit_price_minor item * pr_qty receipt)"
    and "in_i64 \<bar>poi_unit_price_minor item * pr_qty receipt\<bar>"
    and "normalize_currency_code cur = Inr c"
  shows "\<exists>inventory ap. coa_by_code_opt s (bk_id book) COA_CODE_INVENTORY = Some inventory
    \<and> coa_by_code_opt s (bk_id book) COA_CODE_AP = Some ap
    \<and> (ca_id inventory \<noteq> ca_id ap \<longrightarrow>
        net_in (ca_id inventory) c (pj_lines p) = poi_unit_price_minor item * pr_qty receipt
        \<and> net_in (ca_id ap) c (pj_lines p) = - (poi_unit_price_minor item * pr_qty receipt))
    \<and> (\<forall>l \<in> set (pj_lines p). 0 \<le> jl_debit_minor l \<and> 0 \<le> jl_credit_minor l)"
proof -
  let ?cost = "poi_unit_price_minor item * pr_qty receipt"
  have wrap: "wrap64 ?cost = ?cost" "i64_abs ?cost = \<bar>?cost\<bar>"
    using assms(2,3) by (simp_all add: i64_abs_def)
  from assms(1) obtain inventory ap where acc: "two_accounts s (bk_id book) COA_CODE_INVENTORY COA_CODE_AP
      = Some (inventory, ap)" and nz: "?cost \<noteq> 0"
    by (auto simp: post_po_receipt_journal_def wrap Let_def split: if_splits option.splits)
  define new where "new = \<lparr>nj_book_id = bk_id book, nj_posted_date = take 10 (pr_created_at receipt),
      nj_narrative = Some ''Goods receipt'', nj_reference = Some (pr_id receipt),
      nj_source_type = JS_PoReceipt, nj_source_id = Some (pr_id receipt),
      nj_lines = [trade_line inventory (max ?cost 0) (max (- ?cost) 0) c (pr_note receipt),
                  trade_line ap (max (- ?cost) 0) (max ?cost 0) c (pr_note receipt)]\<rparr>"
  have post: "post_journal_in_tx E book new None s = Inr (p, s')"
  proof (cases "0 < ?cost")
    case True
    then show ?thesis
      using assms(1,4) acc nz by (simp add: post_po_receipt_journal_def wrap post_some_Inr new_def Let_def)
  next
    case False
    with nz have "?cost < 0" by linarith
    then show ?thesis
      using assms(1,4) acc nz by (simp add: post_po_receipt_journal_def wrap post_some_Inr new_def Let_def)
  qed
  from posted_says [OF post] obtain l1 l2 where lines: "pj_lines p = [l1, l2]"
    and l1: "holds_line l1 = asks (trade_line inventory (max ?cost 0) (max (- ?cost) 0) c (pr_note receipt))"
    and l2: "holds_line l2 = asks (trade_line ap (max (- ?cost) 0) (max ?cost 0) c (pr_note receipt))"
    and cur: "Inr (jl_currency l1) = normalize_currency_code c" "Inr (jl_currency l2) = normalize_currency_code c"
    by (auto simp: new_def trade_line_def map_eq_Cons_conv)
  have curs: "jl_currency l1 = c" "jl_currency l2 = c"
    using cur normalize_currency_idem [OF assms(4)] by auto
  have net: "net_in (ca_id inventory) c (pj_lines p) = ?cost \<and> net_in (ca_id ap) c (pj_lines p) = - ?cost"
    if "ca_id inventory \<noteq> ca_id ap"
  proof -
    have "max ?cost 0 - max (- ?cost) 0 = ?cost" by (simp add: max_def)
    then show ?thesis
      using that l1 l2 curs by (simp add: lines net_in_def holds_line_def asks_def trade_line_def)
  qed
  have "\<forall>l \<in> set (pj_lines p). 0 \<le> jl_debit_minor l \<and> 0 \<le> jl_credit_minor l"
    using l1 l2 by (simp add: lines holds_line_def asks_def trade_line_def)
  then show ?thesis
    using acc net by (auto simp: two_accounts_def split: option.splits)
qed

text \<open>
  What a receipt does to the ledger of book \<^verbatim>\<open>b\<close>: nothing when it is worth nothing or the book
  lacks one of the two accounts, and otherwise one journal, of the receipt, that moves its value
  from payables to inventory.
\<close>

definition receipt_posts :: "db \<Rightarrow> string \<Rightarrow> po_receipt \<Rightarrow> int \<Rightarrow> string \<Rightarrow> db \<Rightarrow> bool" where
  "receipt_posts s b r price cur s' \<longleftrightarrow>
     (let cost = wrap64 (price * pr_qty r)
      in case (if cost = 0 then None else two_accounts s b COA_CODE_INVENTORY COA_CODE_AP) of
           None \<Rightarrow> db_journals s' = db_journals s \<and> db_lines s' = db_lines s
         | Some (inventory, ap) \<Rightarrow> \<exists>(q :: posted_journal) c.
             db_journals s' = db_journals s @ [pj_journal q] \<and> db_lines s' = db_lines s @ pj_lines q
             \<and> jn_book_id (pj_journal q) = b \<and> jn_source_type (pj_journal q) = JS_PoReceipt
             \<and> jn_source_id (pj_journal q) = Some (pr_id r)
             \<and> jn_posted_date (pj_journal q) = take 10 (pr_created_at r)
             \<and> normalize_currency_code cur = Inr c
             \<and> (\<forall>a c'. account_net s' a c' = account_net s a c'
                  + moves (ca_id inventory) (ca_id ap) cost c a c'))"

lemma positive_abs:
  assumes "in_i64 x" and "x < 0" and "0 < i64_abs x"
  shows "i64_abs x = - x"
proof (cases "x = i64_min")
  case True
  have "i64_abs i64_min = i64_min" by code_simp
  with assms(3) True show ?thesis by (simp add: i64_min_def)
next
  case False
  with assms(1,2) have "in_i64 (- x)" by (simp add: in_i64_def i64_min_def i64_max_def)
  then show ?thesis using assms(2) by (simp add: i64_abs_def)
qed

lemma post_po_receipt_posts:
  assumes post: "post_po_receipt_journal E book r item cur t = Inr (po, s')" and b: "bk_id book = b"
    and t: "db_journals t = db_journals s" "db_lines t = db_lines s" "db_coa t = db_coa s"
  shows "receipt_posts s b r (poi_unit_price_minor item) cur s'"
proof -
  let ?cost = "wrap64 (poi_unit_price_minor item * pr_qty r)"
  have acc: "two_accounts t (bk_id book) c1 c2 = two_accounts s b c1 c2" for c1 c2
    by (simp add: two_accounts_def coa_by_code_opt_def get_coa_by_code_def t b)
  show ?thesis
  proof (cases "if ?cost = 0 then None else two_accounts s b COA_CODE_INVENTORY COA_CODE_AP")
    case None
    then have "s' = t" using post by (auto simp: post_po_receipt_journal_def acc Let_def split: if_splits)
    then show ?thesis using None by (simp add: receipt_posts_def Let_def t)
  next
    case (Some pair)
    obtain inv ap where pair: "pair = (inv, ap)" by (cases pair)
    from Some have nz: "?cost \<noteq> 0" and two: "two_accounts s b COA_CODE_INVENTORY COA_CODE_AP = Some (inv, ap)"
      by (auto simp: pair split: if_splits)
    let ?x = "if 0 < ?cost then i64_abs ?cost else 0" and ?y = "if 0 < ?cost then 0 else i64_abs ?cost"
    let ?new = "\<lambda>c. \<lparr>nj_book_id = bk_id book, nj_posted_date = take 10 (pr_created_at r),
        nj_narrative = Some ''Goods receipt'', nj_reference = Some (pr_id r),
        nj_source_type = JS_PoReceipt, nj_source_id = Some (pr_id r),
        nj_lines = [trade_line inv ?x ?y c (pr_note r), trade_line ap ?y ?x c (pr_note r)]\<rparr>"
    from post obtain c where code: "normalize_currency_code cur = Inr c"
      and some: "post_some E book (?new c) t = Inr (po, s')"
      using nz by (cases "0 < ?cost") (auto simp: post_po_receipt_journal_def acc two Let_def attempt_eq_Inr)
    from some obtain q where po: "po = Some q" and journal: "post_journal_in_tx E book (?new c) None t = Inr (q, s')"
      by (auto simp: post_some_Inr)
    have "one_side ?x ?y" by (rule two_lines_net(2) [OF journal _ code]) simp
    then have "?x - ?y = ?cost"
      using nz positive_abs [of ?cost] by (cases "0 < ?cost") (auto simp: one_side_def i64_abs_def)
    then have net: "net_in a c' (pj_lines q) = moves (ca_id inv) (ca_id ap) ?cost c a c'" for a c'
      using two_lines_net(1) [OF journal _ code, of inv ?x ?y "pr_note r" ap "pr_note r" a c'] by simp
    from journal obtain ls where row: "pj_journal q = journal_row E book (?new c) None t"
      and "db_journals s' = db_journals t @ [pj_journal q]" and "db_lines s' = db_lines t @ pj_lines q"
      by (rule post_journal_effect)
    then have "db_journals s' = db_journals s @ [pj_journal q] \<and> db_lines s' = db_lines s @ pj_lines q
        \<and> (\<forall>a c'. account_net s' a c' = account_net s a c' + moves (ca_id inv) (ca_id ap) ?cost c a c')"
      by (simp add: t account_net_def net)
    moreover have "jn_book_id (pj_journal q) = b \<and> jn_source_type (pj_journal q) = JS_PoReceipt
        \<and> jn_source_id (pj_journal q) = Some (pr_id r) \<and> jn_posted_date (pj_journal q) = take 10 (pr_created_at r)"
      by (simp add: row b)
    ultimately show ?thesis using nz two code unfolding receipt_posts_def Let_def by auto
  qed
qed

definition sample_item :: purchase_order_item where
  "sample_item = \<lparr>poi_id = ''it'', poi_purchase_order_id = ''po'', poi_book_id = ''b'', poi_variant_id = ''v1'',
     poi_qty_ordered = 10, poi_unit_price_minor = 250, poi_total_minor = 2500, poi_created_at = ''2026'',
     poi_updated_at = ''2026''\<rparr>"

definition sample_receipt :: "int \<Rightarrow> po_receipt" where
  "sample_receipt q = \<lparr>pr_id = ''rc'', pr_book_id = ''b'', pr_purchase_order_item_id = ''it'',
     pr_location_id = ''l1'', pr_qty = q, pr_note = None, pr_received_by = None,
     pr_created_at = ''2026-02-03T10:00:00Z''\<rparr>"

definition sample_receipt_journal :: "(posted_journal option \<times> db) res" where
  "sample_receipt_journal =
     post_po_receipt_journal sample_env sample_book (sample_receipt (-2)) sample_item ''zar'' sample_db"

lemma receipt_journal_values_the_receipt_witness:
  "\<exists>p. out_of sample_receipt_journal = Some p \<and> net_in ''c1200'' ''ZAR'' (pj_lines p) = -500"
proof -
  have "case sample_receipt_journal of Inl e \<Rightarrow> False | Inr (po, s') \<Rightarrow> po \<noteq> None" by code_simp
  then obtain p s' where r: "sample_receipt_journal = Inr (Some p, s')"
    by (auto split: sum.splits prod.splits)
  have hyps: "in_i64 (poi_unit_price_minor sample_item * pr_qty (sample_receipt (-2)))"
    "in_i64 \<bar>poi_unit_price_minor sample_item * pr_qty (sample_receipt (-2))\<bar>"
    "normalize_currency_code ''zar'' = Inr ''ZAR''"
    "coa_by_code_opt sample_db (bk_id sample_book) COA_CODE_INVENTORY = Some (sample_account ''1200'' CK_Asset)"
    "coa_by_code_opt sample_db (bk_id sample_book) COA_CODE_AP = Some (sample_account ''2000'' CK_Liability)"
    by code_simp+
  from receipt_journal_values_the_receipt [OF r [unfolded sample_receipt_journal_def] hyps(1-3)] hyps(4,5)
  have "net_in ''c1200'' ''ZAR'' (pj_lines p) = -500"
    by (simp add: sample_account_def sample_item_def sample_receipt_def)
  moreover have "out_of sample_receipt_journal = Some p" by (simp add: r out_of_def)
  ultimately show ?thesis by blast
qed

text \<open>Credits tagged with a VAT role.\<close>

definition credited :: "vat_role \<Rightarrow> journal_line list \<Rightarrow> int" where
  "credited role ls = sum_list (map jl_credit_minor (filter (\<lambda>l. jl_vat_role l = Some role) ls))"

definition to_credit :: "vat_role \<Rightarrow> new_journal_line list \<Rightarrow> int" where
  "to_credit role ls = sum_list (map nl_credit_minor (filter (\<lambda>l. nl_vat_role l = Some role) ls))"

lemma credited_says: "map holds_line st = map asks ls \<Longrightarrow> credited role st = to_credit role ls"
proof (induction ls arbitrary: st)
  case Nil
  then show ?case by (simp add: credited_def to_credit_def)
next
  case (Cons l ls)
  then obtain x st' where st: "st = x # st'" and x: "holds_line x = asks l"
    and rest: "map holds_line st' = map asks ls"
    by (cases st) auto
  show ?case using Cons.IH [OF rest] x by (simp add: st credited_def to_credit_def holds_line_def asks_def)
qed

lemma group_lines_Inr:
  "group_lines rates revenue control currency groups = Inr ls \<Longrightarrow>
     to_credit VR_OutputBase ls = sum_list (map (\<lambda>g. fst (snd g)) groups)
     \<and> to_credit VR_OutputVat ls = sum_list (map (\<lambda>g. snd (snd g)) groups)
     \<and> (\<forall>l \<in> set ls. nl_debit_minor l = 0 \<and> nl_currency l = currency
          \<and> (nl_vat_role l = Some VR_OutputBase \<and> nl_coa_id l = ca_id revenue
             \<or> nl_vat_role l = Some VR_OutputVat \<and> map_option ca_id control = Some (nl_coa_id l)))"
proof (induction rates revenue control currency groups arbitrary: ls rule: group_lines.induct)
  case (1 rates revenue control currency)
  then show ?case by (simp add: to_credit_def)
next
  case (2 rates revenue control currency bps net vat groups)
  let ?rate = "map_option vr_id (rate_for rates bps)"
  from 2(2) obtain tax rest where
    tax: "(if vat \<noteq> 0 then (case control of None \<Rightarrow> Inl (Panic ''need_vat_control guaranteed Some above'')
             | Some c \<Rightarrow> Inr [vat_line c vat currency ?rate VR_OutputVat]) else Inr []) = Inr tax"
    and rest: "group_lines rates revenue control currency groups = Inr rest"
    and ls: "ls = (if net \<noteq> 0 then [vat_line revenue net currency ?rate VR_OutputBase] else []) @ tax @ rest"
    by (auto simp: Let_def attempt_eq_Inr)
  have t: "to_credit VR_OutputVat tax = vat \<and> to_credit VR_OutputBase tax = 0
      \<and> (\<forall>l \<in> set tax. nl_debit_minor l = 0 \<and> nl_currency l = currency
           \<and> nl_vat_role l = Some VR_OutputVat \<and> map_option ca_id control = Some (nl_coa_id l))"
    using tax by (auto simp: to_credit_def vat_line_def split: if_splits option.splits)
  show ?case
    using t 2(1) [OF refl refl rest] tax
    by (auto simp: ls to_credit_def vat_line_def)
qed

lemma revenue_journal_lines:
  assumes "post_revenue_ar_journal E book currency ls d narrative reference ty src s = Inr (Some p, s')"
  shows "\<exists>ar l rest. coa_by_code_opt s (bk_id book) COA_CODE_AR = Some ar \<and> pj_lines p = l # rest
    \<and> jl_coa_id l = ca_id ar \<and> jl_debit_minor l = sot_total_minor (line_totals ls) \<and> jl_credit_minor l = 0
    \<and> (\<forall>r \<in> set rest. jl_debit_minor r = 0 \<and> jl_vat_role r \<in> {Some VR_OutputBase, Some VR_OutputVat})
    \<and> wrap64 (credited VR_OutputBase rest) = sot_subtotal_minor (line_totals ls)
    \<and> wrap64 (credited VR_OutputVat rest) = sot_tax_minor (line_totals ls)
    \<and> balanced (pj_lines p)"
proof -
  from assms obtain ar revenue control rates ng where
    acc: "two_accounts s (bk_id book) COA_CODE_AR COA_CODE_REVENUE = Some (ar, revenue)"
    and g: "group_lines rates revenue control currency (vat_groups ls) = Inr ng"
    and post: "post_journal_in_tx E book
          \<lparr>nj_book_id = bk_id book, nj_posted_date = d, nj_narrative = Some narrative,
           nj_reference = Some reference, nj_source_type = ty, nj_source_id = Some src,
           nj_lines = trade_line ar (wrap64 (i64_sum (map (\<lambda>g. fst (snd g)) (vat_groups ls))
               + i64_sum (map (\<lambda>g. snd (snd g)) (vat_groups ls)))) 0 currency (Some narrative) # ng\<rparr>
          None s = Inr (p, s')"
    by (auto simp: post_revenue_ar_journal_def Let_def attempt_eq_Inr post_some_Inr
        split: if_splits option.splits)
  let ?gross = "wrap64 (sum_list (map line_net ls) + sum_list (map line_vat ls))"
  from posted_says [OF post] obtain l rest where lines: "pj_lines p = l # rest"
    and l: "holds_line l = asks (trade_line ar ?gross 0 currency (Some narrative))"
    and rest: "map holds_line rest = map asks ng"
    by (auto simp: vat_groups_sums map_eq_Cons_conv)
  note gl = group_lines_Inr [OF g]
  have "\<forall>r \<in> set rest. jl_debit_minor r = 0 \<and> jl_vat_role r \<in> {Some VR_OutputBase, Some VR_OutputVat}"
  proof
    fix r
    assume "r \<in> set rest"
    then have "holds_line r \<in> asks ` set ng" using rest by (metis image_eqI image_set)
    with gl show "jl_debit_minor r = 0 \<and> jl_vat_role r \<in> {Some VR_OutputBase, Some VR_OutputVat}"
      by (auto simp: holds_line_def asks_def)
  qed
  moreover have "wrap64 (credited VR_OutputBase rest) = wrap64 (sum_list (map line_net ls))
      \<and> wrap64 (credited VR_OutputVat rest) = wrap64 (sum_list (map line_vat ls))"
    using gl credited_says [OF rest] vat_groups_sums [of ls] by (simp add: i64_sum_eq)
  ultimately show ?thesis
    using acc l posted_lines_ok(1) [OF post]
    by (auto simp: lines line_totals_eq holds_line_def asks_def trade_line_def two_accounts_def
        split: option.splits)
qed

text \<open>
  What a sale does to the ledger of book \<^verbatim>\<open>b\<close>: nothing when its total is zero or the book lacks an
  account it needs (the VAT control account only when there is tax), and otherwise one journal,
  of the sale, that moves the total onto receivables, the subtotal off revenue and the tax off the
  control account.
\<close>

definition sale_accounts ::
    "db \<Rightarrow> string \<Rightarrow> sales_order_totals \<Rightarrow> (coa_account \<times> coa_account \<times> coa_account option) option" where
  "sale_accounts s b t =
     (if sot_total_minor t = 0 then None
      else case two_accounts s b COA_CODE_AR COA_CODE_REVENUE of
             None \<Rightarrow> None
           | Some (ar, revenue) \<Rightarrow>
               if sot_tax_minor t = 0 then Some (ar, revenue, None)
               else map_option (\<lambda>control. (ar, revenue, Some control)) (coa_by_code_opt s b COA_CODE_VAT_OUTPUT))"

definition tax_account :: "coa_account option \<Rightarrow> string \<Rightarrow> bool" where
  "tax_account control a \<longleftrightarrow> (case control of None \<Rightarrow> False | Some k \<Rightarrow> ca_id k = a)"

definition sale_moves ::
    "coa_account \<Rightarrow> coa_account \<Rightarrow> coa_account option \<Rightarrow> sales_order_totals \<Rightarrow> string \<Rightarrow> string \<Rightarrow> string \<Rightarrow> int" where
  "sale_moves ar revenue control t currency a c =
     (if c = currency
      then (if a = ca_id ar then sot_total_minor t else 0) - (if a = ca_id revenue then sot_subtotal_minor t else 0)
           - (if tax_account control a then sot_tax_minor t else 0)
      else 0)"

definition revenue_posts ::
    "db \<Rightarrow> string \<Rightarrow> sales_order_totals \<Rightarrow> string \<Rightarrow> string \<Rightarrow> string \<Rightarrow> db \<Rightarrow> bool" where
  "revenue_posts s b t cur src d s' \<longleftrightarrow>
     (case sale_accounts s b t of
        None \<Rightarrow> db_journals s' = db_journals s \<and> db_lines s' = db_lines s
      | Some (ar, revenue, control) \<Rightarrow> \<exists>(q :: posted_journal) c.
          db_journals s' = db_journals s @ [pj_journal q] \<and> db_lines s' = db_lines s @ pj_lines q
          \<and> jn_book_id (pj_journal q) = b \<and> jn_source_type (pj_journal q) = JS_SalesRevenue
          \<and> jn_source_id (pj_journal q) = Some src \<and> jn_posted_date (pj_journal q) = d
          \<and> normalize_currency_code cur = Inr c
          \<and> (\<forall>a c'. account_net s' a c' = account_net s a c' + sale_moves ar revenue control t c a c'))"

lemma revenue_posts_cong:
  assumes "db_journals s'' = db_journals s'" and "db_lines s'' = db_lines s'"
  shows "revenue_posts s b t cur src d s'' = revenue_posts s b t cur src d s'"
proof -
  have net: "account_net s'' = account_net s'" by (simp add: account_net_def assms(2) fun_eq_iff)
  show ?thesis unfolding revenue_posts_def assms net ..
qed

definition net_asked :: "string \<Rightarrow> new_journal_line list \<Rightarrow> int" where
  "net_asked a ls = sum_list (map (\<lambda>l. nl_debit_minor l - nl_credit_minor l) (filter (\<lambda>l. nl_coa_id l = a) ls))"

lemma net_in_says:
  assumes "map holds_line st = map asks ls" and "\<forall>l \<in> set st. jl_currency l = cur"
  shows "net_in a c st = (if c = cur then net_asked a ls else 0)"
  using assms
proof (induction ls arbitrary: st)
  case Nil
  then show ?case by (simp add: net_in_def net_asked_def)
next
  case (Cons l ls)
  then obtain x st' where st: "st = x # st'" and x: "holds_line x = asks l" "jl_currency x = cur"
    and rest: "map holds_line st' = map asks ls" "\<forall>l \<in> set st'. jl_currency l = cur"
    by (cases st) auto
  show ?case
    using Cons.IH [OF rest] x by (auto simp: st net_in_def net_asked_def holds_line_def asks_def)
qed

lemma group_lines_sums:
  "group_lines rates revenue control currency groups = Inr ls \<Longrightarrow>
     net_asked a ls = - (if a = ca_id revenue then sum_list (map (\<lambda>g. fst (snd g)) groups) else 0)
       - (if tax_account control a then sum_list (map (\<lambda>g. snd (snd g)) groups) else 0)
     \<and> sum_list (map nl_credit_minor ls)
         = sum_list (map (\<lambda>g. fst (snd g)) groups) + sum_list (map (\<lambda>g. snd (snd g)) groups)
     \<and> sum_list (map nl_debit_minor ls) = 0"
proof (induction rates revenue control currency groups arbitrary: ls rule: group_lines.induct)
  case (1 rates revenue control currency)
  then show ?case by (simp add: net_asked_def)
next
  case (2 rates revenue control currency bps net vat groups)
  let ?rate = "map_option vr_id (rate_for rates bps)"
  from 2(2) obtain tax rest where
    tax: "(if vat \<noteq> 0 then (case control of None \<Rightarrow> Inl (Panic ''need_vat_control guaranteed Some above'')
             | Some c \<Rightarrow> Inr [vat_line c vat currency ?rate VR_OutputVat]) else Inr []) = Inr tax"
    and rest: "group_lines rates revenue control currency groups = Inr rest"
    and ls: "ls = (if net \<noteq> 0 then [vat_line revenue net currency ?rate VR_OutputBase] else []) @ tax @ rest"
    by (auto simp: Let_def attempt_eq_Inr)
  have t: "net_asked a tax = - (if tax_account control a then vat else 0)
      \<and> sum_list (map nl_credit_minor tax) = vat \<and> sum_list (map nl_debit_minor tax) = 0"
    using tax by (auto simp: tax_account_def net_asked_def vat_line_def split: if_splits option.splits)
  have "net_asked a ls = - (if a = ca_id revenue then net else 0) + net_asked a tax + net_asked a rest"
    by (simp add: ls net_asked_def vat_line_def)
  moreover have "sum_list (map nl_credit_minor ls) = net + sum_list (map nl_credit_minor tax)
      + sum_list (map nl_credit_minor rest)"
    by (simp add: ls vat_line_def)
  moreover have "sum_list (map nl_debit_minor ls) = 0"
    using t 2(1) [OF refl refl rest] by (simp add: ls vat_line_def)
  ultimately show ?case
    using t 2(1) [OF refl refl rest]
    by (cases "tax_account control a"; cases "a = ca_id revenue") simp_all
qed

lemma says_sums:
  "map holds_line st = map asks ls \<Longrightarrow>
     sum_list (map jl_debit_minor st) = sum_list (map nl_debit_minor ls)
     \<and> sum_list (map jl_credit_minor st) = sum_list (map nl_credit_minor ls)"
proof (induction ls arbitrary: st)
  case (Cons l ls)
  then show ?case by (cases st) (auto simp: holds_line_def asks_def)
qed simp

lemma balanced_sums:
  assumes "balanced ls" and "\<forall>l \<in> set ls. jl_currency l = cur"
  shows "sum_list (map jl_debit_minor ls) = sum_list (map jl_credit_minor ls)"
proof -
  have "filter (\<lambda>l. jl_currency l = cur) ls = ls" using assms(2) by (simp add: filter_id_conv)
  moreover have "debits_in cur ls = credits_in cur ls" using assms(1) by (simp add: balanced_iff)
  ultimately show ?thesis by (simp add: debits_in_def credits_in_def)
qed

lemma to_credit_nonneg: "\<forall>l \<in> set ls. 0 \<le> nl_credit_minor l \<Longrightarrow> 0 \<le> to_credit role ls"
  unfolding to_credit_def by (intro sum_list_nonneg) auto

lemma post_revenue_posts:
  assumes post: "post_revenue_ar_journal E book cur ls d narrative reference JS_SalesRevenue src u = Inr (po, s')"
    and b: "bk_id book = b"
    and u: "db_journals u = db_journals s" "db_lines u = db_lines s" "db_coa u = db_coa s"
  shows "revenue_posts s b (line_totals ls) cur src d s'"
proof -
  let ?t = "line_totals ls" and ?groups = "vat_groups ls"
  let ?net = "sum_list (map (\<lambda>g. fst (snd g)) ?groups)" and ?vat = "sum_list (map (\<lambda>g. snd (snd g)) ?groups)"
  have acc: "two_accounts u (bk_id book) c1 c2 = two_accounts s b c1 c2"
    "coa_by_code_opt u (bk_id book) c1 = coa_by_code_opt s b c1" for c1 c2
    by (simp_all add: two_accounts_def coa_by_code_opt_def get_coa_by_code_def u b)
  have totals: "i64_sum (map (\<lambda>g. fst (snd g)) ?groups) = sot_subtotal_minor ?t"
    "i64_sum (map (\<lambda>g. snd (snd g)) ?groups) = sot_tax_minor ?t"
    "wrap64 (sot_subtotal_minor ?t + sot_tax_minor ?t) = sot_total_minor ?t"
    by (simp_all add: vat_groups_sums line_totals_eq)
  let ?control = "if sot_tax_minor ?t \<noteq> 0 then coa_by_code_opt s b COA_CODE_VAT_OUTPUT else None"
  show ?thesis
  proof (cases "sale_accounts s b ?t")
    case None
    then have "s' = u"
      using post unfolding post_revenue_ar_journal_def Let_def totals acc
      by (auto simp: sale_accounts_def split: if_splits option.splits)
    then show ?thesis using None by (simp add: revenue_posts_def u)
  next
    case (Some pick)
    obtain ar revenue control where pick: "pick = (ar, revenue, control)" by (cases pick)
    from Some have nz: "sot_total_minor ?t \<noteq> 0" and two: "two_accounts s b COA_CODE_AR COA_CODE_REVENUE = Some (ar, revenue)"
      and control: "control = ?control" "sot_tax_minor ?t \<noteq> 0 \<longrightarrow> control \<noteq> None"
      by (auto simp: sale_accounts_def pick split: if_splits option.splits)
    let ?new = "\<lambda>ng. \<lparr>nj_book_id = bk_id book, nj_posted_date = d, nj_narrative = Some narrative,
        nj_reference = Some reference, nj_source_type = JS_SalesRevenue, nj_source_id = Some src,
        nj_lines = trade_line ar (sot_total_minor ?t) 0 cur (Some narrative) # ng\<rparr>"
    from post nz two control obtain ng q where
      g: "group_lines (list_vat_rates u (bk_id book)) revenue control cur ?groups = Inr ng"
      and journal: "post_journal_in_tx E book (?new ng) None u = Inr (q, s')"
      unfolding post_revenue_ar_journal_def Let_def totals acc
      by (auto simp: attempt_eq_Inr post_some_Inr split: if_splits)
    from posted_says [OF journal] obtain l rest where lines: "pj_lines q = l # rest"
      and l: "holds_line l = asks (trade_line ar (sot_total_minor ?t) 0 cur (Some narrative))"
      and rest: "map holds_line rest = map asks ng"
      and cl: "Inr (jl_currency l) = normalize_currency_code cur"
      and cr: "map (\<lambda>l. Inr (jl_currency l)) rest = map (\<lambda>l. normalize_currency_code (nl_currency l)) ng"
      by (auto simp: map_eq_Cons_conv trade_line_def)
    let ?c = "jl_currency l"
    note gl = group_lines_Inr [OF g] and gs = group_lines_sums [OF g]
    have curs: "\<forall>x \<in> set (pj_lines q). jl_currency x = ?c"
    proof -
      have "(Inr (jl_currency x) :: string res) = Inr ?c" if "x \<in> set rest" for x
      proof -
        have "(Inr (jl_currency x) :: string res) \<in> set (map (\<lambda>l. normalize_currency_code (nl_currency l)) ng)"
          using that unfolding cr [symmetric] by auto
        then show ?thesis using gl cl by auto
      qed
      then show ?thesis by (auto simp: lines)
    qed
    have okl: "\<forall>x \<in> set (pj_lines q). line_ok x" using posted_lines_ok(2) [OF journal] by (simp add: list_all_iff)
    have pos: "\<forall>x \<in> set ng. 0 \<le> nl_credit_minor x"
    proof
      fix x assume "x \<in> set ng"
      then have "asks x \<in> holds_line ` set rest" by (metis rest image_eqI image_set)
      then show "0 \<le> nl_credit_minor x" using okl by (auto simp: lines line_ok_def one_side_def holds_line_def asks_def)
    qed
    have lv: "jl_debit_minor l = sot_total_minor ?t" "jl_credit_minor l = 0" "jl_coa_id l = ca_id ar"
      using l by (auto simp: holds_line_def asks_def trade_line_def)
    have nonneg: "0 \<le> ?net" "0 \<le> ?vat" using to_credit_nonneg [OF pos] gl by (metis)+
    have "sot_total_minor ?t = ?net + ?vat"
      using balanced_sums [OF posted_lines_ok(1) [OF journal] curs] says_sums [OF rest] gs [of a for a]
      by (simp add: lines lv)
    moreover have "sot_total_minor ?t \<le> MAX_LINE_AMOUNT_MINOR" using okl lv by (simp add: lines line_ok_def)
    ultimately have "in_i64 ?net" "in_i64 ?vat" using nonneg
      by (simp_all add: in_i64_def i64_min_def i64_max_def MAX_LINE_AMOUNT_MINOR_def)
    then have sums: "sot_subtotal_minor ?t = ?net" "sot_tax_minor ?t = ?vat"
      unfolding totals(1,2) [symmetric] by (simp_all add: i64_sum_eq)
    have net: "net_in a c' (pj_lines q) = sale_moves ar revenue control ?t ?c a c'" for a c'
    proof -
      have "net_in a c' rest = (if c' = ?c then net_asked a ng else 0)"
        using curs by (intro net_in_says [OF rest]) (simp add: lines)
      then show ?thesis
        using gs [of a] by (simp add: lines net_in_def [of a c' "l # rest"] net_in_def [symmetric] lv sale_moves_def sums)
    qed
    from journal obtain ls' where row: "pj_journal q = journal_row E book (?new ng) None u"
      and "db_journals s' = db_journals u @ [pj_journal q]" and "db_lines s' = db_lines u @ pj_lines q"
      by (rule post_journal_effect)
    then have "db_journals s' = db_journals s @ [pj_journal q] \<and> db_lines s' = db_lines s @ pj_lines q
        \<and> (\<forall>a c'. account_net s' a c' = account_net s a c' + sale_moves ar revenue control ?t ?c a c')"
      by (simp add: u account_net_def net)
    moreover have "jn_book_id (pj_journal q) = b \<and> jn_source_type (pj_journal q) = JS_SalesRevenue
        \<and> jn_source_id (pj_journal q) = Some src \<and> jn_posted_date (pj_journal q) = d"
      by (simp add: row b)
    ultimately show ?thesis using Some cl [symmetric] unfolding revenue_posts_def pick by auto
  qed
qed

text \<open>
  \<^bold>\<open>C6.\<close> The revenue journal and the totals shown on the document agree to the cent: the journal
  debits receivables with the document's total and nothing else, its other lines are credits to
  revenue and to the VAT control account whose amounts, per role, are the document's subtotal
  and tax (as 64-bit values), and debit and credit balance.
\<close>

theorem revenue_journal_matches_totals:
  assumes "post_revenue_ar_journal E book currency ls d narrative reference ty src s = Inr (Some p, s')"
  shows "\<exists>ar l rest. coa_by_code_opt s (bk_id book) COA_CODE_AR = Some ar \<and> pj_lines p = l # rest
    \<and> jl_coa_id l = ca_id ar \<and> jl_debit_minor l = sot_total_minor (line_totals ls) \<and> jl_credit_minor l = 0
    \<and> (\<forall>r \<in> set rest. jl_debit_minor r = 0 \<and> jl_vat_role r \<in> {Some VR_OutputBase, Some VR_OutputVat})
    \<and> wrap64 (credited VR_OutputBase rest) = sot_subtotal_minor (line_totals ls)
    \<and> wrap64 (credited VR_OutputVat rest) = sot_tax_minor (line_totals ls)
    \<and> balanced (pj_lines p)"
  using assms by (rule revenue_journal_lines)

definition sample_revenue_journal :: "(posted_journal option \<times> db) res" where
  "sample_revenue_journal = post_revenue_ar_journal sample_env sample_book ''ZAR''
     [(3, 1000, 1500), (2, 300, 0)] ''2026-02-03'' ''Sale'' ''o'' JS_SalesRevenue ''o'' sample_db"

lemma revenue_journal_matches_totals_witness:
  "\<exists>p l rest. out_of sample_revenue_journal = Some p \<and> pj_lines p = l # rest \<and> jl_debit_minor l = 4050"
proof -
  have "case sample_revenue_journal of Inl e \<Rightarrow> False | Inr (po, s') \<Rightarrow> po \<noteq> None" by code_simp
  then obtain p s' where r: "sample_revenue_journal = Inr (Some p, s')"
    by (auto split: sum.splits prod.splits)
  have "sot_total_minor (line_totals [(3, 1000, 1500), (2, 300, 0)]) = 4050" by code_simp
  with revenue_journal_matches_totals [OF r [unfolded sample_revenue_journal_def]]
  have "\<exists>l rest. pj_lines p = l # rest \<and> jl_debit_minor l = 4050" by metis
  moreover have "out_of sample_revenue_journal = Some p" by (simp add: r out_of_def)
  ultimately show ?thesis by blast
qed

section \<open>Cancelling an order\<close>

definition generated :: "db \<Rightarrow> string \<Rightarrow> bool" where
  "generated s k \<longleftrightarrow> list_ex (\<lambda>j. jn_id j = k \<and> jn_source_type j \<noteq> JS_Manual) (db_journals s)"

lemma journals_ok_reversal_manual:
  "journals_ok js \<Longrightarrow> j \<in> set js \<Longrightarrow> jn_reversal_of j \<noteq> None \<Longrightarrow> jn_source_type j = JS_Manual"
  by (induction js rule: rev_induct) auto

text \<open>A generated journal is nobody's reversal.\<close>

lemma generated_no_reversal:
  assumes "journals_ok (db_journals s)" and "generated s k"
  shows "find_reversal s x \<noteq> Some k"
proof
  assume "find_reversal s x = Some k"
  then obtain r where r: "r \<in> set (db_journals s)" "jn_id r = k" "jn_reversal_of r = Some x"
    by (auto simp: find_reversal_def dest!: find_eq_SomeD)
  from assms(2) obtain j where j: "j \<in> set (db_journals s)" "jn_id j = k" "jn_source_type j \<noteq> JS_Manual"
    by (auto simp: generated_def list_ex_iff)
  have "r = j" using journals_ok_distinct [OF assms(1)] r j by (auto simp: distinct_map dest: inj_onD)
  with journals_ok_reversal_manual [OF assms(1) r(1)] r(3) j(3) show False by simp
qed

lemma reverse_other:
  assumes ok: "ledger_ok s" and gen: "generated s k"
    and rev: "reverse_journal_in_tx E book k d n s = Inr (p, s')" and "i \<noteq> k"
    and "i \<in> jn_id ` set (db_journals s)"
  shows "find_reversal s' i = find_reversal s i" and "is_net_reversed s' i = is_net_reversed s i"
proof -
  note eff = reversal_effect [OF ok rev]
  have js: "journals_ok (db_journals s)" "journals_ok (db_journals s')"
    using ok ledger_ok_reverse [OF ok rev] by (auto simp: ledger_ok_def)
  have same: "find_reversal s' x = find_reversal s x" if "x \<noteq> k" for x
    using find_reversal_snoc [OF eff(4), of x] eff(7) that by (simp split: option.splits)
  show "find_reversal s' i = find_reversal s i" using assms(4) by (rule same)
  have walk: "reversal_walk m s' x b = reversal_walk m s x b" if "x \<noteq> k" for m x b
    using that
  proof (induction m arbitrary: x b)
    case (Suc m)
    then show ?case
      using same [OF Suc.prems] generated_no_reversal [OF js(1) gen, of x]
      by (auto split: option.splits)
  qed simp
  obtain b where b: "is_net_reversed s i = Inr b" using is_net_reversed_returns [OF js(1)] by blast
  then have "reversal_walk (Suc (length (db_journals s))) s' i False = Inr b"
    unfolding is_net_reversed_def walk [OF assms(4)] .
  from is_net_reversed_fuel [OF js(2) this] b show "is_net_reversed s' i = is_net_reversed s i" by simp
qed

definition ledger_grows :: "db \<Rightarrow> db \<Rightarrow> bool" where
  "ledger_grows s s' \<longleftrightarrow> (ledger_ok s \<longrightarrow> ledger_ok s' \<and> same_but_ledger s s'
     \<and> (\<exists>js. db_journals s' = db_journals s @ js) \<and> (\<exists>ls. db_lines s' = db_lines s @ ls)
     \<and> (\<forall>b ty i. ty \<noteq> JS_Manual \<longrightarrow>
          set (find_journals_by_source s' b ty i) = set (find_journals_by_source s b ty i)))"

lemma ledger_grows_refl: "ledger_grows s s"
  by (simp add: ledger_grows_def)

lemma ledger_grows_trans: "ledger_grows s t \<Longrightarrow> ledger_grows t u \<Longrightarrow> ledger_grows s u"
  unfolding ledger_grows_def by (auto intro: same_but_ledger_trans)

lemma reverse_if_live_Inr:
  assumes "reverse_if_live E book why d k s = Inr s'"
  shows "(s' = s \<and> is_net_reversed s k = Inr True)
    \<or> (\<exists>p n. is_net_reversed s k = Inr False \<and> reverse_journal_in_tx E book k (Some d) n s = Inr (p, s'))"
  using assms by (auto simp: reverse_if_live_def attempt_eq_Inr split: if_splits)

lemma reverse_if_live_grows: "reverse_if_live E book why d k s = Inr s' \<Longrightarrow> ledger_grows s s'"
proof (drule reverse_if_live_Inr, elim disjE exE conjE)
  fix p n
  assume r: "reverse_journal_in_tx E book k (Some d) n s = Inr (p, s')"
  show "ledger_grows s s'"
    unfolding ledger_grows_def
  proof (intro impI)
    assume ok: "ledger_ok s"
    note eff = reversal_effect [OF ok r]
    show "ledger_ok s' \<and> same_but_ledger s s' \<and> (\<exists>js. db_journals s' = db_journals s @ js)
        \<and> (\<exists>ls. db_lines s' = db_lines s @ ls)
        \<and> (\<forall>b ty i. ty \<noteq> JS_Manual \<longrightarrow>
            set (find_journals_by_source s' b ty i) = set (find_journals_by_source s b ty i))"
      using ledger_ok_reverse [OF ok r] eff by (auto simp: set_find_journals_by_source)
  qed
qed (simp add: ledger_grows_refl)

interpretation cancelling_leg: loop_body "reverse_if_live E book why d" ledger_grows for E book why d
  by unfold_locales (use ledger_grows_refl ledger_grows_trans reverse_if_live_grows in blast)+

interpretation cancelling: loop_body
  "\<lambda>source_type s1. for_each (reverse_if_live E book (cancel_narrative order) d)
     (find_journals_by_source s1 (bk_id book) source_type (so_id order)) s1" ledger_grows
  for E book order d
  by unfold_locales
    (use ledger_grows_refl ledger_grows_trans cancelling_leg.loop_keeps in blast)+

lemma reverse_confirm_grows:
  "reverse_sales_confirm_journals E book order d s = Inr s' \<Longrightarrow> ledger_grows s s'"
  unfolding reverse_sales_confirm_journals_def by (rule cancelling.loop_keeps)

lemma generated_grows: "ledger_grows s s' \<Longrightarrow> ledger_ok s \<Longrightarrow> generated s k \<Longrightarrow> generated s' k"
  by (auto simp: ledger_grows_def generated_def)

text \<open>One leg: each of its journals is cancelled in the end, and none was re-instated before.\<close>

lemma reverse_leg:
  "for_each (reverse_if_live E book why d) ks s = Inr s' \<Longrightarrow> ledger_ok s \<Longrightarrow>
     \<forall>k \<in> set ks. generated s k \<Longrightarrow>
     (\<forall>k \<in> set ks. is_net_reversed s' k = Inr True
        \<and> (is_net_reversed s k = Inr True \<or> find_reversal s k = None))
     \<and> (\<forall>i. generated s i \<and> i \<notin> set ks \<longrightarrow>
          is_net_reversed s' i = is_net_reversed s i \<and> find_reversal s' i = find_reversal s i)"
proof (induction ks arbitrary: s)
  case Nil
  then show ?case by simp
next
  case (Cons k ks)
  then obtain t where step: "reverse_if_live E book why d k s = Inr t"
    and rest: "for_each (reverse_if_live E book why d) ks t = Inr s'"
    by (auto simp: attempt_eq_Inr)
  have grows: "ledger_grows s t" using step by (rule reverse_if_live_grows)
  then have ok: "ledger_ok t" using Cons.prems(2) by (simp add: ledger_grows_def)
  have gen: "generated t i" if "generated s i" for i
    using generated_grows [OF grows Cons.prems(2) that] .
  have gk: "generated s k" using Cons.prems(3) by simp
  have others: "is_net_reversed t i = is_net_reversed s i \<and> find_reversal t i = find_reversal s i"
    if "generated s i" "i \<noteq> k" for i
    using reverse_if_live_Inr [OF step]
  proof (elim disjE exE conjE)
    fix p n
    assume "reverse_journal_in_tx E book k (Some d) n s = Inr (p, t)"
    moreover have "i \<in> jn_id ` set (db_journals s)"
      using that(1) by (auto simp: generated_def list_ex_iff)
    ultimately show ?thesis using reverse_other [OF Cons.prems(2) gk _ that(2)] by blast
  qed simp
  have k: "is_net_reversed t k = Inr True \<and> (is_net_reversed s k = Inr True \<or> find_reversal s k = None)"
    using reverse_if_live_Inr [OF step]
  proof (elim disjE exE conjE)
    fix p n
    assume r: "reverse_journal_in_tx E book k (Some d) n s = Inr (p, t)"
    note eff = reversal_effect [OF Cons.prems(2) r]
    have js: "journals_ok (db_journals t)" using ok by (simp add: ledger_ok_def)
    have "is_net_reversed t (jn_id (pj_journal p)) = Inr False"
      using is_net_reversed_rec [OF js, of "jn_id (pj_journal p)"] eff(3) by simp
    then show ?thesis using is_net_reversed_rec [OF js, of k] eff(1,2) by simp
  qed simp
  have ih: "(\<forall>k \<in> set ks. is_net_reversed s' k = Inr True
        \<and> (is_net_reversed t k = Inr True \<or> find_reversal t k = None))
     \<and> (\<forall>i. generated t i \<and> i \<notin> set ks \<longrightarrow>
          is_net_reversed s' i = is_net_reversed t i \<and> find_reversal s' i = find_reversal t i)"
    using Cons.IH [OF rest ok] Cons.prems(3) gen by simp
  have first: "is_net_reversed s' k = Inr True" using ih k gen [OF gk] by (cases "k \<in> set ks") auto
  have tail: "is_net_reversed s i = Inr True \<or> find_reversal s i = None" if "i \<in> set ks" for i
    using ih that others [of i] Cons.prems(3) k by (cases "i = k") auto
  show ?case using first tail ih k others gen by auto
qed

lemma found_generated:
  "ty \<noteq> JS_Manual \<Longrightarrow> k \<in> set (find_journals_by_source s b ty i) \<Longrightarrow> generated s k"
  by (auto simp: set_find_journals_by_source generated_def list_ex_iff)

lemma source_types_apart:
  assumes "journals_ok (db_journals s)" and "k \<in> set (find_journals_by_source s b ty i)"
    and "k \<in> set (find_journals_by_source s b ty' i')"
  shows "ty = ty'"
  using assms journals_ok_distinct [OF assms(1)]
  by (auto simp: set_find_journals_by_source distinct_map dest: inj_onD)

lemma reverse_confirm_legs:
  assumes "reverse_sales_confirm_journals E book order d s = Inr s'" and "ledger_ok s"
    and "ty \<in> {JS_SalesCogs, JS_SalesRevenue}"
    and k: "k \<in> set (find_journals_by_source s (bk_id book) ty (so_id order))"
  shows "is_net_reversed s' k = Inr True \<and> (is_net_reversed s k = Inr True \<or> find_reversal s k = None)"
proof -
  let ?ks = "\<lambda>t ty. find_journals_by_source t (bk_id book) ty (so_id order)"
  from assms(1) obtain t where
    one: "for_each (reverse_if_live E book (cancel_narrative order) d) (?ks s JS_SalesCogs) s = Inr t"
    and two: "for_each (reverse_if_live E book (cancel_narrative order) d) (?ks t JS_SalesRevenue) t = Inr s'"
    by (auto simp: reverse_sales_confirm_journals_def attempt_eq_Inr)
  have grows: "ledger_grows s t" using one by (rule cancelling_leg.loop_keeps)
  then have ok: "ledger_ok t" and found: "set (?ks t ty) = set (?ks s ty)" if "ty \<noteq> JS_Manual" for ty
    using assms(2) that by (auto simp: ledger_grows_def)
  have js: "journals_ok (db_journals s)" using assms(2) by (simp add: ledger_ok_def)
  have leg1: "(\<forall>k \<in> set (?ks s JS_SalesCogs). is_net_reversed t k = Inr True
        \<and> (is_net_reversed s k = Inr True \<or> find_reversal s k = None))
     \<and> (\<forall>i. generated s i \<and> i \<notin> set (?ks s JS_SalesCogs) \<longrightarrow>
          is_net_reversed t i = is_net_reversed s i \<and> find_reversal t i = find_reversal s i)"
    by (rule reverse_leg [OF one assms(2)]) (auto intro: found_generated)
  have leg2: "(\<forall>k \<in> set (?ks t JS_SalesRevenue). is_net_reversed s' k = Inr True
        \<and> (is_net_reversed t k = Inr True \<or> find_reversal t k = None))
     \<and> (\<forall>i. generated t i \<and> i \<notin> set (?ks t JS_SalesRevenue) \<longrightarrow>
          is_net_reversed s' i = is_net_reversed t i \<and> find_reversal s' i = find_reversal t i)"
    by (rule reverse_leg [OF two ok [of JS_SalesCogs]]) (auto intro: found_generated)
  have gen: "generated s k" "generated t k"
    using found_generated [OF _ k] assms(3) generated_grows [OF grows assms(2)] by auto
  show ?thesis
  proof (cases "ty = JS_SalesCogs")
    case True
    then have "k \<notin> set (?ks t JS_SalesRevenue)"
      using source_types_apart [OF js k] found [of JS_SalesRevenue] by auto
    with leg1 leg2 gen k True show ?thesis by auto
  next
    case False
    then have ty: "ty = JS_SalesRevenue" using assms(3) by simp
    then have "k \<notin> set (?ks s JS_SalesCogs)" using source_types_apart [OF js k] by auto
    with leg1 leg2 gen k ty found [of JS_SalesRevenue] show ?thesis by auto
  qed
qed

text \<open>
  \<^bold>\<open>C3.\<close> When the reversal of an order's journals succeeds, no cost or revenue journal of the
  order is live any more, however many were generated and reversed before; the ledger keeps its
  invariant and only grows, and a second run changes no journal.
\<close>

theorem cancel_leaves_nothing_live:
  assumes "ledger_ok s" and "reverse_sales_confirm_journals E book order d s = Inr s'"
  shows "ledger_ok s' \<and> same_but_ledger s s'
    \<and> (\<forall>ty \<in> {JS_SalesCogs, JS_SalesRevenue}.
         \<forall>k \<in> set (find_journals_by_source s' (bk_id book) ty (so_id order)). is_net_reversed s' k = Inr True)
    \<and> reverse_sales_confirm_journals E' book order d' s' = Inr s'"
proof -
  have grows: "ledger_grows s s'" using assms(2) by (rule reverse_confirm_grows)
  have live: "is_net_reversed s' k = Inr True"
    if "ty \<in> {JS_SalesCogs, JS_SalesRevenue}"
      "k \<in> set (find_journals_by_source s' (bk_id book) ty (so_id order))" for ty k
    using reverse_confirm_legs [OF assms(2,1) that(1)] that grows assms(1)
    by (auto simp: ledger_grows_def)
  have idle: "for_each (reverse_if_live E' book (cancel_narrative order) d') ks s' = Inr s'"
    if "\<forall>k \<in> set ks. is_net_reversed s' k = Inr True" for ks
    using that by (induction ks) (auto simp: reverse_if_live_def)
  have "for_each (reverse_if_live E' book (cancel_narrative order) d')
      (find_journals_by_source s' (bk_id book) ty (so_id order)) s' = Inr s'"
    if "ty \<in> {JS_SalesCogs, JS_SalesRevenue}" for ty
    using live [OF that] by (intro idle) blast
  then have "reverse_sales_confirm_journals E' book order d' s' = Inr s'"
    by (simp add: reverse_sales_confirm_journals_def)
  with live grows assms(1) show ?thesis by (auto simp: ledger_grows_def)
qed

text \<open>
  A journal that was reversed and then re-instated, by reversing its reversal, is live,
  but it cannot be reversed again: the reversal path refuses a journal that has a reversal row,
  live or not. So an order with such a journal can never be cancelled.
\<close>

theorem reinstated_journal_blocks_cancel:
  assumes "ledger_ok s" and "ty \<in> {JS_SalesCogs, JS_SalesRevenue}"
    and "k \<in> set (find_journals_by_source s (bk_id book) ty (so_id order))"
    and "find_reversal s k = Some r" and "is_net_reversed s k = Inr False"
  shows "\<exists>e. reverse_sales_confirm_journals E book order d s = Inl e"
proof (cases "reverse_sales_confirm_journals E book order d s")
  case (Inr s')
  from reverse_confirm_legs [OF Inr assms(1-3)] assms(4,5) show ?thesis by simp
qed simp

definition sample_order :: sales_order where
  "sample_order = \<lparr>so_id = ''o'', so_book_id = ''b'', so_contact_id = ''k'', so_location_id = Some ''l1'',
     so_number = 1, so_order_date = ''2026-02-03'', so_status = SO_Confirmed, so_currency = ''ZAR'',
     so_notes = None, so_confirmed_at = None, so_cancelled_at = None, so_paid_at = None,
     so_created_at = ''2026'', so_updated_at = ''2026''\<rparr>"

definition sample_cancelled :: "db res" where
  "sample_cancelled = reverse_sales_confirm_journals sample_env sample_book sample_order ''2026-02-05''
     (db_of sample_revenue_journal)"

lemma ledger_ok_sample_revenue: "ledger_ok (db_of sample_revenue_journal)"
proof -
  have "ran sample_revenue_journal \<noteq> None" by code_simp
  then have "sample_revenue_journal = Inr (out_of sample_revenue_journal, db_of sample_revenue_journal)"
    by (rule run_witness)
  then show ?thesis
    unfolding sample_revenue_journal_def
    by (rule revenue_posting.keeps_ledger) (rule ledger_ok_sample_db)
qed

lemma cancel_leaves_nothing_live_witness:
  "\<exists>s'. sample_cancelled = Inr s'
     \<and> reverse_sales_confirm_journals sample_env sample_book sample_order ''2026-02-06'' s' = Inr s'"
proof -
  have "ran sample_cancelled \<noteq> None" by code_simp
  from run_value [OF this] obtain s' where "sample_cancelled = Inr s'" by blast
  with cancel_leaves_nothing_live [OF ledger_ok_sample_revenue this [unfolded sample_cancelled_def]]
  show ?thesis by blast
qed

text \<open>The order's revenue journal, reversed by hand, and the reversal reversed by hand.\<close>

definition sample_sale_reversed :: "(posted_journal \<times> db) res" where
  "sample_sale_reversed = journal_reverse sample_env
     (jn_id (pj_journal (the (out_of sample_revenue_journal)))) None None (db_of sample_revenue_journal)"

definition sample_sale_reinstated :: "(posted_journal \<times> db) res" where
  "sample_sale_reinstated = journal_reverse sample_env (jn_id (pj_journal (out_of sample_sale_reversed)))
     None None (db_of sample_sale_reversed)"

lemma reinstated_journal_blocks_cancel_witness:
  "\<exists>e. reverse_sales_confirm_journals sample_env sample_book sample_order ''2026-02-06''
     (db_of sample_sale_reinstated) = Inl e"
proof -
  let ?k = "jn_id (pj_journal (the (out_of sample_revenue_journal)))"
  have runs: "ran sample_sale_reversed \<noteq> None" "ran sample_sale_reinstated \<noteq> None" by code_simp+
  have ok1: "ledger_ok (db_of sample_sale_reversed)"
    using run_witness [OF runs(1)] unfolding sample_sale_reversed_def
    by (rule ledger_ok_journal_reverse [OF ledger_ok_sample_revenue])
  from ledger_ok_journal_reverse [OF ok1 run_witness [OF runs(2), unfolded sample_sale_reinstated_def]]
  have ok: "ledger_ok (db_of sample_sale_reinstated)" by (simp add: sample_sale_reinstated_def)
  obtain j book where one: "reverse_journal_in_tx sample_env book ?k None None (db_of sample_revenue_journal)
      = Inr (out_of sample_sale_reversed, db_of sample_sale_reversed)"
    using run_witness [OF runs(1)] unfolding sample_sale_reversed_def by (rule journal_reverse_in_tx)
  obtain j' book' where two: "reverse_journal_in_tx sample_env book'
      (jn_id (pj_journal (out_of sample_sale_reversed))) None None (db_of sample_sale_reversed)
      = Inr (out_of sample_sale_reinstated, db_of sample_sale_reinstated)"
    using run_witness [OF runs(2)] unfolding sample_sale_reinstated_def by (rule journal_reverse_in_tx)
  note eff1 = reversal_effect [OF ledger_ok_sample_revenue one]
  note eff2 = reversal_effect [OF ok1 two]
  note restored = reverse_reversal [OF ok1 eff1(2) two]
  have "?k \<in> set (find_journals_by_source (db_of sample_revenue_journal) (bk_id sample_book)
      JS_SalesRevenue (so_id sample_order))"
    by code_simp
  then have "?k \<in> set (find_journals_by_source (db_of sample_sale_reinstated) (bk_id sample_book)
      JS_SalesRevenue (so_id sample_order))"
    by (auto simp: set_find_journals_by_source eff1(4) eff2(4))
  from reinstated_journal_blocks_cancel [OF ok _ this restored(1,3)] show ?thesis by simp
qed

end
