(* ===== verification/Purchasing.thy ===== *)
theory Purchasing
  imports Stock Trade_Posting
begin

text \<open>
  Purchase orders and goods receipts: \<^verbatim>\<open>repo/purchasing.rs\<close> and the section ``Purchasing'' of
  \<^verbatim>\<open>service.rs\<close> (migration 0013). A receipt is recorded together with the stock movement it
  stands for and its journal, in one transaction; received quantities and receiving statuses are
  never stored but computed from the receipts.
\<close>

section \<open>Repository\<close>

definition po_row_ok :: "purchase_order \<Rightarrow> bool" where
  "po_row_ok po \<longleftrightarrow> 0 \<le> po_subtotal_minor po \<and> 0 \<le> po_tax_minor po \<and> 0 \<le> po_total_minor po
     \<and> length (po_currency po) = 3"

definition po_insert :: "purchase_order \<Rightarrow> db \<Rightarrow> db res" where
  "po_insert po s =
     constrain (po_row_ok po)
       (\<not> has po_id (po_id po) (db_pos s)
        \<and> \<not> list_ex (\<lambda>r. po_book_id r = po_book_id po \<and> po_po_number r = po_po_number po) (db_pos s))
       (has bk_id (po_book_id po) (db_books s) \<and> has ct_id (po_supplier_id po) (db_contacts s)
        \<and> has lo_id (po_location_id po) (db_locations s))
       (Inr (s\<lparr>db_pos := db_pos s @ [po]\<rparr>))"

definition repo_po_get :: "db \<Rightarrow> string \<Rightarrow> purchase_order option" where
  "repo_po_get s i = tab_find po_id i (db_pos s)"

text \<open>Most recently ordered first, then by id.\<close>

definition po_list :: "db \<Rightarrow> string \<Rightarrow> purchase_order list" where
  "po_list s book_id =
     rev (sort_key po_order_date (rev (sort_key po_id (filter (\<lambda>r. po_book_id r = book_id) (db_pos s)))))"

text \<open>The columns an update sets; the row keeps its book, currency and creation time.\<close>

definition po_columns :: "purchase_order \<Rightarrow> purchase_order \<Rightarrow> purchase_order" where
  "po_columns po r =
     r\<lparr>po_supplier_id := po_supplier_id po, po_location_id := po_location_id po,
       po_po_number := po_po_number po, po_order_date := po_order_date po,
       po_expected_delivery := po_expected_delivery po, po_status := po_status po,
       po_subtotal_minor := po_subtotal_minor po, po_tax_minor := po_tax_minor po,
       po_total_minor := po_total_minor po, po_notes := po_notes po, po_updated_at := po_updated_at po\<rparr>"

definition repo_po_update :: "purchase_order \<Rightarrow> db \<Rightarrow> db res" where
  "repo_po_update po s =
     (let rows = map (\<lambda>r. if po_id r = po_id po then po_columns po r else r) (db_pos s) in
      if \<not> has po_id (po_id po) (db_pos s) then Inr s
      else constrain (list_all (\<lambda>r. po_id r = po_id po \<longrightarrow> po_row_ok r) rows)
        (\<not> list_ex (\<lambda>r. po_id r \<noteq> po_id po \<and> po_po_number r = po_po_number po
            \<and> list_ex (\<lambda>q. po_id q = po_id po \<and> po_book_id q = po_book_id r) (db_pos s)) (db_pos s))
        (has ct_id (po_supplier_id po) (db_contacts s) \<and> has lo_id (po_location_id po) (db_locations s))
        (Inr (s\<lparr>db_pos := rows\<rparr>)))"

definition item_insert :: "purchase_order_item \<Rightarrow> db \<Rightarrow> db res" where
  "item_insert item s =
     constrain (0 < poi_qty_ordered item \<and> 0 \<le> poi_unit_price_minor item \<and> 0 \<le> poi_total_minor item)
       (\<not> has poi_id (poi_id item) (db_po_items s))
       (has po_id (poi_purchase_order_id item) (db_pos s) \<and> has bk_id (poi_book_id item) (db_books s)
        \<and> has pv_id (poi_variant_id item) (db_variants s))
       (Inr (s\<lparr>db_po_items := db_po_items s @ [item]\<rparr>))"

definition item_get :: "db \<Rightarrow> string \<Rightarrow> purchase_order_item option" where
  "item_get s i = tab_find poi_id i (db_po_items s)"

definition item_list_for_po :: "db \<Rightarrow> string \<Rightarrow> purchase_order_item list" where
  "item_list_for_po s purchase_order_id =
     sort_key (\<lambda>i. (poi_created_at i, poi_id i))
       (filter (\<lambda>i. poi_purchase_order_id i = purchase_order_id) (db_po_items s))"

definition item_update :: "purchase_order_item \<Rightarrow> db \<Rightarrow> db res" where
  "item_update item s =
     (if \<not> has poi_id (poi_id item) (db_po_items s) then Inr s
      else constrain
        (0 < poi_qty_ordered item \<and> 0 \<le> poi_unit_price_minor item \<and> 0 \<le> poi_total_minor item) True True
        (Inr (s\<lparr>db_po_items := map (\<lambda>r. if poi_id r = poi_id item
            then r\<lparr>poi_qty_ordered := poi_qty_ordered item, poi_unit_price_minor := poi_unit_price_minor item,
                   poi_total_minor := poi_total_minor item, poi_updated_at := poi_updated_at item\<rparr>
            else r) (db_po_items s)\<rparr>)))"

text \<open>A line with a receipt cannot go (\<^verbatim>\<open>ON DELETE RESTRICT\<close>), nor an order with such a line.\<close>

definition item_delete :: "string \<Rightarrow> db \<Rightarrow> db res" where
  "item_delete i s =
     constrain True True (\<not> list_ex (\<lambda>r. pr_purchase_order_item_id r = i) (db_receipts s))
       (Inr (s\<lparr>db_po_items := tab_del poi_id i (db_po_items s)\<rparr>))"

definition repo_po_delete :: "string \<Rightarrow> db \<Rightarrow> db res" where
  "repo_po_delete i s =
     constrain True True
       (\<not> list_ex (\<lambda>r. list_ex (\<lambda>item. poi_id item = pr_purchase_order_item_id r
            \<and> poi_purchase_order_id item = i) (db_po_items s)) (db_receipts s))
       (Inr (s\<lparr>db_pos := tab_del po_id i (db_pos s),
               db_po_items := filter (\<lambda>item. poi_purchase_order_id item \<noteq> i) (db_po_items s)\<rparr>))"

text \<open>Receipts are inserted and never changed (\<^verbatim>\<open>po_receipts_no_update\<close>, \<^verbatim>\<open>_no_delete\<close>).\<close>

definition receipt_insert :: "po_receipt \<Rightarrow> db \<Rightarrow> db res" where
  "receipt_insert r s =
     constrain (pr_qty r \<noteq> 0) (\<not> has pr_id (pr_id r) (db_receipts s))
       (has bk_id (pr_book_id r) (db_books s) \<and> has poi_id (pr_purchase_order_item_id r) (db_po_items s)
        \<and> has lo_id (pr_location_id r) (db_locations s))
       (Inr (s\<lparr>db_receipts := db_receipts s @ [r]\<rparr>))"

definition po_receipts_for_item :: "db \<Rightarrow> string \<Rightarrow> po_receipt list" where
  "po_receipts_for_item s item_id =
     sort_key (\<lambda>r. (pr_created_at r, pr_id r))
       (filter (\<lambda>r. pr_purchase_order_item_id r = item_id) (db_receipts s))"

definition po_receipts_for_po :: "db \<Rightarrow> string \<Rightarrow> po_receipt list" where
  "po_receipts_for_po s purchase_order_id =
     sort_key (\<lambda>r. (pr_created_at r, pr_id r))
       (filter (\<lambda>r. list_ex (\<lambda>i. poi_id i = pr_purchase_order_item_id r
          \<and> poi_purchase_order_id i = purchase_order_id) (db_po_items s)) (db_receipts s))"

definition po_item_received_qty :: "db \<Rightarrow> string \<Rightarrow> int res" where
  "po_item_received_qty s item_id =
     sql_sum (map pr_qty (filter (\<lambda>r. pr_purchase_order_item_id r = item_id) (db_receipts s)))"

section \<open>Purchase orders\<close>

definition po_get :: "db \<Rightarrow> string \<Rightarrow> purchase_order res" where
  "po_get s i = ok_or (repo_po_get s i) (NotFound ''purchase_order'' i)"

definition check_supplier :: "db \<Rightarrow> string \<Rightarrow> string \<Rightarrow> contact res" where
  "check_supplier s book_id supplier_id =
     attempt (contact_get s supplier_id) (\<lambda>supplier.
       if ct_book_id supplier \<noteq> book_id
       then Inl (Validation ''purchase order supplier belongs to a different book'')
       else if ct_role supplier = CR_Customer
       then Inl (Validation ''contact is not marked as a supplier (role customer)'')
       else Inr supplier)"

definition check_po_location :: "db \<Rightarrow> string \<Rightarrow> string \<Rightarrow> location res" where
  "check_po_location s book_id location_id =
     attempt (location_get s location_id) (\<lambda>location.
       if lo_book_id location \<noteq> book_id
       then Inl (Validation ''purchase order location belongs to a different book'')
       else Inr location)"

definition po_create :: "env \<Rightarrow> new_purchase_order \<Rightarrow> db \<Rightarrow> (purchase_order \<times> db) res" where
  "po_create E new s =
     attempt (book_get s (npo_book_id new)) (\<lambda>book.
     attempt (check_supplier s (bk_id book) (npo_supplier_id new)) (\<lambda>supplier.
     attempt (check_po_location s (bk_id book) (npo_location_id new)) (\<lambda>location.
       let number = trim (npo_po_number new) in
       if number = [] then Inl (Validation ''purchase order number must not be empty'')
       else attempt (parse_date (e_time E) (npo_order_date new)) (\<lambda>_.
         attempt (case npo_expected_delivery new of None \<Rightarrow> Inr ()
                   | Some d \<Rightarrow> attempt (parse_date (e_time E) d) (\<lambda>_. Inr ())) (\<lambda>_.
         attempt (normalize_currency_code (npo_currency new)) (\<lambda>currency.
           let tax = (case npo_tax_minor new of None \<Rightarrow> 0 | Some t \<Rightarrow> t) in
           if tax < 0 then Inl (Validation ''purchase order tax must not be negative'')
           else
             let (now, s1) = now_iso E s;
                 (i, s2) = new_id E s1;
                 po = \<lparr>po_id = i, po_book_id = bk_id book, po_supplier_id = ct_id supplier,
                   po_location_id = lo_id location, po_po_number = number,
                   po_order_date = npo_order_date new,
                   po_expected_delivery = npo_expected_delivery new, po_status = PO_Draft,
                   po_subtotal_minor = 0, po_tax_minor = tax, po_total_minor = tax,
                   po_currency = currency, po_notes = normalize_optional (npo_notes new),
                   po_created_at = now, po_updated_at = now\<rparr>
             in attempt (po_insert po s2) (\<lambda>s3.
                attempt (emit_audit E (Some (po_book_id po)) ''purchase_order'' (Some i) ''create''
                  None (Some (Snap_po po)) s3) (\<lambda>s4. Inr (po, s4)))))))))"

definition patch_po :: "env \<Rightarrow> db \<Rightarrow> purchase_order \<Rightarrow> purchase_order_patch \<Rightarrow> purchase_order res" where
  "patch_po E s before patch =
     attempt (if_some (ppo_supplier_id patch) (\<lambda>v after.
         attempt (check_supplier s (po_book_id before) v) (\<lambda>supplier.
           Inr (after\<lparr>po_supplier_id := ct_id supplier\<rparr>))) before) (\<lambda>a1.
     attempt (if_some (ppo_location_id patch) (\<lambda>v after.
         attempt (check_po_location s (po_book_id before) v) (\<lambda>location.
           Inr (after\<lparr>po_location_id := lo_id location\<rparr>))) a1) (\<lambda>a2.
     attempt (if_some (ppo_po_number patch) (\<lambda>v after.
         if trim v = [] then Inl (Validation ''purchase order number must not be empty'')
         else Inr (after\<lparr>po_po_number := trim v\<rparr>)) a2) (\<lambda>a3.
     attempt (if_some (ppo_order_date patch) (\<lambda>v after.
         attempt (parse_date (e_time E) v) (\<lambda>_. Inr (after\<lparr>po_order_date := v\<rparr>))) a3) (\<lambda>a4.
     attempt (if_some (ppo_expected_delivery patch) (\<lambda>v after.
         attempt (case v of None \<Rightarrow> Inr ()
                   | Some d \<Rightarrow> attempt (parse_date (e_time E) d) (\<lambda>_. Inr ()))
           (\<lambda>_. Inr (after\<lparr>po_expected_delivery := v\<rparr>))) a4) (\<lambda>a5.
     attempt (if_some (ppo_tax_minor patch) (\<lambda>v after.
         if v < 0 then Inl (Validation ''purchase order tax must not be negative'')
         else Inr (after\<lparr>po_tax_minor := v,
                    po_total_minor := wrap64 (po_subtotal_minor after + v)\<rparr>)) a5) (\<lambda>a6.
     if_some (ppo_notes patch) (\<lambda>v after. Inr (after\<lparr>po_notes := normalize_optional v\<rparr>)) a6))))))"

definition po_update :: "env \<Rightarrow> string \<Rightarrow> purchase_order_patch \<Rightarrow> db \<Rightarrow> (purchase_order \<times> db) res" where
  "po_update E i patch s =
     attempt (po_get s i) (\<lambda>before.
     attempt (patch_po E s before patch) (\<lambda>patched.
       let (now, s1) = now_iso E s;
           after = patched\<lparr>po_updated_at := now\<rparr>
       in attempt (repo_po_update after s1) (\<lambda>s2.
          attempt (emit_audit E (Some (po_book_id after)) ''purchase_order'' (Some i) ''update''
            (Some (Snap_po before)) (Some (Snap_po after)) s2) (\<lambda>s3. Inr (after, s3)))))"

fun po_status_transition_allowed :: "purchase_order_status \<Rightarrow> purchase_order_status \<Rightarrow> bool" where
  "po_status_transition_allowed PO_Draft PO_Ordered = True"
| "po_status_transition_allowed PO_Draft PO_Cancelled = True"
| "po_status_transition_allowed PO_Ordered PO_Cancelled = True"
| "po_status_transition_allowed _ _ = False"

definition po_set_status ::
    "env \<Rightarrow> string \<Rightarrow> purchase_order_status \<Rightarrow> db \<Rightarrow> (purchase_order \<times> db) res" where
  "po_set_status E i to_status s =
     attempt (po_get s i) (\<lambda>before.
       if \<not> po_status_transition_allowed (po_status before) to_status
       then Inl (InvalidStatusTransition (purchase_order_status_str (po_status before))
              (purchase_order_status_str to_status))
       else
         let (now, s1) = now_iso E s;
             after = before\<lparr>po_status := to_status, po_updated_at := now\<rparr>
         in attempt (repo_po_update after s1) (\<lambda>s2.
            attempt (emit_audit E (Some (po_book_id after)) ''purchase_order'' (Some i) ''status''
              (Some (Snap_po before)) (Some (Snap_po after)) s2) (\<lambda>s3. Inr (after, s3))))"

definition po_delete :: "env \<Rightarrow> string \<Rightarrow> db \<Rightarrow> (unit \<times> db) res" where
  "po_delete E i s =
     attempt (po_get s i) (\<lambda>before.
     attempt (repo_po_delete i s) (\<lambda>s1.
     attempt (emit_audit E (Some (po_book_id before)) ''purchase_order'' (Some i) ''delete''
       (Some (Snap_po before)) None s1) (\<lambda>s2. Inr ((), s2))))"

section \<open>Lines\<close>

definition recalc_po_totals_in_tx :: "env \<Rightarrow> string \<Rightarrow> db \<Rightarrow> db res" where
  "recalc_po_totals_in_tx E purchase_order_id s =
     (let items = item_list_for_po s purchase_order_id;
          subtotal_minor = i64_sum (map poi_total_minor items)
      in attempt (po_get s purchase_order_id) (\<lambda>po.
           let (now, s1) = now_iso E s
           in repo_po_update (po\<lparr>po_subtotal_minor := subtotal_minor,
                po_total_minor := wrap64 (subtotal_minor + po_tax_minor po), po_updated_at := now\<rparr>) s1))"

definition po_item_add ::
    "env \<Rightarrow> new_purchase_order_item \<Rightarrow> db \<Rightarrow> (purchase_order_item \<times> db) res" where
  "po_item_add E new s =
     attempt (po_get s (npoi_purchase_order_id new)) (\<lambda>po.
       if po_status po = PO_Cancelled
       then Inl (Validation ''cannot add a line to a cancelled purchase order'')
       else attempt (product_variant_get s (npoi_variant_id new)) (\<lambda>variant.
         if pv_book_id variant \<noteq> po_book_id po
         then Inl (Validation ''purchase order line variant belongs to a different book'')
         else if npoi_qty_ordered new \<le> 0
         then Inl (Validation ''purchase order line quantity must be positive'')
         else
           let price = (case npoi_unit_price_minor new of None \<Rightarrow> 0 | Some p \<Rightarrow> p) in
           if price < 0
           then Inl (Validation ''purchase order line unit price must not be negative'')
           else
             let (now, s1) = now_iso E s;
                 (i, s2) = new_id E s1;
                 item = \<lparr>poi_id = i, poi_purchase_order_id = po_id po, poi_book_id = po_book_id po,
                   poi_variant_id = pv_id variant, poi_qty_ordered = npoi_qty_ordered new,
                   poi_unit_price_minor = price,
                   poi_total_minor = wrap64 (npoi_qty_ordered new * price),
                   poi_created_at = now, poi_updated_at = now\<rparr>
             in attempt (item_insert item s2) (\<lambda>s3.
                attempt (recalc_po_totals_in_tx E (po_id po) s3) (\<lambda>s4.
                attempt (emit_audit E (Some (poi_book_id item)) ''purchase_order_item'' (Some i)
                  ''create'' None (Some (Snap_po_item item)) s4) (\<lambda>s5. Inr (item, s5))))))"

definition po_item_get :: "db \<Rightarrow> string \<Rightarrow> purchase_order_item res" where
  "po_item_get s i = ok_or (item_get s i) (NotFound ''purchase_order_item'' i)"

definition patch_po_item ::
    "db \<Rightarrow> string \<Rightarrow> purchase_order_item \<Rightarrow> purchase_order_item_patch \<Rightarrow> purchase_order_item res" where
  "patch_po_item s i before patch =
     attempt (if_some (ppoi_qty_ordered patch) (\<lambda>qty after.
         if qty \<le> 0 then Inl (Validation ''purchase order line quantity must be positive'')
         else attempt (po_item_received_qty s i) (\<lambda>received.
           if qty < received
           then Inl (Validation (''cannot reduce ordered quantity to '' @ show_int qty @ ''; ''
                  @ show_int received @ '' has already been received against this line''))
           else Inr (after\<lparr>poi_qty_ordered := qty\<rparr>))) before) (\<lambda>a1.
     if_some (ppoi_unit_price_minor patch) (\<lambda>price after.
         if price < 0
         then Inl (Validation ''purchase order line unit price must not be negative'')
         else Inr (after\<lparr>poi_unit_price_minor := price\<rparr>)) a1)"

definition po_item_update ::
    "env \<Rightarrow> string \<Rightarrow> purchase_order_item_patch \<Rightarrow> db \<Rightarrow> (purchase_order_item \<times> db) res" where
  "po_item_update E i patch s =
     attempt (po_item_get s i) (\<lambda>before.
     attempt (po_get s (poi_purchase_order_id before)) (\<lambda>po.
       if po_status po = PO_Cancelled
       then Inl (Validation ''cannot edit a line on a cancelled purchase order'')
       else attempt (patch_po_item s i before patch) (\<lambda>patched.
         let (now, s1) = now_iso E s;
             after = patched\<lparr>
               poi_total_minor := wrap64 (poi_qty_ordered patched * poi_unit_price_minor patched),
               poi_updated_at := now\<rparr>
         in attempt (item_update after s1) (\<lambda>s2.
            attempt (recalc_po_totals_in_tx E (poi_purchase_order_id after) s2) (\<lambda>s3.
            attempt (emit_audit E (Some (poi_book_id after)) ''purchase_order_item'' (Some i)
              ''update'' (Some (Snap_po_item before)) (Some (Snap_po_item after)) s3)
              (\<lambda>s4. Inr (after, s4)))))))"

definition po_item_delete :: "env \<Rightarrow> string \<Rightarrow> db \<Rightarrow> (unit \<times> db) res" where
  "po_item_delete E i s =
     attempt (po_item_get s i) (\<lambda>before.
     attempt (item_delete i s) (\<lambda>s1.
     attempt (recalc_po_totals_in_tx E (poi_purchase_order_id before) s1) (\<lambda>s2.
     attempt (emit_audit E (Some (poi_book_id before)) ''purchase_order_item'' (Some i) ''delete''
       (Some (Snap_po_item before)) None s2) (\<lambda>s3. Inr ((), s3)))))"

section \<open>Receiving\<close>

definition po_receive :: "env \<Rightarrow> new_po_receipt \<Rightarrow> db \<Rightarrow> (po_receipt \<times> db) res" where
  "po_receive E new s =
     attempt (po_item_get s (npr_purchase_order_item_id new)) (\<lambda>item.
     attempt (po_get s (poi_purchase_order_id item)) (\<lambda>po.
     attempt (book_get s (poi_book_id item)) (\<lambda>book.
       if po_status po = PO_Cancelled
       then Inl (Validation ''cannot receive against a cancelled purchase order'')
       else attempt (location_get s (npr_location_id new)) (\<lambda>location.
         if lo_book_id location \<noteq> poi_book_id item
         then Inl (Validation ''goods receipt location belongs to a different book'')
         else if npr_qty new = 0
         then Inl (Validation ''goods receipt quantity must not be zero'')
         else
           let (i, s1) = new_id E s;
               (now, s2) = now_iso E s1;
               receipt = \<lparr>pr_id = i, pr_book_id = poi_book_id item,
                 pr_purchase_order_item_id = poi_id item, pr_location_id = lo_id location,
                 pr_qty = npr_qty new, pr_note = npr_note new, pr_received_by = npr_received_by new,
                 pr_created_at = now\<rparr>
           in attempt (receipt_insert receipt s2) (\<lambda>s3.
              attempt (emit_audit E (Some (pr_book_id receipt)) ''po_receipt'' (Some i) ''record''
                None (Some (Snap_receipt receipt)) s3) (\<lambda>s4.
              attempt (insert_movement_in_tx E (pr_book_id receipt) (poi_variant_id item)
                (pr_location_id receipt) (pr_qty receipt) SM_Receipt (Some ''po_receipt'') (Some i)
                (pr_note receipt) (pr_received_by receipt) s4) (\<lambda>(_, s5).
              attempt (post_po_receipt_journal E book receipt item (po_currency po) s5)
                (\<lambda>(_, s6). Inr (receipt, s6)))))))))"

definition receipt_status_from :: "int \<Rightarrow> int \<Rightarrow> po_receipt_status" where
  "receipt_status_from received ordered =
     (if received \<le> 0 then PR_Unreceived else if ordered \<le> received then PR_Complete else PR_Partial)"

definition po_item_receiving_status :: "db \<Rightarrow> string \<Rightarrow> po_receipt_status res" where
  "po_item_receiving_status s item_id =
     attempt (po_item_get s item_id) (\<lambda>item.
     attempt (po_item_received_qty s item_id) (\<lambda>received.
       Inr (receipt_status_from received (poi_qty_ordered item))))"

definition po_items_with_receiving :: "db \<Rightarrow> string \<Rightarrow> purchase_order_item_receiving list res" where
  "po_items_with_receiving s purchase_order_id =
     map_res (\<lambda>item. attempt (po_item_received_qty s (poi_id item)) (\<lambda>received.
         Inr \<lparr>pir_item = item, pir_received_qty = received,
              pir_status = receipt_status_from received (poi_qty_ordered item)\<rparr>))
       (item_list_for_po s purchase_order_id)"

definition po_receiving_status :: "db \<Rightarrow> string \<Rightarrow> po_receipt_status res" where
  "po_receiving_status s purchase_order_id =
     attempt (po_items_with_receiving s purchase_order_id) (\<lambda>rows.
       Inr (if rows = [] then PR_Unreceived
            else if list_all (\<lambda>r. pir_status r = PR_Complete) rows then PR_Complete
            else if list_all (\<lambda>r. pir_status r = PR_Unreceived) rows then PR_Unreceived
            else PR_Partial))"

section \<open>The invariant of purchasing\<close>

definition po_item_ok :: "purchase_order list \<Rightarrow> purchase_order_item \<Rightarrow> bool" where
  "po_item_ok pos i \<longleftrightarrow> has po_id (poi_purchase_order_id i) pos \<and> 0 < poi_qty_ordered i
     \<and> 0 \<le> poi_unit_price_minor i \<and> poi_total_minor i = wrap64 (poi_qty_ordered i * poi_unit_price_minor i)"

text \<open>A receipt is a receipt of a line, and it has its movement: same line's variant, place and quantity.\<close>

definition moved_for :: "purchase_order_item list \<Rightarrow> po_receipt \<Rightarrow> stock_movement \<Rightarrow> bool" where
  "moved_for items r m \<longleftrightarrow> sm_kind m = SM_Receipt \<and> sm_ref_kind m = Some ''po_receipt''
     \<and> sm_ref_id m = Some (pr_id r) \<and> sm_qty_delta m = pr_qty r \<and> sm_location_id m = pr_location_id r
     \<and> list_ex (\<lambda>i. poi_id i = pr_purchase_order_item_id r \<and> poi_variant_id i = sm_variant_id m) items"

definition receipt_ok :: "purchase_order_item list \<Rightarrow> stock_movement list \<Rightarrow> po_receipt \<Rightarrow> bool" where
  "receipt_ok items ms r \<longleftrightarrow> pr_qty r \<noteq> 0 \<and> list_ex (moved_for items r) ms"

definition po_sum_ok :: "purchase_order_item list \<Rightarrow> purchase_order \<Rightarrow> bool" where
  "po_sum_ok items po \<longleftrightarrow>
     po_subtotal_minor po
       = wrap64 (sum_list (map poi_total_minor (filter (\<lambda>i. poi_purchase_order_id i = po_id po) items)))
     \<and> po_total_minor po = wrap64 (po_subtotal_minor po + po_tax_minor po)"

definition purchasing_shape :: "db \<Rightarrow> bool" where
  "purchasing_shape s \<longleftrightarrow>
     distinct (map po_id (db_pos s)) \<and> distinct (map poi_id (db_po_items s))
     \<and> list_all (po_item_ok (db_pos s)) (db_po_items s)
     \<and> list_all (receipt_ok (db_po_items s) (db_movements s)) (db_receipts s)"

definition purchasing_ok :: "db \<Rightarrow> bool" where
  "purchasing_ok s \<longleftrightarrow> purchasing_shape s \<and> list_all (po_sum_ok (db_po_items s)) (db_pos s)"

lemma purchasing_ok_frame:
  assumes "purchasing_ok s" and "db_pos s' = db_pos s" and "db_po_items s' = db_po_items s"
    and "db_receipts s' = db_receipts s" and "db_movements s' = db_movements s @ ms"
  shows "purchasing_ok s'"
  using assms by (auto simp: purchasing_ok_def purchasing_shape_def list_all_iff receipt_ok_def)

lemma sum_list_sort_key:
  fixes f :: "'a \<Rightarrow> int"
  shows "sum_list (map f (sort_key g xs)) = sum_list (map f xs)"
proof -
  have "sum_list (map f (insort_key g x ys)) = f x + sum_list (map f ys)" for x ys
    by (induction ys) auto
  then show ?thesis by (induction xs) auto
qed

lemma po_get_Inr: "po_get s i = Inr po \<longleftrightarrow> tab_find po_id i (db_pos s) = Some po"
  by (simp add: po_get_def repo_po_get_def ok_or_eq_Inr)

lemma po_item_get_Inr: "po_item_get s i = Inr item \<longleftrightarrow> tab_find poi_id i (db_po_items s) = Some item"
  by (simp add: po_item_get_def item_get_def ok_or_eq_Inr)

lemma repo_po_update_put:
  assumes "repo_po_update po s = Inr s'" and "distinct (map po_id (db_pos s))"
    and "tab_find po_id (po_id po) (db_pos s) = Some before" and "po_columns po before = po"
  shows "s' = s\<lparr>db_pos := tab_put po_id po (db_pos s)\<rparr>" and "po_row_ok po"
proof -
  note put = map_if_put [where f = "po_columns po", OF assms(2,3,4)]
  have has: "has po_id (po_id po) (db_pos s)" using assms(3) by (rule tab_find_has)
  show "s' = s\<lparr>db_pos := tab_put po_id po (db_pos s)\<rparr>"
    using assms(1) has by (simp add: repo_po_update_def put constrain_Inr Let_def)
  have "po \<in> set (tab_put po_id po (db_pos s))"
    using tab_find_Some [OF assms(3)] by (force simp: tab_put_def)
  then show "po_row_ok po"
    using assms(1) has by (auto simp: repo_po_update_def put constrain_Inr list_all_iff Let_def)
qed

lemma recalc_Inr:
  assumes "recalc_po_totals_in_tx E p s = Inr s'" and "distinct (map po_id (db_pos s))"
  obtains po now where "tab_find po_id p (db_pos s) = Some po"
    and "s' = s\<lparr>db_draws := Suc (db_draws s), db_pos := tab_put po_id
        (po\<lparr>po_subtotal_minor := wrap64 (sum_list (map poi_total_minor
               (filter (\<lambda>i. poi_purchase_order_id i = p) (db_po_items s)))),
            po_total_minor := wrap64 (wrap64 (sum_list (map poi_total_minor
               (filter (\<lambda>i. poi_purchase_order_id i = p) (db_po_items s)))) + po_tax_minor po),
            po_updated_at := now\<rparr>) (db_pos s)\<rparr>"
proof -
  let ?sum = "i64_sum (map poi_total_minor (item_list_for_po s p))"
  have sum: "?sum = wrap64 (sum_list (map poi_total_minor
      (filter (\<lambda>i. poi_purchase_order_id i = p) (db_po_items s))))"
    by (simp add: i64_sum_eq item_list_for_po_def sum_list_sort_key)
  from assms(1) obtain po where po: "tab_find po_id p (db_pos s) = Some po"
    and upd: "repo_po_update (po\<lparr>po_subtotal_minor := ?sum, po_total_minor := wrap64 (?sum + po_tax_minor po),
        po_updated_at := e_now E (db_draws s)\<rparr>) (s\<lparr>db_draws := Suc (db_draws s)\<rparr>) = Inr s'"
    by (auto simp: recalc_po_totals_in_tx_def Let_def attempt_eq_Inr po_get_Inr)
  have "po_id po = p" using tab_find_Some [OF po] by simp
  with repo_po_update_put(1) [OF upd, of po] po assms(2)
  have "s' = s\<lparr>db_draws := Suc (db_draws s), db_pos := tab_put po_id
        (po\<lparr>po_subtotal_minor := ?sum, po_total_minor := wrap64 (?sum + po_tax_minor po),
            po_updated_at := e_now E (db_draws s)\<rparr>) (db_pos s)\<rparr>"
    by (simp add: po_columns_def)
  with po that show thesis unfolding sum by blast
qed

lemma po_item_ok_tab_put: "po_item_ok (tab_put po_id po pos) = po_item_ok pos"
  by (simp add: fun_eq_iff po_item_ok_def has_tab_put)

text \<open>Recomputing the header of one order restores the sums of that order.\<close>

lemma recalc_restores:
  assumes "recalc_po_totals_in_tx E p s = Inr s'" and "purchasing_shape s"
    and "\<forall>po \<in> set (db_pos s). po_id po \<noteq> p \<longrightarrow> po_sum_ok (db_po_items s) po"
  shows "purchasing_ok s'"
proof -
  have d: "distinct (map po_id (db_pos s))" using assms(2) by (simp add: purchasing_shape_def)
  obtain po now where po: "tab_find po_id p (db_pos s) = Some po"
    and s1: "s' = s\<lparr>db_draws := Suc (db_draws s), db_pos := tab_put po_id
        (po\<lparr>po_subtotal_minor := wrap64 (sum_list (map poi_total_minor
               (filter (\<lambda>i. poi_purchase_order_id i = p) (db_po_items s)))),
            po_total_minor := wrap64 (wrap64 (sum_list (map poi_total_minor
               (filter (\<lambda>i. poi_purchase_order_id i = p) (db_po_items s)))) + po_tax_minor po),
            po_updated_at := now\<rparr>) (db_pos s)\<rparr>"
    using assms(1) d by (rule recalc_Inr)
  define po' where "po' = po\<lparr>po_subtotal_minor := wrap64 (sum_list (map poi_total_minor
               (filter (\<lambda>i. poi_purchase_order_id i = p) (db_po_items s)))),
            po_total_minor := wrap64 (wrap64 (sum_list (map poi_total_minor
               (filter (\<lambda>i. poi_purchase_order_id i = p) (db_po_items s)))) + po_tax_minor po),
            po_updated_at := now\<rparr>"
  have s': "s' = s\<lparr>db_draws := Suc (db_draws s), db_pos := tab_put po_id po' (db_pos s)\<rparr>"
    unfolding po'_def by (rule s1)
  have po': "po_sum_ok (db_po_items s) po'" "po_id po' = p"
    using tab_find_Some [OF po] by (simp_all add: po_sum_ok_def po'_def)
  have "purchasing_shape s'"
    using assms(2) by (simp add: s' purchasing_shape_def po_item_ok_tab_put)
  moreover have "list_all (po_sum_ok (db_po_items s)) (tab_put po_id po' (db_pos s))"
    using assms(3) po' by (auto simp: list_all_iff dest: in_tab_put)
  ultimately show ?thesis by (simp add: purchasing_ok_def s')
qed

section \<open>Every purchasing operation keeps the invariant\<close>

text \<open>An audit entry touches nothing the invariant reads.\<close>

lemma purchasing_ok_audit:
  assumes "emit_audit E b t i a x y s = Inr s'"
  shows "purchasing_ok s' = purchasing_ok s" and "db_pos s' = db_pos s" and "db_po_items s' = db_po_items s"
    and "db_receipts s' = db_receipts s" and "db_movements s' = db_movements s"
  using assms by (auto elim!: emit_audit_Inr simp: purchasing_ok_def purchasing_shape_def)

lemma po_sum_ok_no_items:
  "list_all (po_item_ok pos) items \<Longrightarrow> \<not> has po_id i pos \<Longrightarrow>
     filter (\<lambda>x. poi_purchase_order_id x = i) items = []"
  by (auto simp: filter_empty_conv list_all_iff po_item_ok_def)

lemma po_create_keeps:
  assumes "po_create E new s = Inr (po, s')" and "purchasing_ok s"
    and "\<And>t. npo_tax_minor new = Some t \<Longrightarrow> in_i64 t"
  shows "purchasing_ok s'" and "po_status po = PO_Draft" and "db_pos s' = db_pos s @ [po]"
proof -
  from assms(1) obtain s2 s3 where ins: "po_insert po s2 = Inr s3" and s2: "s2 = s\<lparr>db_draws := Suc (Suc (db_draws s))\<rparr>"
    and po: "po_subtotal_minor po = 0" "po_total_minor po = po_tax_minor po" "po_status po = PO_Draft"
      "po_tax_minor po = (case npo_tax_minor new of None \<Rightarrow> 0 | Some t \<Rightarrow> t)"
    and audit: "emit_audit E (Some (po_book_id po)) ''purchase_order'' (Some (po_id po)) ''create'' None
        (Some (Snap_po po)) s3 = Inr s'"
    by (auto simp: po_create_def attempt_eq_Inr guard_eq_Inr Let_def)
  have s3: "s3 = s2\<lparr>db_pos := db_pos s @ [po]\<rparr>" and fresh: "\<not> has po_id (po_id po) (db_pos s)"
    using ins by (auto simp: po_insert_def constrain_Inr s2)
  have ok: "purchasing_shape s" "list_all (po_sum_ok (db_po_items s)) (db_pos s)"
    using assms(2) by (auto simp: purchasing_ok_def)
  have tax: "in_i64 (po_tax_minor po)"
    using assms(3) by (auto simp: po(4) in_i64_def i64_min_def i64_max_def split: option.splits)
  have none: "filter (\<lambda>i. poi_purchase_order_id i = po_id po) (db_po_items s) = []"
    using ok(1) fresh by (intro po_sum_ok_no_items) (auto simp: purchasing_shape_def)
  have "purchasing_shape s3"
    using ok(1) fresh by (auto simp: s3 s2 purchasing_shape_def has_iff po_item_ok_def list_all_iff)
  moreover have "po_sum_ok (db_po_items s) po"
    using tax by (simp add: po_sum_ok_def po none)
  ultimately show "purchasing_ok s'"
    using ok(2) purchasing_ok_audit(1) [OF audit] by (simp add: purchasing_ok_def s3 s2)
  show "po_status po = PO_Draft" by (rule po(3))
  show "db_pos s' = db_pos s @ [po]" using purchasing_ok_audit(2) [OF audit] by (simp add: s3)
qed

definition po_header_only :: "purchase_order \<Rightarrow> purchase_order \<Rightarrow> bool" where
  "po_header_only a b \<longleftrightarrow> po_id b = po_id a \<and> po_book_id b = po_book_id a \<and> po_currency b = po_currency a
     \<and> po_created_at b = po_created_at a \<and> po_status b = po_status a
     \<and> po_subtotal_minor b = po_subtotal_minor a
     \<and> ((po_tax_minor b = po_tax_minor a \<and> po_total_minor b = po_total_minor a)
        \<or> po_total_minor b = wrap64 (po_subtotal_minor b + po_tax_minor b))"

lemma po_header_only_trans: "po_header_only a b \<Longrightarrow> po_header_only b c \<Longrightarrow> po_header_only a c"
  by (auto simp: po_header_only_def)

lemma po_header_only_updates [simp]:
  "po_header_only a (b\<lparr>po_supplier_id := x1\<rparr>) = po_header_only a b"
  "po_header_only a (b\<lparr>po_location_id := x2\<rparr>) = po_header_only a b"
  "po_header_only a (b\<lparr>po_po_number := x3\<rparr>) = po_header_only a b"
  "po_header_only a (b\<lparr>po_order_date := x4\<rparr>) = po_header_only a b"
  "po_header_only a (b\<lparr>po_expected_delivery := x5\<rparr>) = po_header_only a b"
  "po_header_only a (b\<lparr>po_notes := x6\<rparr>) = po_header_only a b"
  "po_header_only a (b\<lparr>po_updated_at := x7\<rparr>) = po_header_only a b"
  "po_header_only a b \<Longrightarrow>
     po_header_only a (b\<lparr>po_tax_minor := x8, po_total_minor := wrap64 (po_subtotal_minor b + x8)\<rparr>)"
  by (simp_all add: po_header_only_def)

lemma patch_po_header:
  assumes "patch_po E s before patch = Inr after"
  shows "po_header_only before after"
proof -
  have "po_header_only before before" by (simp add: po_header_only_def)
  with assms show ?thesis
    unfolding patch_po_def
    by (elim if_some_then [where P = "po_header_only before"] if_some_end [where P = "po_header_only before"])
      (auto simp: attempt_eq_Inr guard_eq_Inr)
qed

lemma update_header_keeps:
  assumes upd: "repo_po_update after (s\<lparr>db_draws := n\<rparr>) = Inr s'" and ok: "purchasing_ok s"
    and before: "tab_find po_id (po_id after) (db_pos s) = Some before"
    and same: "po_book_id after = po_book_id before" "po_currency after = po_currency before"
      "po_created_at after = po_created_at before"
      "po_subtotal_minor after = po_subtotal_minor before"
    and tot: "(po_tax_minor after = po_tax_minor before \<and> po_total_minor after = po_total_minor before)
        \<or> po_total_minor after = wrap64 (po_subtotal_minor after + po_tax_minor after)"
  shows "purchasing_ok s'" and "s' = s\<lparr>db_draws := n, db_pos := tab_put po_id after (db_pos s)\<rparr>"
proof -
  have d: "distinct (map po_id (db_pos s))" using ok by (simp add: purchasing_ok_def purchasing_shape_def)
  have id: "po_id before = po_id after" using tab_find_Some [OF before] by simp
  have "po_columns after before = after" using same id by (simp add: po_columns_def)
  then show s': "s' = s\<lparr>db_draws := n, db_pos := tab_put po_id after (db_pos s)\<rparr>"
    using repo_po_update_put(1) [OF upd] d before by simp
  have "po_sum_ok (db_po_items s) before"
    using ok tab_find_Some [OF before] by (auto simp: purchasing_ok_def list_all_iff)
  then have "po_sum_ok (db_po_items s) after"
    using same(4) tot id by (auto simp: po_sum_ok_def)
  then show "purchasing_ok s'"
    using ok by (auto simp: s' purchasing_ok_def purchasing_shape_def po_item_ok_tab_put list_all_iff
        dest: in_tab_put)
qed

lemma po_update_keeps:
  assumes "po_update E i patch s = Inr (after, s')" and "purchasing_ok s"
  shows "purchasing_ok s'" and "db_pos s' = tab_put po_id after (db_pos s)"
    and "\<exists>before. po_get s i = Inr before \<and> po_status after = po_status before \<and> po_id after = i"
proof -
  from assms(1) obtain before patched s2 where before: "tab_find po_id i (db_pos s) = Some before"
    and patched: "patch_po E s before patch = Inr patched"
    and after: "after = patched\<lparr>po_updated_at := e_now E (db_draws s)\<rparr>"
    and upd: "repo_po_update after (s\<lparr>db_draws := Suc (db_draws s)\<rparr>) = Inr s2"
    and audit: "emit_audit E (Some (po_book_id after)) ''purchase_order'' (Some i) ''update''
        (Some (Snap_po before)) (Some (Snap_po after)) s2 = Inr s'"
    by (auto simp: po_update_def attempt_eq_Inr Let_def po_get_Inr)
  have hdr: "po_header_only before after" using patch_po_header [OF patched] by (auto simp: after po_header_only_def)
  have id: "po_id after = i" using hdr tab_find_Some [OF before] by (simp add: po_header_only_def)
  have b: "tab_find po_id (po_id after) (db_pos s) = Some before" using before by (simp add: id)
  note keep = update_header_keeps [OF upd assms(2) b]
  have "purchasing_ok s2" and s2: "s2 = s\<lparr>db_draws := Suc (db_draws s), db_pos := tab_put po_id after (db_pos s)\<rparr>"
    using hdr by (intro keep; force simp: po_header_only_def)+
  then show "purchasing_ok s'" and "db_pos s' = tab_put po_id after (db_pos s)"
    using purchasing_ok_audit [OF audit] by simp_all
  show "\<exists>before. po_get s i = Inr before \<and> po_status after = po_status before \<and> po_id after = i"
    using before hdr id by (auto simp: po_get_Inr po_header_only_def)
qed

lemma po_set_status_keeps:
  assumes "po_set_status E i to_status s = Inr (after, s')" and "purchasing_ok s"
  shows "purchasing_ok s'" and "db_pos s' = tab_put po_id after (db_pos s)"
    and "\<exists>before. po_get s i = Inr before \<and> po_status_transition_allowed (po_status before) to_status
      \<and> po_status after = to_status \<and> po_id after = i"
proof -
  from assms(1) obtain before s2 where before: "tab_find po_id i (db_pos s) = Some before"
    and allowed: "po_status_transition_allowed (po_status before) to_status"
    and after: "after = before\<lparr>po_status := to_status, po_updated_at := e_now E (db_draws s)\<rparr>"
    and upd: "repo_po_update after (s\<lparr>db_draws := Suc (db_draws s)\<rparr>) = Inr s2"
    and audit: "emit_audit E (Some (po_book_id after)) ''purchase_order'' (Some i) ''status''
        (Some (Snap_po before)) (Some (Snap_po after)) s2 = Inr s'"
    by (auto simp: po_set_status_def attempt_eq_Inr guard_eq_Inr Let_def po_get_Inr)
  have id: "po_id after = i" using tab_find_Some [OF before] by (simp add: after)
  have b: "tab_find po_id (po_id after) (db_pos s) = Some before" using before by (simp add: id)
  have "purchasing_ok s2" and s2: "s2 = s\<lparr>db_draws := Suc (db_draws s), db_pos := tab_put po_id after (db_pos s)\<rparr>"
    by (intro update_header_keeps [OF upd assms(2) b]; simp add: after)+
  then show "purchasing_ok s'" and "db_pos s' = tab_put po_id after (db_pos s)"
    using purchasing_ok_audit [OF audit] by simp_all
  show "\<exists>before. po_get s i = Inr before \<and> po_status_transition_allowed (po_status before) to_status
      \<and> po_status after = to_status \<and> po_id after = i"
    using before allowed id by (auto simp: po_get_Inr after)
qed

lemma po_delete_keeps:
  assumes "po_delete E i s = Inr (u, s')" and "purchasing_ok s"
  shows "purchasing_ok s'" and "db_pos s' = tab_del po_id i (db_pos s)"
    and "db_receipts s' = db_receipts s"
proof -
  from assms(1) obtain before s1 where
    del: "repo_po_delete i s = Inr s1"
    and audit: "emit_audit E (Some (po_book_id before)) ''purchase_order'' (Some i) ''delete''
        (Some (Snap_po before)) None s1 = Inr s'"
    by (auto simp: po_delete_def attempt_eq_Inr)
  from del have free: "\<not> list_ex (\<lambda>r. list_ex (\<lambda>item. poi_id item = pr_purchase_order_item_id r
            \<and> poi_purchase_order_id item = i) (db_po_items s)) (db_receipts s)"
    and s1: "s1 = s\<lparr>db_pos := tab_del po_id i (db_pos s),
               db_po_items := filter (\<lambda>item. poi_purchase_order_id item \<noteq> i) (db_po_items s)\<rparr>"
    by (auto simp: repo_po_delete_def constrain_Inr)
  have ok: "purchasing_shape s" "list_all (po_sum_ok (db_po_items s)) (db_pos s)"
    using assms(2) by (auto simp: purchasing_ok_def)
  have "receipt_ok (filter (\<lambda>item. poi_purchase_order_id item \<noteq> i) (db_po_items s)) (db_movements s) r"
    if r: "r \<in> set (db_receipts s)" for r
  proof -
    have "receipt_ok (db_po_items s) (db_movements s) r"
      using ok(1) r by (simp add: purchasing_shape_def list_all_iff)
    then obtain m item where "m \<in> set (db_movements s)" "moved_for (db_po_items s) r m" "pr_qty r \<noteq> 0"
      and item: "item \<in> set (db_po_items s)" "poi_id item = pr_purchase_order_item_id r"
        "poi_variant_id item = sm_variant_id m"
      by (auto simp: receipt_ok_def list_ex_iff moved_for_def)
    moreover have "poi_purchase_order_id item \<noteq> i" using free r item by (auto simp: list_ex_iff)
    ultimately show ?thesis using item by (auto simp: receipt_ok_def list_ex_iff moved_for_def)
  qed
  then have "purchasing_shape s1"
    using ok(1) by (auto simp: s1 purchasing_shape_def list_all_iff po_item_ok_def tab_del_def has_iff
        distinct_map inj_on_def)
  moreover have "list_all (po_sum_ok (filter (\<lambda>item. poi_purchase_order_id item \<noteq> i) (db_po_items s)))
      (tab_del po_id i (db_pos s))"
  proof -
    have "filter (\<lambda>x. poi_purchase_order_id x = po_id po)
          (filter (\<lambda>item. poi_purchase_order_id item \<noteq> i) (db_po_items s))
        = filter (\<lambda>x. poi_purchase_order_id x = po_id po) (db_po_items s)" if "po_id po \<noteq> i" for po :: purchase_order
      unfolding filter_filter using that by (intro filter_cong) auto
    then have "po_sum_ok (filter (\<lambda>item. poi_purchase_order_id item \<noteq> i) (db_po_items s)) po
        = po_sum_ok (db_po_items s) po" if "po_id po \<noteq> i" for po :: purchase_order
      unfolding po_sum_ok_def using that by simp
    then show ?thesis using ok(2) by (simp add: list_all_iff tab_del_def)
  qed
  ultimately have "purchasing_ok s1" by (simp add: purchasing_ok_def s1)
  then show "purchasing_ok s'" and "db_pos s' = tab_del po_id i (db_pos s)" and "db_receipts s' = db_receipts s"
    using purchasing_ok_audit [OF audit] by (simp_all add: s1)
qed

lemma other_items_kept:
  fixes po :: purchase_order
  assumes "po_sum_ok items po"
    and "filter (\<lambda>i. poi_purchase_order_id i = po_id po) items'
       = filter (\<lambda>i. poi_purchase_order_id i = po_id po) items"
  shows "po_sum_ok items' po"
  using assms by (simp add: po_sum_ok_def)

lemma receipt_ok_mono:
  assumes "receipt_ok items ms r"
    and "\<And>i. i \<in> set items \<Longrightarrow> \<exists>i' \<in> set items'. poi_id i' = poi_id i \<and> poi_variant_id i' = poi_variant_id i"
  shows "receipt_ok items' ms r"
  using assms by (fastforce simp: receipt_ok_def moved_for_def list_ex_iff)

lemma po_item_add_keeps:
  assumes "po_item_add E new s = Inr (item, s')" and "purchasing_ok s"
  shows "purchasing_ok s'" and "db_po_items s' = db_po_items s @ [item]"
    and "\<exists>po. po_get s (npoi_purchase_order_id new) = Inr po \<and> po_status po \<noteq> PO_Cancelled"
proof -
  from assms(1) obtain po s3 s4 where po: "tab_find po_id (npoi_purchase_order_id new) (db_pos s) = Some po"
    and open_po: "po_status po \<noteq> PO_Cancelled"
    and item: "poi_purchase_order_id item = po_id po"
      "poi_total_minor item = wrap64 (poi_qty_ordered item * poi_unit_price_minor item)"
    and ins: "item_insert item (s\<lparr>db_draws := Suc (Suc (db_draws s))\<rparr>) = Inr s3"
    and recalc: "recalc_po_totals_in_tx E (po_id po) s3 = Inr s4"
    and audit: "emit_audit E (Some (poi_book_id item)) ''purchase_order_item'' (Some (poi_id item))
        ''create'' None (Some (Snap_po_item item)) s4 = Inr s'"
    by (auto simp: po_item_add_def attempt_eq_Inr guard_eq_Inr Let_def po_get_Inr)
  have s3: "s3 = s\<lparr>db_draws := Suc (Suc (db_draws s)), db_po_items := db_po_items s @ [item]\<rparr>"
    and new: "\<not> has poi_id (poi_id item) (db_po_items s)" "has po_id (poi_purchase_order_id item) (db_pos s)"
      "0 < poi_qty_ordered item" "0 \<le> poi_unit_price_minor item"
    using ins by (auto simp: item_insert_def constrain_Inr)
  have shape: "purchasing_shape s" and sums: "list_all (po_sum_ok (db_po_items s)) (db_pos s)"
    using assms(2) by (auto simp: purchasing_ok_def)
  have "receipt_ok (db_po_items s @ [item]) (db_movements s) r" if "r \<in> set (db_receipts s)" for r
    by (rule receipt_ok_mono [of "db_po_items s"]) (use shape that in \<open>auto simp: purchasing_shape_def list_all_iff\<close>)
  then have "purchasing_shape s3"
    using shape new item(2) by (auto simp: s3 purchasing_shape_def list_all_iff po_item_ok_def has_iff)
  moreover have "\<forall>q \<in> set (db_pos s3). po_id q \<noteq> po_id po \<longrightarrow> po_sum_ok (db_po_items s3) q"
    using sums item(1) by (auto simp: s3 list_all_iff intro: other_items_kept)
  ultimately have ok: "purchasing_ok s4" using recalc_restores [OF recalc] by simp
  have "distinct (map po_id (db_pos s3))" using \<open>purchasing_shape s3\<close> by (simp add: purchasing_shape_def)
  with recalc have "db_po_items s4 = db_po_items s @ [item]" by (rule recalc_Inr) (simp add: s3)
  then show "purchasing_ok s'" and "db_po_items s' = db_po_items s @ [item]"
    using ok purchasing_ok_audit [OF audit] by simp_all
  show "\<exists>po. po_get s (npoi_purchase_order_id new) = Inr po \<and> po_status po \<noteq> PO_Cancelled"
    using po open_po by (auto simp: po_get_Inr)
qed

definition same_item :: "purchase_order_item \<Rightarrow> purchase_order_item \<Rightarrow> bool" where
  "same_item a b \<longleftrightarrow> poi_id b = poi_id a \<and> poi_purchase_order_id b = poi_purchase_order_id a
     \<and> poi_book_id b = poi_book_id a \<and> poi_variant_id b = poi_variant_id a
     \<and> poi_created_at b = poi_created_at a"

lemma patch_po_item_Inr:
  assumes "patch_po_item s i before patch = Inr after"
  shows "same_item before after"
    and "\<And>q. ppoi_qty_ordered patch = Some q \<Longrightarrow> poi_qty_ordered after = q \<and> 0 < q
      \<and> (\<exists>received. po_item_received_qty s i = Inr received \<and> received \<le> q)"
    and "ppoi_qty_ordered patch = None \<Longrightarrow> poi_qty_ordered after = poi_qty_ordered before"
    and "0 \<le> poi_unit_price_minor before \<Longrightarrow> 0 \<le> poi_unit_price_minor after"
  using assms
  by (auto simp: patch_po_item_def attempt_eq_Inr guard_eq_Inr if_some_Inr same_item_def)

lemma po_item_update_keeps:
  assumes "po_item_update E i patch s = Inr (after, s')" and "purchasing_ok s"
  shows "purchasing_ok s'" and "db_po_items s' = tab_put poi_id after (db_po_items s)"
    and "\<exists>before po. po_item_get s i = Inr before \<and> same_item before after
      \<and> po_get s (poi_purchase_order_id before) = Inr po \<and> po_status po \<noteq> PO_Cancelled
      \<and> (poi_qty_ordered after = poi_qty_ordered before
         \<or> (\<exists>received. po_item_received_qty s i = Inr received \<and> received \<le> poi_qty_ordered after))"
proof -
  from assms(1) obtain before po patched s2 s3 where
    before: "tab_find poi_id i (db_po_items s) = Some before"
    and po: "tab_find po_id (poi_purchase_order_id before) (db_pos s) = Some po" "po_status po \<noteq> PO_Cancelled"
    and patched: "patch_po_item s i before patch = Inr patched"
    and after: "after = patched\<lparr>
        poi_total_minor := wrap64 (poi_qty_ordered patched * poi_unit_price_minor patched),
        poi_updated_at := e_now E (db_draws s)\<rparr>"
    and upd: "item_update after (s\<lparr>db_draws := Suc (db_draws s)\<rparr>) = Inr s2"
    and recalc: "recalc_po_totals_in_tx E (poi_purchase_order_id after) s2 = Inr s3"
    and audit: "emit_audit E (Some (poi_book_id after)) ''purchase_order_item'' (Some i) ''update''
        (Some (Snap_po_item before)) (Some (Snap_po_item after)) s3 = Inr s'"
    by (auto simp: po_item_update_def attempt_eq_Inr guard_eq_Inr Let_def po_get_Inr po_item_get_Inr)
  have shape: "purchasing_shape s" and sums: "list_all (po_sum_ok (db_po_items s)) (db_pos s)"
    using assms(2) by (auto simp: purchasing_ok_def)
  have bid: "poi_id before = i" and inb: "before \<in> set (db_po_items s)" using tab_find_Some [OF before] by auto
  have same: "same_item before after"
    using patch_po_item_Inr(1) [OF patched] by (simp add: after same_item_def)
  have has: "has poi_id (poi_id after) (db_po_items s)"
    using tab_find_has [OF before] same bid by (simp add: same_item_def)
  have put: "map (\<lambda>r. if poi_id r = poi_id after
            then r\<lparr>poi_qty_ordered := poi_qty_ordered after, poi_unit_price_minor := poi_unit_price_minor after,
                   poi_total_minor := poi_total_minor after, poi_updated_at := poi_updated_at after\<rparr>
            else r) (db_po_items s) = tab_put poi_id after (db_po_items s)"
    by (rule map_if_put [where before = before])
      (use shape before same bid in \<open>auto simp: purchasing_shape_def same_item_def\<close>)
  have s2: "s2 = s\<lparr>db_draws := Suc (db_draws s), db_po_items := tab_put poi_id after (db_po_items s)\<rparr>"
    and pos: "0 < poi_qty_ordered after" "0 \<le> poi_unit_price_minor after"
    using upd has by (auto simp: item_update_def put constrain_Inr)
  have mem: "x = after \<or> x \<in> set (db_po_items s) \<and> poi_id x \<noteq> i" if "x \<in> set (tab_put poi_id after (db_po_items s))" for x
    using in_tab_put [OF that] same bid by (auto simp: same_item_def)
  have "\<exists>x' \<in> set (tab_put poi_id after (db_po_items s)). poi_id x' = poi_id x \<and> poi_variant_id x' = poi_variant_id x"
    if "x \<in> set (db_po_items s)" for x
  proof (cases "poi_id x = i")
    case True
    then have "x = before" using tab_find_distinct [OF _ that] shape before by (auto simp: purchasing_shape_def)
    with that same True bid show ?thesis by (force simp: tab_put_def same_item_def)
  next
    case False
    with that same bid show ?thesis by (force simp: tab_put_def same_item_def)
  qed
  then have "receipt_ok (tab_put poi_id after (db_po_items s)) (db_movements s) r" if "r \<in> set (db_receipts s)" for r
    using shape that by (auto simp: purchasing_shape_def list_all_iff intro: receipt_ok_mono)
  moreover have "po_item_ok (db_pos s) after"
    using pos shape inb same by (auto simp: after po_item_ok_def purchasing_shape_def list_all_iff same_item_def)
  ultimately have shape2: "purchasing_shape s2"
    using shape mem by (fastforce simp: s2 purchasing_shape_def list_all_iff)
  have "\<forall>q \<in> set (db_pos s). po_id q \<noteq> poi_purchase_order_id after \<longrightarrow> po_sum_ok (tab_put poi_id after (db_po_items s)) q"
  proof (intro ballI impI)
    fix q :: purchase_order
    assume q: "q \<in> set (db_pos s)" "po_id q \<noteq> poi_purchase_order_id after"
    have uniq: "x = before" if "x \<in> set (db_po_items s)" "poi_id x = poi_id after" for x
      using tab_find_distinct [OF _ that(1)] shape before that(2) same bid
      by (auto simp: purchasing_shape_def same_item_def)
    have order: "poi_purchase_order_id after = poi_purchase_order_id before"
      using same by (simp add: same_item_def)
    have "filter (\<lambda>i. poi_purchase_order_id i = po_id q) (tab_put poi_id after (db_po_items s))
        = filter (\<lambda>i. poi_purchase_order_id i = po_id q) (db_po_items s)"
      using q(2) uniq order by (intro filter_tab_put_out) fastforce+
    with sums q(1) show "po_sum_ok (tab_put poi_id after (db_po_items s)) q"
      by (auto simp: list_all_iff intro: other_items_kept)
  qed
  then have ok: "purchasing_ok s3" using recalc_restores [OF recalc shape2] by (simp add: s2)
  have "distinct (map po_id (db_pos s2))" using shape2 by (simp add: purchasing_shape_def)
  with recalc have "db_po_items s3 = tab_put poi_id after (db_po_items s)" by (rule recalc_Inr) (simp add: s2)
  then show "purchasing_ok s'" and "db_po_items s' = tab_put poi_id after (db_po_items s)"
    using ok purchasing_ok_audit [OF audit] by simp_all
  show "\<exists>before po. po_item_get s i = Inr before \<and> same_item before after
      \<and> po_get s (poi_purchase_order_id before) = Inr po \<and> po_status po \<noteq> PO_Cancelled
      \<and> (poi_qty_ordered after = poi_qty_ordered before
         \<or> (\<exists>received. po_item_received_qty s i = Inr received \<and> received \<le> poi_qty_ordered after))"
    using before po same patch_po_item_Inr(2,3) [OF patched]
    by (cases "ppoi_qty_ordered patch") (auto simp: po_get_Inr po_item_get_Inr after)
qed

lemma po_item_delete_keeps:
  assumes "po_item_delete E i s = Inr (u, s')" and "purchasing_ok s"
  shows "purchasing_ok s'" and "db_po_items s' = tab_del poi_id i (db_po_items s)"
    and "\<forall>r \<in> set (db_receipts s). pr_purchase_order_item_id r \<noteq> i"
proof -
  from assms(1) obtain before s1 s2 where before: "tab_find poi_id i (db_po_items s) = Some before"
    and del: "item_delete i s = Inr s1"
    and recalc: "recalc_po_totals_in_tx E (poi_purchase_order_id before) s1 = Inr s2"
    and audit: "emit_audit E (Some (poi_book_id before)) ''purchase_order_item'' (Some i) ''delete''
        (Some (Snap_po_item before)) None s2 = Inr s'"
    by (auto simp: po_item_delete_def attempt_eq_Inr po_item_get_Inr)
  from del have free: "\<forall>r \<in> set (db_receipts s). pr_purchase_order_item_id r \<noteq> i"
    and s1: "s1 = s\<lparr>db_po_items := tab_del poi_id i (db_po_items s)\<rparr>"
    by (auto simp: item_delete_def constrain_Inr list_ex_iff)
  have shape: "purchasing_shape s" and sums: "list_all (po_sum_ok (db_po_items s)) (db_pos s)"
    using assms(2) by (auto simp: purchasing_ok_def)
  have "receipt_ok (tab_del poi_id i (db_po_items s)) (db_movements s) r" if r: "r \<in> set (db_receipts s)" for r
  proof -
    have "receipt_ok (db_po_items s) (db_movements s) r"
      using shape r by (simp add: purchasing_shape_def list_all_iff)
    then show ?thesis using free r by (fastforce simp: receipt_ok_def moved_for_def list_ex_iff tab_del_def)
  qed
  then have shape1: "purchasing_shape s1"
    using shape by (auto simp: s1 purchasing_shape_def list_all_iff tab_del_def distinct_map inj_on_def)
  have "po_sum_ok (tab_del poi_id i (db_po_items s)) q"
    if "q \<in> set (db_pos s)" "po_id q \<noteq> poi_purchase_order_id before" for q
  proof (rule other_items_kept)
    show "po_sum_ok (db_po_items s) q" using sums that(1) by (simp add: list_all_iff)
    have "x = before" if "x \<in> set (db_po_items s)" "poi_id x = i" for x
      using tab_find_distinct [OF _ that(1)] shape before that(2) by (auto simp: purchasing_shape_def)
    then show "filter (\<lambda>i. poi_purchase_order_id i = po_id q) (tab_del poi_id i (db_po_items s))
        = filter (\<lambda>i. poi_purchase_order_id i = po_id q) (db_po_items s)"
      unfolding tab_del_def filter_filter using that(2) by (intro filter_cong) auto
  qed
  then have ok: "purchasing_ok s2" using recalc_restores [OF recalc shape1] by (simp add: s1)
  have "distinct (map po_id (db_pos s1))" using shape1 by (simp add: purchasing_shape_def)
  with recalc have "db_po_items s2 = tab_del poi_id i (db_po_items s)" by (rule recalc_Inr) (simp add: s1)
  then show "purchasing_ok s'" and "db_po_items s' = tab_del poi_id i (db_po_items s)"
    using ok purchasing_ok_audit [OF audit] by simp_all
  show "\<forall>r \<in> set (db_receipts s). pr_purchase_order_item_id r \<noteq> i" by (rule free)
qed

text \<open>The stages of a receipt.\<close>

lemma po_receive_Inr:
  assumes "po_receive E new s = Inr (r, s')"
  obtains item po book m j s4 s5 where
    "tab_find poi_id (npr_purchase_order_item_id new) (db_po_items s) = Some item"
    and "tab_find po_id (poi_purchase_order_id item) (db_pos s) = Some po" and "po_status po \<noteq> PO_Cancelled"
    and "tab_find bk_id (poi_book_id item) (db_books s) = Some book"
    and "pr_purchase_order_item_id r = npr_purchase_order_item_id new"
    and "pr_location_id r = npr_location_id new" and "pr_qty r = npr_qty new"
    and "pr_id r \<notin> pr_id ` set (db_receipts s)" and "npr_qty new \<noteq> 0"
    and "db_receipts s' = db_receipts s @ [r]" and "db_movements s' = db_movements s @ [m]"
    and "sm_variant_id m = poi_variant_id item" and "sm_location_id m = npr_location_id new"
    and "sm_qty_delta m = npr_qty new" and "sm_kind m = SM_Receipt"
    and "sm_ref_kind m = Some ''po_receipt''" and "sm_ref_id m = Some (pr_id r)"
    and "post_po_receipt_journal E book r item (po_currency po) s5 = Inr (j, s')"
    and "db_journals s5 = db_journals s" and "db_lines s5 = db_lines s" and "db_coa s5 = db_coa s"
    and "db_pos s' = db_pos s" and "db_po_items s' = db_po_items s" and "db_books s5 = db_books s"
proof -
  from assms obtain item po book location s3 s4 m s5 j where
    item: "tab_find poi_id (npr_purchase_order_item_id new) (db_po_items s) = Some item"
    and po: "tab_find po_id (poi_purchase_order_id item) (db_pos s) = Some po" "po_status po \<noteq> PO_Cancelled"
    and book: "tab_find bk_id (poi_book_id item) (db_books s) = Some book"
    and location: "tab_find lo_id (npr_location_id new) (db_locations s) = Some location"
    and nz: "npr_qty new \<noteq> 0"
    and r: "r = \<lparr>pr_id = e_id E (db_draws s), pr_book_id = poi_book_id item,
        pr_purchase_order_item_id = poi_id item, pr_location_id = lo_id location,
        pr_qty = npr_qty new, pr_note = npr_note new, pr_received_by = npr_received_by new,
        pr_created_at = e_now E (Suc (db_draws s))\<rparr>"
    and ins: "receipt_insert r (s\<lparr>db_draws := Suc (Suc (db_draws s))\<rparr>) = Inr s3"
    and audit: "emit_audit E (Some (pr_book_id r)) ''po_receipt'' (Some (pr_id r)) ''record''
        None (Some (Snap_receipt r)) s3 = Inr s4"
    and move: "insert_movement_in_tx E (pr_book_id r) (poi_variant_id item) (pr_location_id r) (pr_qty r)
        SM_Receipt (Some ''po_receipt'') (Some (pr_id r)) (pr_note r) (pr_received_by r) s4 = Inr (m, s5)"
    and post: "post_po_receipt_journal E book r item (po_currency po) s5 = Inr (j, s')"
    by (auto simp: po_receive_def attempt_eq_Inr guard_eq_Inr Let_def po_get_Inr po_item_get_Inr
        book_get_Inr location_get_Inr)
  have ids: "poi_id item = npr_purchase_order_item_id new" "lo_id location = npr_location_id new"
    using item location by (auto dest: tab_find_Some)
  have s3: "s3 = s\<lparr>db_draws := Suc (Suc (db_draws s)), db_receipts := db_receipts s @ [r]\<rparr>"
    and fresh: "pr_id r \<notin> pr_id ` set (db_receipts s)"
    using ins by (auto simp: receipt_insert_def constrain_Inr has_iff)
  from audit obtain e where s4: "s4 = s3\<lparr>db_draws := Suc (Suc (db_draws s3)), db_audit := db_audit s3 @ [e]\<rparr>"
    by (rule emit_audit_Inr)
  from move obtain n es where s5: "s5 = s4\<lparr>db_movements := db_movements s4 @ [m], db_draws := n, db_audit := es\<rparr>"
    and m: "sm_variant_id m = poi_variant_id item" "sm_location_id m = pr_location_id r"
      "sm_qty_delta m = pr_qty r" "sm_ref_kind m = Some ''po_receipt''" "sm_ref_id m = Some (pr_id r)"
      "sm_kind m = SM_Receipt"
    by (rule insert_movement_Inr)
  note same = same_but_ledger_tables [OF receipt_posting.keeps_tables [OF post]]
  show thesis
    by (rule that [OF item po book _ _ _ fresh nz _ _ m(1) _ _ m(6) m(4,5) post])
      (simp_all add: same s5 s4 s3 r ids m)
qed

lemma po_receive_keeps:
  assumes "po_receive E new s = Inr (r, s')" and "purchasing_ok s"
  shows "purchasing_ok s'"
proof (rule po_receive_Inr [OF assms(1)])
  fix item po book m j s4 s5
  assume item: "tab_find poi_id (npr_purchase_order_item_id new) (db_po_items s) = Some item"
    and r: "pr_purchase_order_item_id r = npr_purchase_order_item_id new"
      "pr_location_id r = npr_location_id new" "pr_qty r = npr_qty new" "npr_qty new \<noteq> 0"
    and t: "db_receipts s' = db_receipts s @ [r]" "db_movements s' = db_movements s @ [m]"
      "db_pos s' = db_pos s" "db_po_items s' = db_po_items s"
    and m: "sm_variant_id m = poi_variant_id item" "sm_location_id m = npr_location_id new"
      "sm_qty_delta m = npr_qty new" "sm_kind m = SM_Receipt" "sm_ref_kind m = Some ''po_receipt''"
      "sm_ref_id m = Some (pr_id r)"
  have "moved_for (db_po_items s) r m"
    using tab_find_Some [OF item] by (auto simp: moved_for_def m r list_ex_iff)
  then show ?thesis
    using assms(2) r(4) by (auto simp: purchasing_ok_def purchasing_shape_def t receipt_ok_def r(3) list_all_iff)
qed

section \<open>Correctness of purchasing\<close>

definition received_of :: "db \<Rightarrow> string \<Rightarrow> int" where
  "received_of s item_id =
     sum_list (map pr_qty (filter (\<lambda>r. pr_purchase_order_item_id r = item_id) (db_receipts s)))"

lemma received_qty_Inr: "po_item_received_qty s i = Inr q \<Longrightarrow> q = received_of s i"
  by (simp add: po_item_received_qty_def received_of_def sql_sum_Inr)

text \<open>
  \<^bold>\<open>C5.\<close> A goods receipt is one transaction over three ledgers: the received quantity of its line
  and the on-hand of the line's variant at the receiving location grow by the same quantity, and
  no other pair of variant and location moves. The value of the receipt, its quantity times the
  line's price as a 64-bit product, moves from payables to inventory, in the order's currency, in
  one journal of the receipt dated the day it was recorded, and no other account moves; the
  ledger is untouched exactly when that value is zero or the book lacks one of the two accounts.
  The ledger's invariant is kept, and a cancelled order receives nothing.
\<close>

theorem receipt_agrees_with_stock:
  assumes "po_receive E new s = Inr (r, s')" and "ledger_ok s"
  shows "\<exists>item po. po_item_get s (npr_purchase_order_item_id new) = Inr item
    \<and> po_get s (poi_purchase_order_id item) = Inr po \<and> po_status po \<noteq> PO_Cancelled
    \<and> received_of s' (poi_id item) = received_of s (poi_id item) + npr_qty new
    \<and> (\<forall>v l. quantity_at (db_movements s') v l = quantity_at (db_movements s) v l
          + (if v = poi_variant_id item \<and> l = npr_location_id new then npr_qty new else 0))
    \<and> pr_qty r = npr_qty new \<and> db_receipts s' = db_receipts s @ [r]
    \<and> receipt_posts s (poi_book_id item) r (poi_unit_price_minor item) (po_currency po) s'
    \<and> ledger_ok s'"
proof (rule po_receive_Inr [OF assms(1)])
  fix item po book m j s4 s5
  assume item: "tab_find poi_id (npr_purchase_order_item_id new) (db_po_items s) = Some item"
    and po: "tab_find po_id (poi_purchase_order_id item) (db_pos s) = Some po" "po_status po \<noteq> PO_Cancelled"
    and book: "tab_find bk_id (poi_book_id item) (db_books s) = Some book"
    and r: "pr_purchase_order_item_id r = npr_purchase_order_item_id new" "pr_qty r = npr_qty new"
    and t: "db_receipts s' = db_receipts s @ [r]" "db_movements s' = db_movements s @ [m]"
    and m: "sm_variant_id m = poi_variant_id item" "sm_location_id m = npr_location_id new"
      "sm_qty_delta m = npr_qty new"
    and post: "post_po_receipt_journal E book r item (po_currency po) s5 = Inr (j, s')"
    and ledger: "db_journals s5 = db_journals s" "db_lines s5 = db_lines s" "db_coa s5 = db_coa s"
  have ok: "ledger_ok s'"
    using receipt_posting.keeps_ledger [OF post] assms(2) ledger_ok_cong [OF ledger(1,2)] by simp
  have "receipt_posts s (poi_book_id item) r (poi_unit_price_minor item) (po_currency po) s'"
    using tab_find_Some [OF book] by (intro post_po_receipt_posts [OF post _ ledger]) simp
  moreover have "poi_id item = npr_purchase_order_item_id new" using tab_find_Some [OF item] by simp
  ultimately show ?thesis
    using item po ok by (auto simp: po_item_get_Inr po_get_Inr received_of_def t r m)
qed

text \<open>An order of ten units, under way: its own row and one line, nothing received yet.\<close>

definition sample_po :: purchase_order where
  "sample_po = \<lparr>po_id = ''po'', po_book_id = ''b'', po_supplier_id = ''k'', po_location_id = ''l1'',
     po_po_number = ''PO-1'', po_order_date = ''2026-02-01'', po_expected_delivery = None,
     po_status = PO_Ordered, po_subtotal_minor = 2500, po_tax_minor = 375, po_total_minor = 2875,
     po_currency = ''ZAR'', po_notes = None, po_created_at = ''2026'', po_updated_at = ''2026''\<rparr>"

definition sample_buying :: db where
  "sample_buying = sample_db\<lparr>db_pos := [sample_po], db_po_items := [sample_item]\<rparr>"

lemma sample_buying_ok: "purchasing_ok sample_buying"
  by code_simp

lemma sample_buying_ledger_ok: "ledger_ok sample_buying"
  using ledger_ok_cong [of sample_buying sample_db] ledger_ok_sample_db by (simp add: sample_buying_def)

definition sample_received :: "(po_receipt \<times> db) res" where
  "sample_received = po_receive sample_env
     \<lparr>npr_purchase_order_item_id = ''it'', npr_location_id = ''l2'', npr_qty = 4, npr_note = None,
      npr_received_by = None\<rparr> sample_buying"

lemma receipt_agrees_with_stock_witness:
  "received_of (db_of sample_received) ''it'' = 4 \<and> quantity_at (db_movements (db_of sample_received)) ''v1'' ''l2'' = 4
    \<and> account_net (db_of sample_received) ''c1200'' ''ZAR'' = 1000
    \<and> account_net (db_of sample_received) ''c2000'' ''ZAR'' = - 1000 \<and> ledger_ok (db_of sample_received)"
proof -
  have "ran sample_received \<noteq> None" by code_simp
  note step = run_witness [OF this, unfolded sample_received_def]
  have "received_of sample_buying ''it'' = 0" "quantity_at (db_movements sample_buying) ''v1'' ''l2'' = 0"
    "po_item_get sample_buying ''it'' = Inr sample_item" "po_get sample_buying ''po'' = Inr sample_po"
    "poi_id sample_item = ''it''" "poi_variant_id sample_item = ''v1''" "poi_book_id sample_item = ''b''"
    "poi_purchase_order_id sample_item = ''po''" "po_currency sample_po = ''ZAR''" "poi_unit_price_minor sample_item = 250"
    by code_simp+
  moreover have "two_accounts sample_buying ''b'' COA_CODE_INVENTORY COA_CODE_AP
      = Some (sample_account ''1200'' CK_Asset, sample_account ''2000'' CK_Liability)"
    "normalize_currency_code ''ZAR'' = Inr ''ZAR''" "wrap64 (250 * 4) = 1000"
    "ca_id (sample_account ''1200'' CK_Asset) = ''c1200''" "ca_id (sample_account ''2000'' CK_Liability) = ''c2000''"
    "account_net sample_buying ''c1200'' ''ZAR'' = 0" "account_net sample_buying ''c2000'' ''ZAR'' = 0"
    by code_simp+
  ultimately show ?thesis
    using receipt_agrees_with_stock [OF step sample_buying_ledger_ok]
    unfolding sample_received_def by (auto simp: receipt_posts_def moves_def)
qed

text \<open>
  \<^bold>\<open>C11.\<close> The receiving status of an order says what its receipts say: complete exactly when it has
  lines and every line received at least what was ordered, unreceived exactly when no line
  received anything on balance, partial otherwise.
\<close>

theorem receiving_status_means:
  assumes "purchasing_ok s" and "po_receiving_status s p = Inr st"
  shows "(st = PR_Complete \<longleftrightarrow>
      (\<exists>i \<in> set (db_po_items s). poi_purchase_order_id i = p)
      \<and> (\<forall>i \<in> set (db_po_items s). poi_purchase_order_id i = p \<longrightarrow> poi_qty_ordered i \<le> received_of s (poi_id i)))
    \<and> (st = PR_Unreceived \<longleftrightarrow>
      (\<forall>i \<in> set (db_po_items s). poi_purchase_order_id i = p \<longrightarrow> received_of s (poi_id i) \<le> 0))"
proof -
  from assms(2) obtain rows where rows: "po_items_with_receiving s p = Inr rows"
    and st: "st = (if rows = [] then PR_Unreceived
            else if list_all (\<lambda>r. pir_status r = PR_Complete) rows then PR_Complete
            else if list_all (\<lambda>r. pir_status r = PR_Unreceived) rows then PR_Unreceived
            else PR_Partial)"
    by (auto simp: po_receiving_status_def attempt_eq_Inr)
  have "list_all2 (\<lambda>i r. pir_status r = receipt_status_from (received_of s (poi_id i)) (poi_qty_ordered i))
      (item_list_for_po s p) rows"
    using map_res_Inr [OF rows [unfolded po_items_with_receiving_def]]
    by (rule list_all2_mono) (auto simp: attempt_eq_Inr dest: received_qty_Inr)
  then have statuses: "map pir_status rows
      = map (\<lambda>i. receipt_status_from (received_of s (poi_id i)) (poi_qty_ordered i)) (item_list_for_po s p)"
    by (induction rule: list_all2_induct) auto
  let ?items = "filter (\<lambda>i. poi_purchase_order_id i = p) (db_po_items s)"
  have items: "set (item_list_for_po s p) = set ?items" by (simp add: item_list_for_po_def)
  have empty: "rows = [] \<longleftrightarrow> ?items = []"
    using statuses by (metis items map_is_Nil_conv set_empty)
  have every: "list_all (\<lambda>r. pir_status r = x) rows \<longleftrightarrow>
      (\<forall>i \<in> set ?items. receipt_status_from (received_of s (poi_id i)) (poi_qty_ordered i) = x)" for x
  proof -
    have "list_all (\<lambda>r. pir_status r = x) rows \<longleftrightarrow> (\<forall>y \<in> set (map pir_status rows). y = x)"
      by (auto simp: list_all_iff)
    also have "\<dots> \<longleftrightarrow> (\<forall>i \<in> set ?items. receipt_status_from (received_of s (poi_id i)) (poi_qty_ordered i) = x)"
      unfolding statuses by (simp add: items)
    finally show ?thesis .
  qed
  have pos: "0 < poi_qty_ordered i" if "i \<in> set (db_po_items s)" for i
    using assms(1) that by (auto simp: purchasing_ok_def purchasing_shape_def list_all_iff po_item_ok_def)
  have complete: "receipt_status_from x y = PR_Complete \<longleftrightarrow> y \<le> x" if "0 < y" for x y :: int
    using that by (simp add: receipt_status_from_def)
  have unreceived: "receipt_status_from x y = PR_Unreceived \<longleftrightarrow> x \<le> 0" for x y :: int
    by (simp add: receipt_status_from_def)
  show ?thesis
  proof (cases "?items = []")
    case True
    then show ?thesis using st empty by (auto simp: filter_empty_conv)
  next
    case False
    then have "rows \<noteq> []" and ne: "\<exists>i \<in> set (db_po_items s). poi_purchase_order_id i = p"
      using empty by (auto simp: filter_empty_conv)
    then have "st = PR_Complete \<longleftrightarrow> (\<forall>i \<in> set ?items. poi_qty_ordered i \<le> received_of s (poi_id i))"
      and "st = PR_Unreceived \<longleftrightarrow> (\<forall>i \<in> set ?items. received_of s (poi_id i) \<le> 0)"
      unfolding st using every complete pos unreceived by (auto split: if_splits) force+
    with ne show ?thesis by auto
  qed
qed

lemma receiving_status_means_witness:
  "po_receiving_status (db_of sample_received) ''po'' = Inr PR_Partial
    \<and> \<not> 10 \<le> received_of (db_of sample_received) ''it''"
proof -
  have "ran sample_received \<noteq> None" by code_simp
  note step = run_witness [OF this]
  have ok: "purchasing_ok (db_of sample_received)"
    by (rule po_receive_keeps [OF step [unfolded sample_received_def] sample_buying_ok, folded sample_received_def])
  have st: "po_receiving_status (db_of sample_received) ''po'' = Inr PR_Partial" by code_simp
  have items: "db_po_items (db_of sample_received) = [sample_item]" by code_simp
  from receiving_status_means [OF ok st] st show ?thesis by (auto simp: items sample_item_def)
qed

text \<open>
  \<^bold>\<open>C12.\<close> The order's status only moves along draft, ordered, cancelled: a status change succeeds
  only on these three edges, it changes the status and the update time of this order's row and
  nothing else in any order, and nothing leaves the cancelled state.
\<close>

theorem po_status_machine:
  assumes "purchasing_ok s" and "po_set_status E i to_status s = Inr (after, s')"
  shows "\<exists>before. po_get s i = Inr before
    \<and> (po_status before, to_status) \<in> {(PO_Draft, PO_Ordered), (PO_Draft, PO_Cancelled), (PO_Ordered, PO_Cancelled)}
    \<and> after = before\<lparr>po_status := to_status, po_updated_at := e_now E (db_draws s)\<rparr>
    \<and> db_pos s' = tab_put po_id after (db_pos s)
    \<and> (to_status = PO_Cancelled \<longrightarrow> (\<forall>E' st. \<exists>a b. po_set_status E' i st s' = Inl (InvalidStatusTransition a b)))"
proof -
  note keep = po_set_status_keeps [OF assms(2,1)]
  from keep(3) obtain before where before: "tab_find po_id i (db_pos s) = Some before"
    and allowed: "po_status_transition_allowed (po_status before) to_status" "po_status after = to_status"
      "po_id after = i"
    by (auto simp: po_get_Inr)
  have edges: "(po_status before, to_status) \<in> {(PO_Draft, PO_Ordered), (PO_Draft, PO_Cancelled), (PO_Ordered, PO_Cancelled)}"
    using allowed(1) by (cases "po_status before"; cases to_status) auto
  have row: "after = before\<lparr>po_status := to_status, po_updated_at := e_now E (db_draws s)\<rparr>"
    using assms(2) before by (auto simp: po_set_status_def attempt_eq_Inr guard_eq_Inr Let_def po_get_Inr)
  have "po_id after \<in> po_id ` set (db_pos s)"
    using tab_find_Some [OF before] allowed(3) by (metis image_eqI)
  then have found: "tab_find po_id i (db_pos s') = Some after"
    using allowed(3) by (simp add: keep(2) tab_find_put)
  have "\<exists>a b. po_set_status E' i st s' = Inl (InvalidStatusTransition a b)" if "to_status = PO_Cancelled" for E' st
    using found allowed(2) that by (simp add: po_set_status_def po_get_def repo_po_get_def)
  then show ?thesis using before edges row keep(2) by (auto simp: po_get_Inr)
qed

lemma po_status_machine_witness:
  "\<exists>after s'. po_set_status sample_env ''po'' PO_Cancelled sample_buying = Inr (after, s')
    \<and> (\<exists>a b. po_set_status sample_env ''po'' PO_Ordered s' = Inl (InvalidStatusTransition a b))"
proof -
  have "ran (po_set_status sample_env ''po'' PO_Cancelled sample_buying) \<noteq> None" by code_simp
  note step = run_witness [OF this]
  from po_status_machine [OF sample_buying_ok step] step show ?thesis by blast
qed

text \<open>
  \<^bold>\<open>C13.\<close> An edit of a line of an order that is not cancelled sets the quantity and the price that
  are asked for and keeps the other one; a new quantity is positive and covers what was received
  (one below it is refused), while an edit without a quantity leaves the quantity as it was, on
  an over-received line too. The line stays on its order with its variant, its total and its
  order's totals are recomputed, and no other line changes.
\<close>

theorem line_edit_covers_received:
  assumes "purchasing_ok s" and "po_item_update E i patch s = Inr (after, s')"
  shows "(\<exists>before po. po_item_get s i = Inr before \<and> same_item before after
      \<and> po_get s (poi_purchase_order_id before) = Inr po \<and> po_status po \<noteq> PO_Cancelled
      \<and> poi_qty_ordered after = (case ppoi_qty_ordered patch of Some q \<Rightarrow> q | None \<Rightarrow> poi_qty_ordered before)
      \<and> poi_unit_price_minor after
          = (case ppoi_unit_price_minor patch of Some x \<Rightarrow> x | None \<Rightarrow> poi_unit_price_minor before))
    \<and> (\<forall>q. ppoi_qty_ordered patch = Some q \<longrightarrow> 0 < q \<and> received_of s i \<le> q)
    \<and> poi_total_minor after = wrap64 (poi_qty_ordered after * poi_unit_price_minor after)
    \<and> db_po_items s' = tab_put poi_id after (db_po_items s)
    \<and> purchasing_ok s'"
proof -
  note keep = po_item_update_keeps [OF assms(2,1)]
  from assms(2) obtain before po patched now where "po_item_get s i = Inr before"
    and "po_get s (poi_purchase_order_id before) = Inr po" and "po_status po \<noteq> PO_Cancelled"
    and patched: "patch_po_item s i before patch = Inr patched"
    and after: "after = patched\<lparr>poi_total_minor := wrap64 (poi_qty_ordered patched * poi_unit_price_minor patched),
               poi_updated_at := now\<rparr>"
    by (auto simp: po_item_update_def attempt_eq_Inr guard_eq_Inr Let_def)
  moreover have "same_item before after"
    using patch_po_item_Inr(1) [OF patched] by (simp add: after same_item_def)
  moreover have "(case ppoi_qty_ordered patch of Some q \<Rightarrow> q | None \<Rightarrow> poi_qty_ordered before) = poi_qty_ordered patched
      \<and> (case ppoi_unit_price_minor patch of Some x \<Rightarrow> x | None \<Rightarrow> poi_unit_price_minor before)
          = poi_unit_price_minor patched"
    using patched by (auto simp: patch_po_item_def attempt_eq_Inr guard_eq_Inr if_some_Inr split: option.splits)
  moreover have "\<forall>q. ppoi_qty_ordered patch = Some q \<longrightarrow> 0 < q \<and> received_of s i \<le> q"
    using patch_po_item_Inr(2) [OF patched] by (auto dest: received_qty_Inr)
  ultimately show ?thesis using keep(1,2) by (simp add: after)
qed

definition sample_line_edit :: "(purchase_order_item \<times> db) res" where
  "sample_line_edit = po_item_update sample_env ''it''
     \<lparr>ppoi_qty_ordered = Some 6, ppoi_unit_price_minor = Some 300\<rparr> sample_buying"

lemma line_edit_covers_received_witness:
  "received_of sample_buying ''it'' \<le> 6 \<and> purchasing_ok (db_of sample_line_edit)"
proof -
  have "ran sample_line_edit \<noteq> None" by code_simp
  note step = run_witness [OF this, unfolded sample_line_edit_def]
  from line_edit_covers_received [OF sample_buying_ok step] show ?thesis
    unfolding sample_line_edit_def by simp
qed

text \<open>
  The header of an order adds up: when the amounts stay in the 64-bit range, its subtotal is
  the sum over its lines of quantity times price, and its total that plus its tax.
\<close>

theorem po_header_adds_up:
  assumes "purchasing_ok s" and "po \<in> set (db_pos s)"
    and "\<forall>i \<in> set (db_po_items s). in_i64 (poi_qty_ordered i * poi_unit_price_minor i)"
    and "in_i64 (sum_list (map (\<lambda>i. poi_qty_ordered i * poi_unit_price_minor i)
           (filter (\<lambda>i. poi_purchase_order_id i = po_id po) (db_po_items s))))"
    and "in_i64 (po_subtotal_minor po + po_tax_minor po)"
  shows "po_subtotal_minor po = sum_list (map (\<lambda>i. poi_qty_ordered i * poi_unit_price_minor i)
       (filter (\<lambda>i. poi_purchase_order_id i = po_id po) (db_po_items s)))
    \<and> po_total_minor po = po_subtotal_minor po + po_tax_minor po"
proof -
  have "map poi_total_minor (filter (\<lambda>i. poi_purchase_order_id i = po_id po) (db_po_items s))
      = map (\<lambda>i. poi_qty_ordered i * poi_unit_price_minor i)
          (filter (\<lambda>i. poi_purchase_order_id i = po_id po) (db_po_items s))" (is "?totals = ?values")
    using assms(1,3) by (auto simp: purchasing_ok_def purchasing_shape_def list_all_iff po_item_ok_def)
  then have sum: "sum_list ?totals = sum_list ?values" by (rule arg_cong)
  have "po_sum_ok (db_po_items s) po"
    using assms(1,2) by (simp add: purchasing_ok_def list_all_iff)
  then show ?thesis
    using assms(4,5) unfolding po_sum_ok_def sum by simp
qed

lemma po_header_adds_up_witness:
  "po_subtotal_minor sample_po = 2500 \<and> po_total_minor sample_po = 2500 + po_tax_minor sample_po"
proof -
  have facts: "db_pos sample_buying = [sample_po]" "db_po_items sample_buying = [sample_item]"
    "po_id sample_po = ''po''" "poi_purchase_order_id sample_item = ''po''"
    "poi_qty_ordered sample_item = 10" "poi_unit_price_minor sample_item = 250"
    "in_i64 2500" "in_i64 (po_subtotal_minor sample_po + po_tax_minor sample_po)"
    by code_simp+
  have "sample_po \<in> set (db_pos sample_buying)" by (simp add: facts)
  from po_header_adds_up [OF sample_buying_ok this] show ?thesis by (simp add: facts)
qed

end
