(* ===== verification/Assets.thy ===== *)
theory Assets
  imports Trade_Posting
begin

text \<open>
  The fixed-asset register: \<^verbatim>\<open>repo/assets.rs\<close> and the section ``Fixed assets'' of \<^verbatim>\<open>service.rs\<close>
  (migration 0016). Depreciation is run one period at a time; every run is a row that is never
  changed, with a journal of its own, and accumulated depreciation is computed from the runs
  whose journals are live.
\<close>

section \<open>Periods\<close>

definition is_ascii_digit :: "char \<Rightarrow> bool" where
  "is_ascii_digit c \<longleftrightarrow> CHR ''0'' \<le> c \<and> c \<le> CHR ''9''"

definition dec_value :: "string \<Rightarrow> int" where
  "dec_value s = foldl (\<lambda>n c. 10 * n + (of_char c - 48)) 0 s"

lemma dec_value_code [code]: "dec_value s = foldl (\<lambda>n c. 10 * n + (char_int c - 48)) 0 s"
  by (simp add: dec_value_def char_int_def)

text \<open>\<^verbatim>\<open>str::parse\<close> of an integer: an optional sign (a minus only where it is allowed), digits, in range.\<close>

definition parse_number :: "bool \<Rightarrow> int \<Rightarrow> int \<Rightarrow> string \<Rightarrow> int option" where
  "parse_number minus_ok lo hi s =
     (let sign = (s \<noteq> [] \<and> tl s \<noteq> [] \<and> (hd s = CHR ''+'' \<or> (minus_ok \<and> hd s = CHR ''-'')));
          digits = (if sign then tl s else s)
      in if digits = [] \<or> \<not> list_all is_ascii_digit digits then None
         else let v = (if sign \<and> hd s = CHR ''-'' then - dec_value digits else dec_value digits)
              in if lo \<le> v \<and> v \<le> hi then Some v else None)"

definition parse_i32 :: "string \<Rightarrow> int option" where
  "parse_i32 s = parse_number True (- (2 ^ 31)) (2 ^ 31 - 1) s"

definition parse_u32 :: "string \<Rightarrow> int option" where
  "parse_u32 s = parse_number False 0 (2 ^ 32 - 1) s"

text \<open>\<^verbatim>\<open>&s[a..b]\<close> panics outside the string and inside a character.\<close>

definition is_char_boundary :: "string \<Rightarrow> nat \<Rightarrow> bool" where
  "is_char_boundary s i \<longleftrightarrow> i = 0 \<or> i = length s
     \<or> (i < length s \<and> \<not> (CHR 0x80 \<le> s ! i \<and> s ! i \<le> CHR 0xBF))"

definition str_slice :: "nat \<Rightarrow> nat \<Rightarrow> string \<Rightarrow> string res" where
  "str_slice a b s =
     (if a \<le> b \<and> is_char_boundary s a \<and> is_char_boundary s b then Inr (take (b - a) (drop a s))
      else Inl (Panic ''byte index is out of bounds or not a char boundary''))"

definition expect :: "'a option \<Rightarrow> string \<Rightarrow> 'a res" where
  "expect v msg = ok_or v (Panic msg)"

definition parse_period :: "string \<Rightarrow> (int \<times> int) res" where
  "parse_period period =
     (if \<not> (length period = 7 \<and> period ! 4 = CHR ''-''
            \<and> list_all is_ascii_digit (take 4 period) \<and> list_all is_ascii_digit (drop 5 period)
            \<and> ''01'' \<le> drop 5 period \<and> drop 5 period \<le> ''12'')
      then Inl (Validation (''period must be YYYY-MM (MM in 01..=12), got '' @ debug_str period))
      else attempt (expect (parse_i32 (take 4 period)) ''digits checked above'') (\<lambda>year.
           attempt (expect (parse_u32 (drop 5 period)) ''digits checked above'') (\<lambda>month.
             Inr (year, month))))"

definition year_month_of_date :: "string \<Rightarrow> (int \<times> int) res" where
  "year_month_of_date date =
     attempt (str_slice 0 4 date) (\<lambda>y.
     attempt (expect (parse_i32 y) ''stored dates are YYYY-MM-DD'') (\<lambda>year.
     attempt (str_slice 5 7 date) (\<lambda>m.
     attempt (expect (parse_u32 m) ''stored dates are YYYY-MM-DD'') (\<lambda>month.
       Inr (year, month)))))"

definition period_index_from :: "string \<Rightarrow> string \<Rightarrow> int res" where
  "period_index_from acquired_date period =
     attempt (parse_period period) (\<lambda>(py, pm).
     attempt (year_month_of_date acquired_date) (\<lambda>(ay, am).
       let index = (py * 12 + pm) - (ay * 12 + am) + 1 in
       if index < 1
       then Inl (Validation (''period '' @ period @ '' is before the asset's acquisition month (''
              @ acquired_date @ '')''))
       else Inr index))"

definition days_in_month :: "int \<Rightarrow> int \<Rightarrow> int res" where
  "days_in_month year month =
     (if month \<in> {1, 3, 5, 7, 8, 10, 12} then Inr 31
      else if month \<in> {4, 6, 9, 11} then Inr 30
      else if month = 2 \<and> ((year mod 4 = 0 \<and> year mod 100 \<noteq> 0) \<or> year mod 400 = 0) then Inr 29
      else if month = 2 then Inr 28
      else Inl (Panic ''month validated 01..=12 by parse_period''))"

text \<open>\<^verbatim>\<open>{:04}\<close> and \<^verbatim>\<open>{:02}\<close> of a number that is not negative.\<close>

definition zero_pad :: "nat \<Rightarrow> int \<Rightarrow> string" where
  "zero_pad n v = (let t = show_int v in replicate (n - length t) (CHR ''0'') @ t)"

definition period_end_date :: "string \<Rightarrow> string res" where
  "period_end_date period =
     attempt (parse_period period) (\<lambda>(year, month).
     attempt (days_in_month year month) (\<lambda>day.
       Inr (zero_pad 4 year @ ''-'' @ zero_pad 2 month @ ''-'' @ zero_pad 2 day)))"

section \<open>Repository\<close>

definition asset_row_ok :: "asset \<Rightarrow> bool" where
  "asset_row_ok a \<longleftrightarrow> 0 < ast_cost_minor a \<and> 0 \<le> ast_residual_minor a
     \<and> ast_residual_minor a \<le> ast_cost_minor a \<and> 0 < ast_useful_life_months a
     \<and> length (ast_currency a) = 3
     \<and> (case ast_reducing_balance_rate_bps a of None \<Rightarrow> ast_method a = DM_StraightLine
         | Some bps \<Rightarrow> 0 < bps \<and> bps \<le> 10000 \<and> ast_method a = DM_ReducingBalance)
     \<and> (ast_status a = AS_Disposed \<longleftrightarrow> ast_disposed_date a \<noteq> None)"

definition asset_insert :: "asset \<Rightarrow> db \<Rightarrow> db res" where
  "asset_insert a s =
     constrain (asset_row_ok a) (\<not> has ast_id (ast_id a) (db_assets s))
       (has bk_id (ast_book_id a) (db_books s)) (Inr (s\<lparr>db_assets := db_assets s @ [a]\<rparr>))"

definition repo_asset_get :: "db \<Rightarrow> string \<Rightarrow> asset option" where
  "repo_asset_get s i = tab_find ast_id i (db_assets s)"

definition repo_asset_list :: "db \<Rightarrow> string \<Rightarrow> asset list" where
  "repo_asset_list s book_id =
     rev (sort_key ast_acquired_date
       (rev (sort_key ast_id (filter (\<lambda>a. ast_book_id a = book_id) (db_assets s)))))"

text \<open>The columns an update sets; the row keeps its book, currency and creation time.\<close>

definition asset_columns :: "asset \<Rightarrow> asset \<Rightarrow> asset" where
  "asset_columns a r =
     a\<lparr>ast_id := ast_id r, ast_book_id := ast_book_id r, ast_currency := ast_currency r,
       ast_created_at := ast_created_at r\<rparr>"

definition repo_asset_update :: "asset \<Rightarrow> db \<Rightarrow> db res" where
  "repo_asset_update a s =
     (let rows = map (\<lambda>r. if ast_id r = ast_id a then asset_columns a r else r) (db_assets s)
      in constrain (list_all (\<lambda>r. ast_id r = ast_id a \<longrightarrow> asset_row_ok r) rows) True True
           (Inr (s\<lparr>db_assets := rows\<rparr>)))"

definition period_shape :: "string \<Rightarrow> bool" where
  "period_shape p \<longleftrightarrow> length p = 7 \<and> p ! 4 = CHR ''-''
     \<and> list_all is_ascii_digit (take 4 p) \<and> list_all is_ascii_digit (drop 5 p)"

definition run_insert :: "asset_depreciation_run \<Rightarrow> db \<Rightarrow> db res" where
  "run_insert r s =
     constrain (period_shape (dr_period r) \<and> 0 < dr_period_index r \<and> 0 < dr_depreciation_minor r)
       (\<not> has dr_id (dr_id r) (db_runs s)
        \<and> \<not> list_ex (\<lambda>q. dr_asset_id q = dr_asset_id r \<and> dr_period q = dr_period r) (db_runs s)
        \<and> \<not> list_ex (\<lambda>q. dr_asset_id q = dr_asset_id r \<and> dr_period_index q = dr_period_index r) (db_runs s))
       (has bk_id (dr_book_id r) (db_books s) \<and> has ast_id (dr_asset_id r) (db_assets s)
        \<and> has jn_id (dr_journal_id r) (db_journals s))
       (Inr (s\<lparr>db_runs := db_runs s @ [r]\<rparr>))"

definition runs_for_asset :: "db \<Rightarrow> string \<Rightarrow> asset_depreciation_run list" where
  "runs_for_asset s asset_id =
     sort_key dr_period_index (filter (\<lambda>r. dr_asset_id r = asset_id) (db_runs s))"

section \<open>The arithmetic of a period\<close>

definition validate_depreciation_method :: "depreciation_method \<Rightarrow> int option \<Rightarrow> int option res" where
  "validate_depreciation_method method rate_bps =
     (case method of
        DM_StraightLine \<Rightarrow>
          if rate_bps \<noteq> None
          then Inl (Validation
                 ''reducing_balance_rate_bps must not be set for straight-line depreciation'')
          else Inr None
      | DM_ReducingBalance \<Rightarrow>
          attempt (ok_or rate_bps (Validation
              ''reducing-balance depreciation requires reducing_balance_rate_bps'')) (\<lambda>bps.
            if \<not> (1 \<le> bps \<and> bps \<le> 10000)
            then Inl (Validation (''reducing_balance_rate_bps must be between 1 and 10000, got ''
                   @ show_int bps))
            else Inr (Some bps)))"

definition straight_line_target :: "asset \<Rightarrow> int \<Rightarrow> int" where
  "straight_line_target a n =
     (if n \<le> 0 then 0
      else let depreciable = wrap64 (ast_cost_minor a - ast_residual_minor a)
           in wrap64 (tdiv (depreciable * min n (ast_useful_life_months a)) (ast_useful_life_months a)))"

definition depreciation_amount :: "asset \<Rightarrow> int \<Rightarrow> int \<Rightarrow> int" where
  "depreciation_amount a period_index accumulated_before =
     (case ast_method a of
        DM_StraightLine \<Rightarrow>
          wrap64 (straight_line_target a period_index - straight_line_target a (period_index - 1))
      | DM_ReducingBalance \<Rightarrow>
          let rate_bps = (case ast_reducing_balance_rate_bps a of None \<Rightarrow> 0 | Some r \<Rightarrow> r);
              opening_nbv = wrap64 (ast_cost_minor a - accumulated_before);
              headroom = wrap64 (opening_nbv - ast_residual_minor a)
          in if headroom \<le> 0 then 0
             else if ast_useful_life_months a \<le> period_index then headroom
             else max 0 (min headroom (wrap64 (tdiv (opening_nbv * rate_bps) 10000))))"

text \<open>The runs whose journals are live, in period order.\<close>

fun live_runs :: "db \<Rightarrow> asset_depreciation_run list \<Rightarrow> asset_depreciation_run list res" where
  "live_runs s [] = Inr []"
| "live_runs s (r # rs) =
     attempt (is_net_reversed s (dr_journal_id r)) (\<lambda>reversed.
     attempt (live_runs s rs) (\<lambda>rest. Inr (if \<not> reversed then r # rest else rest)))"

definition net_live_runs :: "db \<Rightarrow> string \<Rightarrow> asset_depreciation_run list res" where
  "net_live_runs s asset_id = live_runs s (runs_for_asset s asset_id)"

section \<open>Operations\<close>

definition asset_create :: "env \<Rightarrow> new_asset \<Rightarrow> db \<Rightarrow> (asset \<times> db) res" where
  "asset_create E new s =
     attempt (book_get s (nas_book_id new)) (\<lambda>book.
       let name = trim (nas_name new);
           residual_minor = (case nas_residual_minor new of None \<Rightarrow> 0 | Some r \<Rightarrow> r)
       in if name = [] then Inl (Validation ''asset name must not be empty'')
       else attempt (parse_date (e_time E) (nas_acquired_date new)) (\<lambda>_.
         if nas_cost_minor new \<le> 0 then Inl (Validation ''asset cost must be greater than zero'')
         else if residual_minor < 0
         then Inl (Validation ''asset residual value must not be negative'')
         else if nas_cost_minor new < residual_minor
         then Inl (Validation ''asset residual value must not exceed cost'')
         else if nas_useful_life_months new \<le> 0
         then Inl (Validation ''asset useful life must be at least one month'')
         else attempt (validate_depreciation_method (nas_method new)
                (nas_reducing_balance_rate_bps new)) (\<lambda>rate_bps.
           attempt (normalize_currency_code (nas_currency new)) (\<lambda>currency.
             let (now, s1) = now_iso E s;
                 (i, s2) = new_id E s1;
                 a = \<lparr>ast_id = i, ast_book_id = bk_id book, ast_name = name,
                   ast_description = normalize_optional (nas_description new),
                   ast_acquired_date = nas_acquired_date new, ast_cost_minor = nas_cost_minor new,
                   ast_residual_minor = residual_minor, ast_currency = currency,
                   ast_useful_life_months = nas_useful_life_months new, ast_method = nas_method new,
                   ast_reducing_balance_rate_bps = rate_bps, ast_status = AS_Active,
                   ast_disposed_date = None, ast_disposal_proceeds_minor = None,
                   ast_created_at = now, ast_updated_at = now\<rparr>
             in attempt (asset_insert a s2) (\<lambda>s3.
                attempt (emit_audit E (Some (ast_book_id a)) ''asset'' (Some i) ''create'' None
                  (Some (Snap_asset a)) s3) (\<lambda>s4. Inr (a, s4)))))))"

definition asset_get :: "db \<Rightarrow> string \<Rightarrow> asset res" where
  "asset_get s i = ok_or (repo_asset_get s i) (NotFound ''asset'' i)"

definition asset_with_depreciation_of :: "db \<Rightarrow> string \<Rightarrow> asset_with_depreciation res" where
  "asset_with_depreciation_of s i =
     attempt (asset_get s i) (\<lambda>a.
     attempt (net_live_runs s i) (\<lambda>live.
       let accumulated = i64_sum (map dr_depreciation_minor live)
       in Inr \<lparr>awd_asset = a, awd_accumulated_depreciation_minor = accumulated,
            awd_net_book_value_minor = wrap64 (ast_cost_minor a - accumulated),
            awd_periods_run = int (length live)\<rparr>))"

definition changes_schedule :: "asset_patch \<Rightarrow> bool" where
  "changes_schedule p \<longleftrightarrow> pas_acquired_date p \<noteq> None \<or> pas_cost_minor p \<noteq> None
     \<or> pas_residual_minor p \<noteq> None \<or> pas_useful_life_months p \<noteq> None \<or> pas_method p \<noteq> None
     \<or> pas_reducing_balance_rate_bps p \<noteq> None"

definition patch_asset :: "env \<Rightarrow> asset \<Rightarrow> asset_patch \<Rightarrow> asset res" where
  "patch_asset E before p =
     attempt (if_some (pas_name p) (\<lambda>v a.
         if trim v = [] then Inl (Validation ''asset name must not be empty'')
         else Inr (a\<lparr>ast_name := trim v\<rparr>)) before) (\<lambda>a1.
     attempt (if_some (pas_description p) (\<lambda>v a.
         Inr (a\<lparr>ast_description := normalize_optional v\<rparr>)) a1) (\<lambda>a2.
     attempt (if_some (pas_acquired_date p) (\<lambda>v a.
         attempt (parse_date (e_time E) v) (\<lambda>_. Inr (a\<lparr>ast_acquired_date := v\<rparr>))) a2) (\<lambda>a3.
     attempt (if_some (pas_cost_minor p) (\<lambda>v a.
         if v \<le> 0 then Inl (Validation ''asset cost must be greater than zero'')
         else Inr (a\<lparr>ast_cost_minor := v\<rparr>)) a3) (\<lambda>a4.
     attempt (if_some (pas_residual_minor p) (\<lambda>v a.
         if v < 0 then Inl (Validation ''asset residual value must not be negative'')
         else Inr (a\<lparr>ast_residual_minor := v\<rparr>)) a4) (\<lambda>a5.
     if ast_cost_minor a5 < ast_residual_minor a5
     then Inl (Validation ''asset residual value must not exceed cost'')
     else attempt (if_some (pas_useful_life_months p) (\<lambda>v a.
         if v \<le> 0 then Inl (Validation ''asset useful life must be at least one month'')
         else Inr (a\<lparr>ast_useful_life_months := v\<rparr>)) a5) (\<lambda>a6.
     attempt (if_some (pas_method p) (\<lambda>v a. Inr (a\<lparr>ast_method := v\<rparr>)) a6) (\<lambda>a7.
     attempt (if_some (pas_reducing_balance_rate_bps p) (\<lambda>v a.
         Inr (a\<lparr>ast_reducing_balance_rate_bps := v\<rparr>)) a7) (\<lambda>a8.
     attempt (validate_depreciation_method (ast_method a8) (ast_reducing_balance_rate_bps a8))
       (\<lambda>rate. Inr (a8\<lparr>ast_reducing_balance_rate_bps := rate\<rparr>))))))))))"

definition asset_update :: "env \<Rightarrow> string \<Rightarrow> asset_patch \<Rightarrow> db \<Rightarrow> (asset \<times> db) res" where
  "asset_update E i p s =
     attempt (asset_get s i) (\<lambda>before.
       if ast_status before = AS_Disposed then Inl (Validation ''cannot edit a disposed asset'')
       else if changes_schedule p \<and> runs_for_asset s i \<noteq> []
       then Inl (Validation (''cannot change cost, acquisition date, useful life or method once ''
              @ ''depreciation has been posted for this asset''))
       else attempt (patch_asset E before p) (\<lambda>patched.
         let (now, s1) = now_iso E s;
             after = patched\<lparr>ast_updated_at := now\<rparr>
         in attempt (repo_asset_update after s1) (\<lambda>s2.
            attempt (emit_audit E (Some (ast_book_id after)) ''asset'' (Some i) ''update''
              (Some (Snap_asset before)) (Some (Snap_asset after)) s2) (\<lambda>s3. Inr (after, s3)))))"

definition dispose_narrative :: "asset \<Rightarrow> string" where
  "dispose_narrative a = ''Reversing depreciation posted after disposal of '' @ ast_name a"

definition asset_dispose :: "env \<Rightarrow> string \<Rightarrow> asset_disposal \<Rightarrow> db \<Rightarrow> (asset \<times> db) res" where
  "asset_dispose E i disposal s =
     attempt (asset_get s i) (\<lambda>before.
       if ast_status before = AS_Disposed then Inl (Validation ''asset is already disposed'')
       else attempt (parse_date (e_time E) (adp_disposed_date disposal)) (\<lambda>_.
       if (case adp_proceeds_minor disposal of None \<Rightarrow> False | Some p \<Rightarrow> p < 0)
       then Inl (Validation ''disposal proceeds must not be negative'')
       else attempt (str_slice 0 7 (adp_disposed_date disposal)) (\<lambda>disposed_month.
       attempt (period_index_from (ast_acquired_date before) disposed_month) (\<lambda>disposal_index.
       attempt (book_get s (ast_book_id before)) (\<lambda>book.
         let (reversal_date, s1) = today E s;
             late = filter (\<lambda>r. disposal_index < dr_period_index r) (runs_for_asset s1 i)
         in attempt (for_each (reverse_if_live E book (dispose_narrative before) reversal_date)
              (map dr_journal_id late) s1) (\<lambda>s2.
            let (now, s3) = now_iso E s2;
                after = before\<lparr>ast_status := AS_Disposed,
                  ast_disposed_date := Some (adp_disposed_date disposal),
                  ast_disposal_proceeds_minor := adp_proceeds_minor disposal, ast_updated_at := now\<rparr>
            in attempt (repo_asset_update after s3) (\<lambda>s4.
               attempt (emit_audit E (Some (ast_book_id after)) ''asset'' (Some i) ''dispose''
                 (Some (Snap_asset before)) (Some (Snap_asset after)) s4) (\<lambda>s5. Inr (after, s5)))))))))"

definition post_depreciation_journal ::
    "env \<Rightarrow> book \<Rightarrow> asset \<Rightarrow> string \<Rightarrow> int \<Rightarrow> string \<Rightarrow> db \<Rightarrow> (posted_journal option \<times> db) res" where
  "post_depreciation_journal E book a period amount_minor run_id s =
     (case two_accounts s (bk_id book) COA_CODE_DEPRECIATION_EXPENSE COA_CODE_ACCUM_DEPRECIATION of
        None \<Rightarrow> Inr (None, s)
      | Some (expense, accumulated) \<Rightarrow>
          attempt (period_end_date period) (\<lambda>posted_date.
            let text = ''Depreciation: '' @ ast_name a @ '' ('' @ period @ '')'' in
            post_some E book
              \<lparr>nj_book_id = bk_id book, nj_posted_date = posted_date,
               nj_narrative = Some (''Depreciation: '' @ ast_name a @ '' ''
                 @ [CHR 0xE2, CHR 0x80, CHR 0x94] @ '' '' @ period),
               nj_reference = Some (ast_id a), nj_source_type = JS_Depreciation,
               nj_source_id = Some run_id,
               nj_lines = [trade_line expense amount_minor 0 (ast_currency a) (Some text),
                           trade_line accumulated 0 amount_minor (ast_currency a) (Some text)]\<rparr> s))"

definition next_index :: "asset_depreciation_run list \<Rightarrow> int" where
  "next_index live = (if live = [] then 0 else dr_period_index (last live)) + 1"

definition check_not_disposed :: "asset \<Rightarrow> string \<Rightarrow> int \<Rightarrow> unit res" where
  "check_not_disposed a period period_index =
     (case ast_disposed_date a of
        None \<Rightarrow> Inr ()
      | Some disposed_date \<Rightarrow>
          attempt (str_slice 0 7 disposed_date) (\<lambda>month.
          attempt (period_index_from (ast_acquired_date a) month) (\<lambda>disposed_index.
            if disposed_index < period_index
            then Inl (Validation (ast_name a @ '' was disposed in '' @ month
                   @ ''; cannot run depreciation for '' @ period))
            else Inr ())))"

definition depreciation_run ::
    "env \<Rightarrow> string \<Rightarrow> string \<Rightarrow> db \<Rightarrow> (asset_depreciation_run option \<times> db) res" where
  "depreciation_run E asset_id period s =
     attempt (asset_get s asset_id) (\<lambda>a.
     attempt (book_get s (ast_book_id a)) (\<lambda>book.
     attempt (period_index_from (ast_acquired_date a) period) (\<lambda>period_index.
     attempt (net_live_runs s asset_id) (\<lambda>live.
       if period_index \<noteq> next_index live
       then Inl (Validation (''depreciation must be run in period order for '' @ ast_name a
              @ ''; expected period index '' @ show_int (next_index live) @ '', got ''
              @ show_int period_index @ '' ('' @ period @ '')''))
       else if ast_useful_life_months a < period_index
       then Inl (Validation (''period '' @ period @ '' is beyond '' @ ast_name a @ '''s useful life (''
              @ show_int (ast_useful_life_months a) @ '' months)''))
       else attempt (check_not_disposed a period period_index) (\<lambda>_.
         let accumulated_before = i64_sum (map dr_depreciation_minor live);
             amount = depreciation_amount a period_index accumulated_before
         in if amount \<le> 0 then Inr (None, s)
            else let (run_id, s1) = new_id E s in
              attempt (post_depreciation_journal E book a period amount run_id s1) (\<lambda>(posted, s2).
                case posted of
                  None \<Rightarrow> Inr (None, s2)
                | Some p \<Rightarrow>
                    let (now, s3) = now_iso E s2;
                        run = \<lparr>dr_id = run_id, dr_book_id = ast_book_id a, dr_asset_id = ast_id a,
                          dr_period = period, dr_period_index = period_index,
                          dr_depreciation_minor = amount, dr_journal_id = jn_id (pj_journal p),
                          dr_created_at = now\<rparr>
                    in attempt (run_insert run s3) (\<lambda>s4.
                       attempt (emit_audit E (Some (dr_book_id run)) ''asset_depreciation_run''
                         (Some (dr_id run)) ''post'' None (Some (Snap_run run)) s4)
                         (\<lambda>s5. Inr (Some run, s5)))))))))"

interpretation depreciation_posting:
  trade_posting "\<lambda>E book. post_depreciation_journal E book a period amount run_id" JS_Depreciation run_id
  for a period amount run_id
  by unfold_locales
    (auto simp: post_depreciation_journal_def Let_def attempt_eq_Inr post_some_Inr split: option.splits)

section \<open>The schedule of an asset\<close>

text \<open>The amounts of the first periods, each run against what the earlier ones accumulated.\<close>

primrec depreciation_schedule :: "asset \<Rightarrow> nat \<Rightarrow> int list" where
  "depreciation_schedule a 0 = []"
| "depreciation_schedule a (Suc n) =
     (let before = depreciation_schedule a n
      in before @ [depreciation_amount a (int (Suc n)) (i64_sum before)])"

lemma in_i64_below: "0 \<le> x \<Longrightarrow> x \<le> y \<Longrightarrow> in_i64 y \<Longrightarrow> in_i64 x"
  by (simp add: in_i64_def i64_min_def)

lemma target_exact:
  assumes "asset_row_ok a" and "in_i64 (ast_cost_minor a)" and "0 \<le> n" and "n \<le> ast_useful_life_months a"
  shows "straight_line_target a n = (ast_cost_minor a - ast_residual_minor a) * n div ast_useful_life_months a"
proof -
  let ?d = "ast_cost_minor a - ast_residual_minor a" and ?l = "ast_useful_life_months a"
  have row: "0 \<le> ?d" "?d \<le> ast_cost_minor a" "0 < ?l" using assms(1) by (auto simp: asset_row_ok_def)
  have "?d * n \<le> ?d * ?l" using row(1) assms(4) by (rule mult_left_mono [rotated])
  then have "?d * n div ?l \<le> ?d" using row(3) zdiv_mono1 [of "?d * n" "?d * ?l" ?l] by simp
  moreover have "0 \<le> ?d * n div ?l" using row assms(3) by (simp add: pos_imp_zdiv_nonneg_iff)
  ultimately have "in_i64 (?d * n div ?l)" "in_i64 ?d"
    using assms(2) row by (auto intro: in_i64_below [of _ "ast_cost_minor a"])
  then show ?thesis using assms(3,4) row by (auto simp: straight_line_target_def)
qed

lemma target_bounds:
  assumes "asset_row_ok a" and "0 \<le> n" and "n \<le> m" and "m \<le> ast_useful_life_months a"
  shows "0 \<le> (ast_cost_minor a - ast_residual_minor a) * n div ast_useful_life_months a"
    and "(ast_cost_minor a - ast_residual_minor a) * n div ast_useful_life_months a
       \<le> (ast_cost_minor a - ast_residual_minor a) * m div ast_useful_life_months a"
    and "(ast_cost_minor a - ast_residual_minor a) * m div ast_useful_life_months a
       \<le> ast_cost_minor a - ast_residual_minor a"
proof -
  let ?d = "ast_cost_minor a - ast_residual_minor a" and ?l = "ast_useful_life_months a"
  have row: "0 \<le> ?d" "0 < ?l" using assms(1) by (auto simp: asset_row_ok_def)
  show "0 \<le> ?d * n div ?l" using row assms(2) by (simp add: pos_imp_zdiv_nonneg_iff)
  show "?d * n div ?l \<le> ?d * m div ?l"
    using row assms(3) by (intro zdiv_mono1 mult_left_mono) auto
  have "?d * m div ?l \<le> ?d * ?l div ?l"
    using row assms(4) by (intro zdiv_mono1 mult_left_mono) auto
  then show "?d * m div ?l \<le> ?d" using row by simp
qed

text \<open>One reducing-balance period, with headroom left, inside the bounds.\<close>

lemma reducing_step:
  assumes "asset_row_ok a" and "in_i64 (ast_cost_minor a)" and "ast_method a = DM_ReducingBalance"
    and "0 \<le> acc" and "acc \<le> ast_cost_minor a - ast_residual_minor a"
  shows "0 \<le> depreciation_amount a k acc"
    and "acc + depreciation_amount a k acc \<le> ast_cost_minor a - ast_residual_minor a"
    and "ast_useful_life_months a \<le> k \<Longrightarrow>
      acc + depreciation_amount a k acc = ast_cost_minor a - ast_residual_minor a"
proof -
  let ?nbv = "ast_cost_minor a - acc"
  have row: "0 \<le> ast_residual_minor a" using assms(1) by (simp add: asset_row_ok_def)
  have "in_i64 ?nbv" "in_i64 (?nbv - ast_residual_minor a)"
    using assms(2,4,5) row by (auto intro: in_i64_below [of _ "ast_cost_minor a"])
  then have amount: "depreciation_amount a k acc =
      (let headroom = ?nbv - ast_residual_minor a
       in if headroom \<le> 0 then 0
          else if ast_useful_life_months a \<le> k then headroom
          else max 0 (min headroom (wrap64 (tdiv (?nbv * (case ast_reducing_balance_rate_bps a of
             None \<Rightarrow> 0 | Some r \<Rightarrow> r)) 10000))))"
    using assms(3) by (simp add: depreciation_amount_def Let_def)
  show "0 \<le> depreciation_amount a k acc"
    and "acc + depreciation_amount a k acc \<le> ast_cost_minor a - ast_residual_minor a"
    and "ast_useful_life_months a \<le> k \<Longrightarrow>
      acc + depreciation_amount a k acc = ast_cost_minor a - ast_residual_minor a"
    unfolding amount using assms(5) by (auto simp: Let_def)
qed

lemma schedule_bounds:
  assumes "asset_row_ok a" and "in_i64 (ast_cost_minor a)"
  shows "int n \<le> ast_useful_life_months a \<Longrightarrow>
     (\<forall>x \<in> set (depreciation_schedule a n). 0 \<le> x)
     \<and> 0 \<le> sum_list (depreciation_schedule a n)
     \<and> sum_list (depreciation_schedule a n) \<le> ast_cost_minor a - ast_residual_minor a
     \<and> (ast_method a = DM_StraightLine \<longrightarrow>
          sum_list (depreciation_schedule a n)
          = (ast_cost_minor a - ast_residual_minor a) * int n div ast_useful_life_months a)
     \<and> (int n = ast_useful_life_months a \<longrightarrow>
          sum_list (depreciation_schedule a n) = ast_cost_minor a - ast_residual_minor a)"
proof (induction n)
  case 0
  then show ?case using assms(1) by (auto simp: asset_row_ok_def)
next
  case (Suc n)
  let ?d = "ast_cost_minor a - ast_residual_minor a" and ?l = "ast_useful_life_months a"
  let ?acc = "sum_list (depreciation_schedule a n)"
  let ?x = "depreciation_amount a (int (Suc n)) ?acc"
  have ih: "\<forall>x \<in> set (depreciation_schedule a n). 0 \<le> x" "0 \<le> ?acc" "?acc \<le> ?d"
    "ast_method a = DM_StraightLine \<longrightarrow> ?acc = ?d * int n div ?l"
    using Suc by auto
  have "?d \<le> ast_cost_minor a" "0 < ?l" using assms(1) by (auto simp: asset_row_ok_def)
  then have "in_i64 ?acc" using ih(2,3) by (intro in_i64_below [OF _ _ assms(2)]) linarith+
  then have sch: "depreciation_schedule a (Suc n) = depreciation_schedule a n @ [?x]"
    by (simp add: Let_def i64_sum_eq)
  show ?case
  proof (cases "ast_method a")
    case DM_StraightLine
    note b = target_bounds [OF assms(1), of "int n" "int (Suc n)"]
    have diff: "in_i64 (?d * int (Suc n) div ?l - ?d * int n div ?l)"
      using b Suc.prems \<open>?d \<le> ast_cost_minor a\<close> by (intro in_i64_below [OF _ _ assms(2)]) auto
    have "?x = ?d * int (Suc n) div ?l - ?d * int n div ?l"
      using DM_StraightLine Suc.prems target_exact [OF assms, of "int n"] target_exact [OF assms, of "int (Suc n)"]
        diff by (simp add: depreciation_amount_def)
    then show ?thesis using ih b DM_StraightLine Suc.prems \<open>0 < ?l\<close> unfolding sch
      by (auto simp del: of_nat_Suc)
  next
    case DM_ReducingBalance
    note r = reducing_step [OF assms DM_ReducingBalance ih(2,3), of "int (Suc n)"]
    show ?thesis using ih r DM_ReducingBalance unfolding sch by (auto simp del: of_nat_Suc)
  qed
qed

text \<open>
  \<^bold>\<open>C30.\<close> A schedule is exact for both methods: every period's amount is at least zero, no prefix of
  periods takes the book value below the residual, the whole life takes it exactly to the residual,
  and the first n straight-line periods sum to the floor of n life-shares of the depreciable amount.
\<close>

theorem depreciation_schedule_exact:
  assumes "asset_row_ok a" and "in_i64 (ast_cost_minor a)" and "int n \<le> ast_useful_life_months a"
  shows "(\<forall>x \<in> set (depreciation_schedule a n). 0 \<le> x)
    \<and> ast_residual_minor a \<le> ast_cost_minor a - sum_list (depreciation_schedule a n)
    \<and> (int n = ast_useful_life_months a \<longrightarrow>
         ast_cost_minor a - sum_list (depreciation_schedule a n) = ast_residual_minor a)
    \<and> (ast_method a = DM_StraightLine \<longrightarrow>
         sum_list (depreciation_schedule a n)
         = (ast_cost_minor a - ast_residual_minor a) * int n div ast_useful_life_months a)"
  using schedule_bounds [OF assms] by auto

definition sample_asset :: "depreciation_method \<Rightarrow> int \<Rightarrow> asset" where
  "sample_asset method cost = \<lparr>ast_id = ''a'', ast_book_id = ''b'', ast_name = ''Van'', ast_description = None,
     ast_acquired_date = ''2026-01-15'', ast_cost_minor = cost, ast_residual_minor = 0,
     ast_currency = ''ZAR'', ast_useful_life_months = 3, ast_method = method,
     ast_reducing_balance_rate_bps = (case method of DM_StraightLine \<Rightarrow> None | DM_ReducingBalance \<Rightarrow> Some 1000),
     ast_status = AS_Active, ast_disposed_date = None, ast_disposal_proceeds_minor = None,
     ast_created_at = ''2026'', ast_updated_at = ''2026''\<rparr>"

lemma depreciation_schedule_exact_witness:
  "depreciation_schedule (sample_asset DM_ReducingBalance 1000) 3 = [100, 90, 810]
   \<and> 1000 - sum_list (depreciation_schedule (sample_asset DM_ReducingBalance 1000) 3) = 0"
proof -
  let ?a = "sample_asset DM_ReducingBalance 1000"
  have facts: "asset_row_ok ?a" "in_i64 (ast_cost_minor ?a)" "int 3 \<le> ast_useful_life_months ?a"
    "depreciation_schedule ?a 3 = [100, 90, 810]" "ast_cost_minor ?a = 1000" "ast_residual_minor ?a = 0"
    "int 3 = ast_useful_life_months ?a"
    by code_simp+
  from depreciation_schedule_exact [OF facts(1-3)] facts(4-) show ?thesis by simp
qed

section \<open>The invariant of the register\<close>

text \<open>A run has its own journal, and stands where its asset's schedule puts its period.\<close>

definition run_journal :: "journal list \<Rightarrow> asset_depreciation_run \<Rightarrow> bool" where
  "run_journal js r \<longleftrightarrow> list_ex (\<lambda>j. jn_id j = dr_journal_id r \<and> jn_source_type j = JS_Depreciation
     \<and> jn_source_id j = Some (dr_id r)) js"

definition run_on :: "asset list \<Rightarrow> asset_depreciation_run \<Rightarrow> bool" where
  "run_on assets r \<longleftrightarrow> list_ex (\<lambda>a. ast_id a = dr_asset_id r
     \<and> period_index_from (ast_acquired_date a) (dr_period r) = Inr (dr_period_index r)
     \<and> dr_period_index r \<le> ast_useful_life_months a) assets"

definition run_key :: "asset_depreciation_run \<Rightarrow> string \<times> int" where
  "run_key r = (dr_asset_id r, dr_period_index r)"

definition assets_ok :: "db \<Rightarrow> bool" where
  "assets_ok s \<longleftrightarrow>
     distinct (map ast_id (db_assets s)) \<and> list_all asset_row_ok (db_assets s)
     \<and> distinct (map run_key (db_runs s))
     \<and> list_all (\<lambda>r. 0 < dr_period_index r \<and> 0 < dr_depreciation_minor r
          \<and> run_journal (db_journals s) r \<and> run_on (db_assets s) r) (db_runs s)"

lemma run_journal_append: "run_journal js r \<Longrightarrow> run_journal (js @ js') r"
  by (simp add: run_journal_def)

lemma run_on_append: "run_on xs r \<Longrightarrow> run_on (xs @ ys) r"
  by (simp add: run_on_def)

lemma assets_ok_frame:
  assumes "assets_ok s" and "db_assets s' = db_assets s" and "db_runs s' = db_runs s"
    and "db_journals s' = db_journals s @ js"
  shows "assets_ok s'"
  using assms by (auto simp: assets_ok_def list_all_iff intro: run_journal_append)

lemma asset_get_Inr [res_simps]: "asset_get s i = Inr a \<longleftrightarrow> tab_find ast_id i (db_assets s) = Some a"
  by (simp add: asset_get_def repo_asset_get_def res_simps)

lemma post_depreciation_Inr:
  assumes "post_depreciation_journal E book a period amount run_id s = Inr (Some p, s')"
  obtains new where "post_journal_in_tx E book new None s = Inr (p, s')"
    and "nj_source_type new = JS_Depreciation" and "nj_source_id new = Some run_id"
    and "period_end_date period = Inr (nj_posted_date new)"
    and "\<exists>expense accumulated.
      coa_by_code_opt s (bk_id book) COA_CODE_DEPRECIATION_EXPENSE = Some expense
      \<and> coa_by_code_opt s (bk_id book) COA_CODE_ACCUM_DEPRECIATION = Some accumulated
      \<and> map asks (nj_lines new) = [(ca_id expense, amount, 0, None, None), (ca_id accumulated, 0, amount, None, None)]"
  using assms
  by (auto simp: post_depreciation_journal_def attempt_eq_Inr post_some_Inr Let_def two_accounts_def asks_def
      trade_line_def split: option.splits)

lemma depreciation_run_Some:
  assumes "depreciation_run E i period s = Inr (Some run, s')"
  obtains a book live p s2 n e where "tab_find ast_id i (db_assets s) = Some a"
    and "book_get s (ast_book_id a) = Inr book"
    and "period_index_from (ast_acquired_date a) period = Inr (next_index live)"
    and "net_live_runs s i = Inr live" and "next_index live \<le> ast_useful_life_months a"
    and "0 < dr_depreciation_minor run"
    and "dr_depreciation_minor run
           = depreciation_amount a (next_index live) (i64_sum (map dr_depreciation_minor live))"
    and "dr_asset_id run = i" and "dr_period run = period" and "dr_period_index run = next_index live"
    and "dr_journal_id run = jn_id (pj_journal p)"
    and "post_depreciation_journal E book a period (dr_depreciation_minor run) (dr_id run)
           (s\<lparr>db_draws := Suc (db_draws s)\<rparr>) = Inr (Some p, s2)"
    and "\<forall>q \<in> set (db_runs s2). run_key q \<noteq> run_key run" and "period_shape period"
    and "0 < next_index live"
    and "s' = s2\<lparr>db_draws := n, db_runs := db_runs s2 @ [run], db_audit := e\<rparr>"
proof -
  from assms obtain a book live p s2 s3 where step: "tab_find ast_id i (db_assets s) = Some a"
    "book_get s (ast_book_id a) = Inr book"
    "period_index_from (ast_acquired_date a) period = Inr (next_index live)"
    "net_live_runs s i = Inr live" "next_index live \<le> ast_useful_life_months a"
    "0 < depreciation_amount a (next_index live) (i64_sum (map dr_depreciation_minor live))"
    "post_depreciation_journal E book a period
      (depreciation_amount a (next_index live) (i64_sum (map dr_depreciation_minor live)))
      (e_id E (db_draws s)) (s\<lparr>db_draws := Suc (db_draws s)\<rparr>) = Inr (Some p, s2)"
    and run: "run = \<lparr>dr_id = e_id E (db_draws s), dr_book_id = ast_book_id a, dr_asset_id = ast_id a,
        dr_period = period, dr_period_index = next_index live,
        dr_depreciation_minor = depreciation_amount a (next_index live) (i64_sum (map dr_depreciation_minor live)),
        dr_journal_id = jn_id (pj_journal p), dr_created_at = e_now E (db_draws s2)\<rparr>"
    and ins: "run_insert run (s2\<lparr>db_draws := Suc (db_draws s2)\<rparr>) = Inr s3"
    and audit: "emit_audit E (Some (dr_book_id run)) ''asset_depreciation_run'' (Some (dr_id run)) ''post'' None
        (Some (Snap_run run)) s3 = Inr s'"
    by (auto simp: depreciation_run_def attempt_eq_Inr asset_get_Inr Let_def not_le
        split: if_splits option.splits)
  from audit obtain x where s': "s' = s3\<lparr>db_draws := Suc (Suc (db_draws s3)), db_audit := db_audit s3 @ [x]\<rparr>"
    by (rule emit_audit_Inr)
  from ins have s3: "s3 = s2\<lparr>db_draws := Suc (db_draws s2), db_runs := db_runs s2 @ [run]\<rparr>"
    and fresh: "\<forall>q \<in> set (db_runs s2). run_key q \<noteq> run_key run"
    and shape: "period_shape (dr_period run)" "0 < dr_period_index run"
    by (auto simp: run_insert_def constrain_Inr list_ex_iff run_key_def)
  have "ast_id a = i" using tab_find_Some [OF step(1)] by simp
  with step fresh shape show thesis
    by (intro that [of a book live p s2 "db_audit s3 @ [x]" "Suc (Suc (db_draws s3))"])
      (simp_all add: run s' s3)
qed

lemma depreciation_run_keeps:
  assumes "depreciation_run E i period s = Inr (out, s')" and "ledger_ok s" and "assets_ok s"
  shows "ledger_ok s' \<and> assets_ok s'"
proof (cases out)
  case None
  have "db_journals s' = db_journals s \<and> db_lines s' = db_lines s \<and> db_assets s' = db_assets s
      \<and> db_runs s' = db_runs s"
    using assms(1) None depreciation_posting.appends depreciation_posting.keeps_tables
    by (fastforce simp: depreciation_run_def attempt_eq_Inr Let_def split: if_splits option.splits
        dest!: depreciation_posting.outcome)
  then show ?thesis using assms(2,3) assets_ok_frame [of s s' "[]"] ledger_ok_cong [of s' s] by simp
next
  case (Some run)
  from assms(1)[unfolded Some] show ?thesis
  proof (rule depreciation_run_Some)
    fix a book live p s2 n e
    assume a: "tab_find ast_id i (db_assets s) = Some a" and life: "next_index live \<le> ast_useful_life_months a"
      and idx: "period_index_from (ast_acquired_date a) period = Inr (next_index live)" "0 < next_index live"
      and run: "0 < dr_depreciation_minor run" "dr_asset_id run = i" "dr_period run = period"
        "dr_period_index run = next_index live" "dr_journal_id run = jn_id (pj_journal p)"
      and post: "post_depreciation_journal E book a period (dr_depreciation_minor run) (dr_id run)
           (s\<lparr>db_draws := Suc (db_draws s)\<rparr>) = Inr (Some p, s2)"
      and fresh: "\<forall>q \<in> set (db_runs s2). run_key q \<noteq> run_key run"
      and s': "s' = s2\<lparr>db_draws := n, db_runs := db_runs s2 @ [run], db_audit := e\<rparr>"
    have "ledger_ok (s\<lparr>db_draws := Suc (db_draws s)\<rparr>)"
      using assms(2) ledger_ok_cong [of "s\<lparr>db_draws := Suc (db_draws s)\<rparr>" s] by simp
    then have ok2: "ledger_ok s2" by (rule depreciation_posting.keeps_ledger [OF post])
    have ok: "ledger_ok s'" using ok2 ledger_ok_cong [of s' s2] by (simp add: s')
    have js: "db_journals s2 = db_journals s @ [pj_journal p]"
      using depreciation_posting.appends [OF post] by simp
    have t: "db_assets s2 = db_assets s" "db_runs s2 = db_runs s"
      using same_but_ledger_tables [OF depreciation_posting.keeps_tables [OF post]] by simp_all
    have "run_journal (db_journals s2) run"
      using depreciation_posting.posted [OF post] by (simp add: run_journal_def js run)
    moreover have "run_on (db_assets s2) run"
      using tab_find_Some [OF a] idx life run by (auto simp: run_on_def list_ex_iff t)
    moreover have "distinct (map run_key (db_runs s' ))"
      using assms(3) fresh by (auto simp: assets_ok_def s' t)
    ultimately have "assets_ok s'"
      using assms(3) run(1,4) idx(2)
      by (auto simp: assets_ok_def s' t js list_all_iff intro: run_journal_append)
    with ok show ?thesis by simp
  qed
qed

section \<open>Running depreciation\<close>

lemma live_runs_filter:
  assumes "journals_ok (db_journals s)"
  shows "live_runs s rs = Inr (filter (\<lambda>r. is_net_reversed s (dr_journal_id r) = Inr False) rs)"
proof (induction rs)
  case (Cons r rs)
  obtain b where "is_net_reversed s (dr_journal_id r) = Inr b"
    using is_net_reversed_returns [OF assms] by blast
  then show ?case using Cons by simp
qed simp

lemma insort_key_snoc: "f x \<le> f r \<Longrightarrow> insort_key f x (zs @ [r]) = insort_key f x zs @ [r]"
  by (induction zs) auto

lemma sort_key_snoc: "\<forall>y \<in> set ys. f y \<le> f r \<Longrightarrow> sort_key f (ys @ [r]) = sort_key f ys @ [r]"
  by (induction ys) (auto simp: insort_key_snoc)

lemma net_live_runs_sorted:
  assumes "journals_ok (db_journals s)" and "net_live_runs s i = Inr live"
  shows "live = sort_key dr_period_index (filter (\<lambda>r. is_net_reversed s (dr_journal_id r) = Inr False)
           (filter (\<lambda>r. dr_asset_id r = i) (db_runs s)))"
    and "\<forall>r \<in> set live. dr_period_index r < next_index live"
proof -
  show live: "live = sort_key dr_period_index (filter (\<lambda>r. is_net_reversed s (dr_journal_id r) = Inr False)
           (filter (\<lambda>r. dr_asset_id r = i) (db_runs s)))"
    using assms(2) by (simp add: net_live_runs_def runs_for_asset_def live_runs_filter [OF assms(1)] filter_sort)
  have "sorted (map dr_period_index live)" unfolding live by simp
  then have "dr_period_index r \<le> dr_period_index (last live)" if "r \<in> set live" for r
    using that by (induction live) (auto split: if_splits)
  then show "\<forall>r \<in> set live. dr_period_index r < next_index live"
    by (auto simp: next_index_def)
qed

text \<open>
  \<^bold>\<open>C31.\<close> A depreciation run that posts takes the next period after the last live one, inside the
  asset's life, for the amount the schedule gives; it adds one run to the live runs and one
  journal for it, dated at the end of the period, that moves the amount from expense to
  accumulated depreciation. The ledger and the register keep their invariants, and the same
  period is refused from then on.
\<close>

theorem depreciation_run_posts_once:
  assumes "ledger_ok s" and "assets_ok s" and "depreciation_run E i period s = Inr (Some run, s')"
  shows "\<exists>a live j ls. asset_get s i = Inr a \<and> net_live_runs s i = Inr live
    \<and> period_index_from (ast_acquired_date a) period = Inr (next_index live)
    \<and> next_index live \<le> ast_useful_life_months a
    \<and> dr_depreciation_minor run = depreciation_amount a (next_index live) (i64_sum (map dr_depreciation_minor live))
    \<and> 0 < dr_depreciation_minor run
    \<and> net_live_runs s' i = Inr (live @ [run])
    \<and> db_journals s' = db_journals s @ [j] \<and> db_lines s' = db_lines s @ ls
    \<and> jn_id j = dr_journal_id run \<and> period_end_date period = Inr (jn_posted_date j)
    \<and> map (\<lambda>l. (jl_debit_minor l, jl_credit_minor l)) ls
        = [(dr_depreciation_minor run, 0), (0, dr_depreciation_minor run)]
    \<and> ledger_ok s' \<and> assets_ok s'
    \<and> (\<forall>E'. \<exists>m. depreciation_run E' i period s' = Inl (Validation m))"
  using assms(3)
proof (rule depreciation_run_Some)
  fix a book live p s2 n e
  assume a: "tab_find ast_id i (db_assets s) = Some a" and book: "book_get s (ast_book_id a) = Inr book"
    and idx: "period_index_from (ast_acquired_date a) period = Inr (next_index live)"
    and live: "net_live_runs s i = Inr live" and life: "next_index live \<le> ast_useful_life_months a"
    and amount: "0 < dr_depreciation_minor run"
      "dr_depreciation_minor run = depreciation_amount a (next_index live) (i64_sum (map dr_depreciation_minor live))"
    and run: "dr_asset_id run = i" "dr_period_index run = next_index live" "dr_journal_id run = jn_id (pj_journal p)"
    and post: "post_depreciation_journal E book a period (dr_depreciation_minor run) (dr_id run)
           (s\<lparr>db_draws := Suc (db_draws s)\<rparr>) = Inr (Some p, s2)"
    and s': "s' = s2\<lparr>db_draws := n, db_runs := db_runs s2 @ [run], db_audit := e\<rparr>"
  have keeps: "ledger_ok s'" "assets_ok s'" using depreciation_run_keeps [OF assms(3,1,2)] by auto
  have js: "journals_ok (db_journals s)" "journals_ok (db_journals s')"
    using assms(1) keeps(1) by (simp_all add: ledger_ok_def)
  note grows = depreciation_posting.appends [OF post]
  have new: "db_journals s' = db_journals s @ [pj_journal p]" "db_lines s' = db_lines s @ pj_lines p"
    using grows by (simp_all add: s')
  have tables: "db_assets s' = db_assets s" "db_runs s' = db_runs s @ [run]" "db_books s' = db_books s"
    using same_but_ledger_tables [OF depreciation_posting.keeps_tables [OF post]] by (simp_all add: s')
  obtain nj where posted: "post_journal_in_tx E book nj None (s\<lparr>db_draws := Suc (db_draws s)\<rparr>) = Inr (p, s2)"
    and date: "period_end_date period = Inr (nj_posted_date nj)"
    and lines: "\<exists>c c'. map asks (nj_lines nj) = [(c, dr_depreciation_minor run, 0, None, None),
          (c', 0, dr_depreciation_minor run, None, None)]"
    using post by (elim post_depreciation_Inr exE conjE) (rule that, assumption, assumption, intro exI, assumption)
  have "\<exists>c c'. map holds_line (pj_lines p) = [(c, dr_depreciation_minor run, 0, None, None),
          (c', 0, dr_depreciation_minor run, None, None)]"
    using lines posted_says [OF posted] by simp
  then have sides: "map (\<lambda>l. (jl_debit_minor l, jl_credit_minor l)) (pj_lines p)
        = [(dr_depreciation_minor run, 0), (0, dr_depreciation_minor run)]"
    by (auto simp: holds_line_def map_eq_Cons_conv)
  have day: "jn_posted_date (pj_journal p) = nj_posted_date nj" using posted by (auto elim: post_journal_effect)
  have plain: "jn_reversal_of (pj_journal p) = None" using depreciation_posting.posted [OF post] by simp
  have same: "is_net_reversed s' k = is_net_reversed s k" for k
    by (rule is_net_reversed_plain [OF js(2) new(1) plain])
  have "find_reversal s' (dr_journal_id run) = None"
    unfolding run by (rule new_journal_live [OF js(2)[unfolded new] new(1)])
  then have alive: "is_net_reversed s' (dr_journal_id run) = Inr False"
    by (simp add: is_net_reversed_rec [OF js(2)])
  let ?rows = "filter (\<lambda>r. is_net_reversed s (dr_journal_id r) = Inr False)
      (filter (\<lambda>r. dr_asset_id r = i) (db_runs s))"
  note sorted = net_live_runs_sorted [OF js(1) live]
  have "set live = set ?rows" unfolding sorted(1) by (simp only: set_sort)
  then have below: "\<forall>r \<in> set ?rows. dr_period_index r \<le> dr_period_index run"
    using sorted(2) run(2) by (metis less_imp_le)
  have "net_live_runs s' i = Inr (sort_key dr_period_index (?rows @ [run]))"
    using alive by (simp add: net_live_runs_def runs_for_asset_def live_runs_filter [OF js(2)] filter_sort
        tables run(1) same)
  also have "\<dots> = Inr (live @ [run])"
    unfolding sort_key_snoc [OF below] sorted(1) [symmetric] ..
  finally have live': "net_live_runs s' i = Inr (live @ [run])" .
  have "\<exists>m. depreciation_run E' i period s' = Inl (Validation m)" for E'
    using a book idx live' by (auto simp: depreciation_run_def asset_get_Inr [THEN iffD2] book_get_def
        asset_get_def repo_asset_get_def tables next_index_def run(2))
  with a live idx life amount live' new run(3) date day sides keeps show ?thesis
    by (auto simp: asset_get_Inr)
qed

definition sample_fleet :: "depreciation_method \<Rightarrow> int \<Rightarrow> db" where
  "sample_fleet method cost = sample_db\<lparr>db_assets := [sample_asset method cost]\<rparr>"

lemma sample_fleet_ledger_ok: "ledger_ok (sample_fleet method cost)"
  using ledger_ok_cong [of "sample_fleet method cost" sample_db] ledger_ok_sample_db
  by (simp add: sample_fleet_def)

lemma sample_fleet_ok: "assets_ok (sample_fleet DM_StraightLine 1000)" "assets_ok (sample_fleet DM_ReducingBalance 9)"
  by code_simp+

definition sample_january :: "(asset_depreciation_run option \<times> db) res" where
  "sample_january = depreciation_run sample_env ''a'' ''2026-01'' (sample_fleet DM_StraightLine 1000)"

lemma run_some: "map_option (\<lambda>p. fst p = None) (ran r) = Some False \<Longrightarrow> \<exists>x. r = Inr (Some x, db_of r)"
  by (cases r) (auto simp: db_of_def)

lemma sample_january_some: "\<exists>run. sample_january = Inr (Some run, db_of sample_january)"
  by (rule run_some) code_simp

lemma depreciation_run_posts_once_witness:
  "\<exists>run. sample_january = Inr (Some run, db_of sample_january)
     \<and> net_live_runs (db_of sample_january) ''a'' = Inr [run]
     \<and> (\<exists>m. depreciation_run sample_env ''a'' ''2026-01'' (db_of sample_january) = Inl (Validation m))"
proof -
  obtain run where run: "sample_january = Inr (Some run, db_of sample_january)"
    using sample_january_some by blast
  have none: "net_live_runs (sample_fleet DM_StraightLine 1000) ''a'' = Inr []" by code_simp
  from depreciation_run_posts_once [OF sample_fleet_ledger_ok sample_fleet_ok(1) run [unfolded sample_january_def]]
    none run show ?thesis by (auto simp: sample_january_def)
qed

text \<open>
  \<^bold>\<open>C32.\<close> A period whose amount is zero ends the schedule: the run reports nothing to post and
  records nothing, so the period stays the next expected one for ever, and no later period, the
  last one that should bring the asset to its residual value included, can be run.
\<close>

theorem zero_period_ends_schedule:
  assumes "asset_get s i = Inr a" and "net_live_runs s i = Inr live"
    and "depreciation_amount a (next_index live) (i64_sum (map dr_depreciation_minor live)) \<le> 0"
    and "depreciation_run E i period s = Inr (out, s')"
  shows "out = None \<and> s' = s \<and> (\<forall>E' q run s''. depreciation_run E' i q s \<noteq> Inr (Some run, s''))"
proof -
  have stuck: "depreciation_run E' i q s \<noteq> Inr (Some run, s'')" for E' q run s''
  proof
    assume "depreciation_run E' i q s = Inr (Some run, s'')"
    then show False by (rule depreciation_run_Some) (use assms(1-3) in \<open>simp add: asset_get_Inr\<close>)
  qed
  have "out = None" using stuck [of E period] assms(4) by (cases out) auto
  then show ?thesis
    using stuck assms
    by (auto simp: depreciation_run_def asset_get_Inr attempt_eq_Inr Let_def split: if_splits option.splits)
qed

lemma zero_period_ends_schedule_witness:
  "depreciation_run sample_env ''a'' ''2026-01'' (sample_fleet DM_ReducingBalance 9)
     = Inr (None, sample_fleet DM_ReducingBalance 9)
   \<and> (\<forall>q run s''. depreciation_run sample_env ''a'' q (sample_fleet DM_ReducingBalance 9) \<noteq> Inr (Some run, s''))
   \<and> sum_list (depreciation_schedule (sample_asset DM_ReducingBalance 9) 3) = 9"
proof -
  let ?s = "sample_fleet DM_ReducingBalance 9"
  have facts: "asset_get ?s ''a'' = Inr (sample_asset DM_ReducingBalance 9)" "net_live_runs ?s ''a'' = Inr []"
    "depreciation_amount (sample_asset DM_ReducingBalance 9) (next_index []) (i64_sum (map dr_depreciation_minor [])) \<le> 0"
    "sum_list (depreciation_schedule (sample_asset DM_ReducingBalance 9) 3) = 9"
    by code_simp+
  have "ran (depreciation_run sample_env ''a'' ''2026-01'' ?s) \<noteq> None" by code_simp
  note step = run_witness [OF this]
  from zero_period_ends_schedule [OF facts(1-3) step] step facts(4) show ?thesis by auto
qed

text \<open>
  A run whose journal was reversed by hand blocks its asset: the period is expected again, as
  the run is not live, but its row still holds the period, so no period of the asset can be run.
\<close>

theorem reversed_run_blocks_asset:
  assumes "net_live_runs s i = Inr live" and "r \<in> set (db_runs s)" and "dr_asset_id r = i"
    and "dr_period_index r = next_index live"
  shows "depreciation_run E i q s \<noteq> Inr (Some run, s')"
proof
  assume "depreciation_run E i q s = Inr (Some run, s')"
  then show False
  proof (rule depreciation_run_Some)
    fix a book live' p s2 n e
    assume live': "net_live_runs s i = Inr live'" and run: "dr_asset_id run = i" "dr_period_index run = next_index live'"
      and post: "post_depreciation_journal E book a q (dr_depreciation_minor run) (dr_id run)
           (s\<lparr>db_draws := Suc (db_draws s)\<rparr>) = Inr (Some p, s2)"
      and fresh: "\<forall>q \<in> set (db_runs s2). run_key q \<noteq> run_key run"
    have "db_runs s2 = db_runs s"
      using same_but_ledger_tables [OF depreciation_posting.keeps_tables [OF post]] by simp
    then show False using fresh run live' assms by (auto simp: run_key_def)
  qed
qed

text \<open>A store in which the journal of the asset's first run has been reversed.\<close>

definition sample_dep_journal :: "string \<Rightarrow> journal_source_type \<Rightarrow> string option \<Rightarrow> string option \<Rightarrow> journal" where
  "sample_dep_journal i ty source reversed =
     \<lparr>jn_id = i, jn_book_id = ''b'', jn_posted_date = ''2026-01-31'', jn_narrative = None,
      jn_reference = Some ''a'', jn_source_type = ty, jn_source_id = source, jn_reversal_of = reversed,
      jn_created_at = ''2026''\<rparr>"

definition sample_run :: "string \<Rightarrow> string \<Rightarrow> int \<Rightarrow> string \<Rightarrow> asset_depreciation_run" where
  "sample_run i period n journal = \<lparr>dr_id = i, dr_book_id = ''b'', dr_asset_id = ''a'', dr_period = period,
     dr_period_index = n, dr_depreciation_minor = 333, dr_journal_id = journal, dr_created_at = ''2026''\<rparr>"

definition sample_undone :: db where
  "sample_undone = (sample_fleet DM_StraightLine 1000)\<lparr>
     db_journals := [sample_dep_journal ''j1'' JS_Depreciation (Some ''r1'') None,
                     sample_dep_journal ''j2'' JS_Manual None (Some ''j1'')],
     db_runs := [sample_run ''r1'' ''2026-01'' 1 ''j1'']\<rparr>"

lemma reversed_run_blocks_asset_witness:
  "\<forall>q run s'. depreciation_run sample_env ''a'' q sample_undone \<noteq> Inr (Some run, s')"
proof -
  have facts: "net_live_runs sample_undone ''a'' = Inr []"
    "dr_asset_id (sample_run ''r1'' ''2026-01'' 1 ''j1'') = ''a''"
    "dr_period_index (sample_run ''r1'' ''2026-01'' 1 ''j1'') = next_index []"
    by code_simp+
  have "sample_run ''r1'' ''2026-01'' 1 ''j1'' \<in> set (db_runs sample_undone)" by (simp add: sample_undone_def)
  from reversed_run_blocks_asset [OF facts(1) this facts(2,3)] show ?thesis by blast
qed

section \<open>Creating, editing and disposing\<close>

lemma asset_create_keeps:
  assumes "asset_create E new s = Inr (a, s')" and "assets_ok s"
  shows "assets_ok s'" and "db_journals s' = db_journals s" and "db_lines s' = db_lines s"
    and "db_assets s' = db_assets s @ [a]" and "asset_row_ok a" and "ast_status a = AS_Active"
proof -
  from assms(1) obtain s3 where ins: "asset_insert a (s\<lparr>db_draws := Suc (Suc (db_draws s))\<rparr>) = Inr s3"
    and audit: "emit_audit E (Some (ast_book_id a)) ''asset'' (Some (ast_id a)) ''create'' None
        (Some (Snap_asset a)) s3 = Inr s'"
    and status: "ast_status a = AS_Active"
    by (auto simp: asset_create_def attempt_eq_Inr guard_eq_Inr Let_def)
  from ins have s3: "s3 = s\<lparr>db_draws := Suc (Suc (db_draws s)), db_assets := db_assets s @ [a]\<rparr>"
    and row: "asset_row_ok a" and fresh: "ast_id a \<notin> ast_id ` set (db_assets s)"
    by (auto simp: asset_insert_def constrain_Inr has_iff)
  from audit obtain e where s': "s' = s3\<lparr>db_draws := Suc (Suc (db_draws s3)), db_audit := db_audit s3 @ [e]\<rparr>"
    by (rule emit_audit_Inr)
  show "assets_ok s'"
    using assms(2) row fresh by (auto simp: assets_ok_def s' s3 list_all_iff intro: run_on_append)
  show "db_journals s' = db_journals s" "db_lines s' = db_lines s" "db_assets s' = db_assets s @ [a]"
    "asset_row_ok a" "ast_status a = AS_Active"
    using row status by (simp_all add: s' s3)
qed

text \<open>What an edit or a disposal may change of a row that has runs.\<close>

definition same_schedule :: "asset \<Rightarrow> asset \<Rightarrow> bool" where
  "same_schedule a b \<longleftrightarrow> ast_acquired_date b = ast_acquired_date a \<and> ast_cost_minor b = ast_cost_minor a
     \<and> ast_residual_minor b = ast_residual_minor a \<and> ast_useful_life_months b = ast_useful_life_months a
     \<and> ast_method b = ast_method a \<and> ast_reducing_balance_rate_bps b = ast_reducing_balance_rate_bps a"

lemma repo_asset_update_Inr:
  assumes "repo_asset_update after s = Inr s'" and "tab_find ast_id i (db_assets s) = Some before"
    and "distinct (map ast_id (db_assets s))"
    and "ast_id after = i" and "ast_book_id after = ast_book_id before" and "ast_currency after = ast_currency before"
    and "ast_created_at after = ast_created_at before"
  shows "s' = s\<lparr>db_assets := tab_put ast_id after (db_assets s)\<rparr> \<and> asset_row_ok after"
proof -
  note before = tab_find_Some [OF assms(2)]
  have row: "asset_columns after r = after" if "r \<in> set (db_assets s)" "ast_id r = ast_id after" for r
  proof -
    have "r = before" using tab_find_distinct [OF assms(3) that(1)] that(2) assms(2,4) by simp
    then show ?thesis using assms(4-7) before by (simp add: asset_columns_def)
  qed
  then have rows: "map (\<lambda>r. if ast_id r = ast_id after then asset_columns after r else r) (db_assets s)
      = tab_put ast_id after (db_assets s)"
    by (auto simp: tab_put_def)
  have "after \<in> set (tab_put ast_id after (db_assets s))"
    using before assms(4) by (force simp: tab_put_def)
  then show ?thesis
    using assms(1) unfolding repo_asset_update_def rows Let_def by (auto simp: constrain_Inr list_all_iff)
qed

text \<open>Replacing a row keeps the register if the row is fine and its runs, if any, keep their schedule.\<close>

lemma assets_ok_put:
  assumes "assets_ok s" and "tab_find ast_id i (db_assets s) = Some before" and "asset_row_ok after"
    and "ast_id after = i"
    and "(\<exists>r \<in> set (db_runs s). dr_asset_id r = i) \<Longrightarrow> same_schedule before after"
    and "db_assets s' = tab_put ast_id after (db_assets s)" and "db_runs s' = db_runs s"
    and "db_journals s' = db_journals s @ js"
  shows "assets_ok s'"
proof -
  have d: "distinct (map ast_id (db_assets s))" using assms(1) by (simp add: assets_ok_def)
  note before = tab_find_Some [OF assms(2)]
  have on: "run_on (tab_put ast_id after (db_assets s)) r" if r: "r \<in> set (db_runs s)" "run_on (db_assets s) r" for r
  proof -
    from r(2) obtain a where a: "a \<in> set (db_assets s)" "ast_id a = dr_asset_id r"
      "period_index_from (ast_acquired_date a) (dr_period r) = Inr (dr_period_index r)"
      "dr_period_index r \<le> ast_useful_life_months a"
      by (auto simp: run_on_def list_ex_iff)
    show ?thesis
    proof (cases "ast_id a = i")
      case True
      have "a = before" using tab_find_distinct [OF d a(1)] True assms(2) by simp
      moreover have "same_schedule before after" using assms(5) r(1) a(2) True by auto
      moreover have "after \<in> set (tab_put ast_id after (db_assets s))"
        using before assms(4) by (force simp: tab_put_def)
      ultimately show ?thesis using a True assms(4) by (auto simp: run_on_def list_ex_iff same_schedule_def)
    next
      case False
      then have "a \<in> set (tab_put ast_id after (db_assets s))"
        using a(1) assms(4) by (force simp: tab_put_def)
      then show ?thesis using a by (auto simp: run_on_def list_ex_iff)
    qed
  qed
  have rows: "list_all asset_row_ok (tab_put ast_id after (db_assets s))"
    using assms(1,3) by (auto simp: assets_ok_def list_all_iff dest!: in_tab_put)
  show ?thesis
    using assms(1) on rows by (auto simp: assets_ok_def assms(6-8) list_all_iff intro: run_journal_append)
qed

text \<open>The fields an edit never touches.\<close>

definition asset_keeps :: "asset \<Rightarrow> asset \<Rightarrow> bool" where
  "asset_keeps a b \<longleftrightarrow> ast_id b = ast_id a \<and> ast_book_id b = ast_book_id a \<and> ast_currency b = ast_currency a
     \<and> ast_created_at b = ast_created_at a \<and> ast_status b = ast_status a
     \<and> ast_disposed_date b = ast_disposed_date a \<and> ast_disposal_proceeds_minor b = ast_disposal_proceeds_minor a"

lemma asset_keeps_updates [simp]:
  "asset_keeps a (b\<lparr>ast_name := x1\<rparr>) = asset_keeps a b"
  "asset_keeps a (b\<lparr>ast_description := x2\<rparr>) = asset_keeps a b"
  "asset_keeps a (b\<lparr>ast_acquired_date := x3\<rparr>) = asset_keeps a b"
  "asset_keeps a (b\<lparr>ast_cost_minor := x4\<rparr>) = asset_keeps a b"
  "asset_keeps a (b\<lparr>ast_residual_minor := x5\<rparr>) = asset_keeps a b"
  "asset_keeps a (b\<lparr>ast_useful_life_months := x6\<rparr>) = asset_keeps a b"
  "asset_keeps a (b\<lparr>ast_method := x7\<rparr>) = asset_keeps a b"
  "asset_keeps a (b\<lparr>ast_reducing_balance_rate_bps := x8\<rparr>) = asset_keeps a b"
  "asset_keeps a (b\<lparr>ast_updated_at := x9\<rparr>) = asset_keeps a b"
  by (simp_all add: asset_keeps_def)

lemma same_schedule_updates [simp]:
  "same_schedule a (b\<lparr>ast_name := x1\<rparr>) = same_schedule a b"
  "same_schedule a (b\<lparr>ast_description := x2\<rparr>) = same_schedule a b"
  "same_schedule a (b\<lparr>ast_updated_at := x9\<rparr>) = same_schedule a b"
  by (simp_all add: same_schedule_def)

lemma validate_method_Inr:
  "validate_depreciation_method m rate = Inr rate' \<Longrightarrow> rate' = rate"
  by (cases m) (auto simp: validate_depreciation_method_def attempt_eq_Inr ok_or_eq_Inr split: if_splits)

lemma patch_asset_keeps:
  assumes "patch_asset E before p = Inr after"
  shows "asset_keeps before after"
proof -
  have "asset_keeps before before" by (simp add: asset_keeps_def)
  with assms show ?thesis
    unfolding patch_asset_def
    by (elim if_some_then [where P = "asset_keeps before"] guard_then) (auto simp: attempt_eq_Inr guard_eq_Inr)
qed

lemma patch_asset_schedule:
  assumes "patch_asset E before p = Inr after" and "\<not> changes_schedule p"
  shows "same_schedule before after"
proof -
  have none: "pas_acquired_date p = None" "pas_cost_minor p = None" "pas_residual_minor p = None"
    "pas_useful_life_months p = None" "pas_method p = None" "pas_reducing_balance_rate_bps p = None"
    using assms(2) by (simp_all add: changes_schedule_def)
  have "same_schedule before before" by (simp add: same_schedule_def)
  with assms(1) show ?thesis
    unfolding patch_asset_def none if_some_simps attempt_Inr
    by (elim if_some_then [where P = "same_schedule before"] guard_then)
      (auto simp: attempt_eq_Inr guard_eq_Inr same_schedule_def dest!: validate_method_Inr)
qed

lemma asset_update_Inr:
  assumes "asset_update E i p s = Inr (after, s')" and "assets_ok s"
  obtains before e n where "tab_find ast_id i (db_assets s) = Some before" and "ast_status before = AS_Active"
    and "asset_keeps before after" and "asset_row_ok after"
    and "(\<exists>r \<in> set (db_runs s). dr_asset_id r = i) \<longrightarrow> same_schedule before after"
    and "s' = s\<lparr>db_assets := tab_put ast_id after (db_assets s), db_draws := n, db_audit := e\<rparr>"
proof -
  from assms(1) obtain before patched s2 where before: "tab_find ast_id i (db_assets s) = Some before"
    and active: "ast_status before \<noteq> AS_Disposed"
    and frozen: "\<not> (changes_schedule p \<and> runs_for_asset s i \<noteq> [])"
    and patched: "patch_asset E before p = Inr patched"
    and after: "after = patched\<lparr>ast_updated_at := e_now E (db_draws s)\<rparr>"
    and upd: "repo_asset_update after (s\<lparr>db_draws := Suc (db_draws s)\<rparr>) = Inr s2"
    and audit: "emit_audit E (Some (ast_book_id after)) ''asset'' (Some i) ''update''
              (Some (Snap_asset before)) (Some (Snap_asset after)) s2 = Inr s'"
    by (auto simp: asset_update_def attempt_eq_Inr guard_eq_Inr asset_get_Inr Let_def)
  have d: "distinct (map ast_id (db_assets s))" using assms(2) by (simp add: assets_ok_def)
  have keeps: "asset_keeps before after" using patch_asset_keeps [OF patched] by (simp add: after)
  have same: "same_schedule before after" if "\<exists>r \<in> set (db_runs s). dr_asset_id r = i"
  proof -
    have "set (runs_for_asset s i) \<noteq> {}" using that by (auto simp: runs_for_asset_def)
    then have "\<not> changes_schedule p" using frozen by auto
    then show ?thesis using patch_asset_schedule [OF patched] by (simp add: after)
  qed
  have "s2 = s\<lparr>db_draws := Suc (db_draws s), db_assets := tab_put ast_id after (db_assets s)\<rparr> \<and> asset_row_ok after"
    using repo_asset_update_Inr [OF upd, of i before] before d keeps tab_find_Some [OF before]
    by (simp add: asset_keeps_def)
  moreover from audit obtain x where "s' = s2\<lparr>db_draws := Suc (Suc (db_draws s2)), db_audit := db_audit s2 @ [x]\<rparr>"
    by (rule emit_audit_Inr)
  ultimately show thesis
    using before active keeps same
    by (intro that [of before "db_audit s @ [x]" "Suc (Suc (Suc (db_draws s)))"])
      (cases "ast_status before"; simp)+
qed

lemma asset_update_keeps:
  assumes "asset_update E i p s = Inr (after, s')" and "assets_ok s"
  shows "assets_ok s'" and "db_journals s' = db_journals s" and "db_lines s' = db_lines s"
proof -
  obtain before e n where before: "tab_find ast_id i (db_assets s) = Some before" "asset_keeps before after"
    "asset_row_ok after" "(\<exists>r \<in> set (db_runs s). dr_asset_id r = i) \<longrightarrow> same_schedule before after"
    and s': "s' = s\<lparr>db_assets := tab_put ast_id after (db_assets s), db_draws := n, db_audit := e\<rparr>"
    using assms by (rule asset_update_Inr)
  have "ast_id after = i" using before tab_find_Some [OF before(1)] by (simp add: asset_keeps_def)
  then show "assets_ok s'"
    using before(4) by (intro assets_ok_put [OF assms(2) before(1,3), of s' "[]"]) (simp_all add: s')
  show "db_journals s' = db_journals s" "db_lines s' = db_lines s" by (simp_all add: s')
qed

text \<open>
  \<^bold>\<open>C33.\<close> Once a run is recorded for an asset, its schedule is frozen: an edit that succeeds keeps
  its dates, amounts, life and method, whatever the patch asks for, and no edit changes the
  asset's book, currency or status; the register keeps its invariant.
\<close>

theorem schedule_frozen_after_run:
  assumes "assets_ok s" and "asset_update E i p s = Inr (after, s')"
    and "r \<in> set (db_runs s)" and "dr_asset_id r = i"
  shows "\<exists>before. asset_get s i = Inr before \<and> asset_get s' i = Inr after
    \<and> same_schedule before after \<and> asset_keeps before after \<and> ast_status after = AS_Active
    \<and> db_runs s' = db_runs s \<and> assets_ok s'"
proof -
  obtain before e n where before: "tab_find ast_id i (db_assets s) = Some before" "ast_status before = AS_Active"
    "asset_keeps before after" and same: "same_schedule before after"
    and s': "s' = s\<lparr>db_assets := tab_put ast_id after (db_assets s), db_draws := n, db_audit := e\<rparr>"
    using assms(3,4) by (auto intro: asset_update_Inr [OF assms(2,1)])
  have "ast_id after = i" using before tab_find_Some [OF before(1)] by (simp add: asset_keeps_def)
  moreover have "i \<in> ast_id ` set (db_assets s)" using tab_find_Some [OF before(1)] by auto
  ultimately have "tab_find ast_id i (db_assets s') = Some after" by (simp add: s' tab_find_put)
  then show ?thesis
    using before same asset_update_keeps(1) [OF assms(2,1)]
    by (auto simp: asset_get_Inr s' asset_keeps_def)
qed

definition sample_used :: db where
  "sample_used = (sample_fleet DM_StraightLine 1000)\<lparr>
     db_journals := [sample_dep_journal ''j1'' JS_Depreciation (Some ''r1'') None],
     db_runs := [sample_run ''r1'' ''2026-01'' 1 ''j1'']\<rparr>"

lemma sample_used_ok: "assets_ok sample_used"
  by code_simp

definition sample_rename :: asset_patch where
  "sample_rename = \<lparr>pas_name = Some ''Bus'', pas_description = None, pas_acquired_date = None,
     pas_cost_minor = None, pas_residual_minor = None, pas_useful_life_months = None, pas_method = None,
     pas_reducing_balance_rate_bps = None\<rparr>"

lemma schedule_frozen_after_run_witness:
  "\<exists>after s'. asset_update sample_env ''a'' sample_rename sample_used = Inr (after, s')
     \<and> ast_status after = AS_Active \<and> assets_ok s'"
proof -
  have "ran (asset_update sample_env ''a'' sample_rename sample_used) \<noteq> None" by code_simp
  note step = run_witness [OF this]
  have r: "sample_run ''r1'' ''2026-01'' 1 ''j1'' \<in> set (db_runs sample_used)"
    "dr_asset_id (sample_run ''r1'' ''2026-01'' 1 ''j1'') = ''a''"
    by (simp_all add: sample_used_def sample_run_def)
  from schedule_frozen_after_run [OF sample_used_ok step r] step show ?thesis by blast
qed

lemma asset_dispose_Inr:
  assumes "asset_dispose E i d s = Inr (after, s')" and "assets_ok s"
  obtains before book month k s2 e n where "tab_find ast_id i (db_assets s) = Some before"
    and "ast_status before = AS_Active" and "book_get s (ast_book_id before) = Inr book"
    and "str_slice 0 7 (adp_disposed_date d) = Inr month"
    and "period_index_from (ast_acquired_date before) month = Inr k"
    and "for_each (reverse_if_live E book (dispose_narrative before) (take 10 (e_now E (db_draws s))))
           (map dr_journal_id (filter (\<lambda>r. k < dr_period_index r) (runs_for_asset s i)))
           (s\<lparr>db_draws := Suc (db_draws s)\<rparr>) = Inr s2"
    and "db_assets s2 = db_assets s \<longrightarrow>
           s' = s2\<lparr>db_assets := tab_put ast_id after (db_assets s), db_draws := n, db_audit := e\<rparr>
           \<and> asset_row_ok after"
    and "after = before\<lparr>ast_status := AS_Disposed, ast_disposed_date := Some (adp_disposed_date d),
           ast_disposal_proceeds_minor := adp_proceeds_minor d, ast_updated_at := e_now E (db_draws s2)\<rparr>"
proof -
  from assms(1) obtain before book month k s2 s4 where step: "tab_find ast_id i (db_assets s) = Some before"
    "ast_status before \<noteq> AS_Disposed" "book_get s (ast_book_id before) = Inr book"
    "str_slice 0 7 (adp_disposed_date d) = Inr month"
    "period_index_from (ast_acquired_date before) month = Inr k"
    "for_each (reverse_if_live E book (dispose_narrative before) (take 10 (e_now E (db_draws s))))
           (map dr_journal_id (filter (\<lambda>r. k < dr_period_index r)
             (runs_for_asset (s\<lparr>db_draws := Suc (db_draws s)\<rparr>) i)))
           (s\<lparr>db_draws := Suc (db_draws s)\<rparr>) = Inr s2"
    and after: "after = before\<lparr>ast_status := AS_Disposed, ast_disposed_date := Some (adp_disposed_date d),
           ast_disposal_proceeds_minor := adp_proceeds_minor d, ast_updated_at := e_now E (db_draws s2)\<rparr>"
    and upd: "repo_asset_update after (s2\<lparr>db_draws := Suc (db_draws s2)\<rparr>) = Inr s4"
    and audit: "emit_audit E (Some (ast_book_id after)) ''asset'' (Some i) ''dispose''
                 (Some (Snap_asset before)) (Some (Snap_asset after)) s4 = Inr s'"
    by (auto simp: asset_dispose_def attempt_eq_Inr guard_eq_Inr asset_get_Inr Let_def)
  from audit obtain x where s': "s' = s4\<lparr>db_draws := Suc (Suc (db_draws s4)), db_audit := db_audit s4 @ [x]\<rparr>"
    by (rule emit_audit_Inr)
  have "s4 = s2\<lparr>db_draws := Suc (db_draws s2), db_assets := tab_put ast_id after (db_assets s)\<rparr> \<and> asset_row_ok after"
    if "db_assets s2 = db_assets s"
    using repo_asset_update_Inr [OF upd, of i before] step(1) assms(2) that tab_find_Some [OF step(1)]
    by (simp add: after assets_ok_def)
  moreover have "runs_for_asset (s\<lparr>db_draws := Suc (db_draws s)\<rparr>) i = runs_for_asset s i"
    by (simp add: runs_for_asset_def)
  moreover have "ast_status before = AS_Active" using step(2) by (cases "ast_status before") auto
  ultimately show thesis
    using step after
    by (intro that [of before book month k s2 "db_audit s2 @ [x]" "Suc (Suc (Suc (db_draws s2)))"])
      (simp_all add: s')
qed

lemma run_generated:
  assumes "assets_ok s" and "r \<in> set (db_runs s)"
  shows "generated s (dr_journal_id r)"
proof -
  from assms have "run_journal (db_journals s) r" by (auto simp: assets_ok_def list_all_iff)
  then show ?thesis by (auto simp: run_journal_def generated_def list_ex_iff)
qed

lemma asset_dispose_effect:
  assumes "asset_dispose E i d s = Inr (after, s')" and "ledger_ok s" and "assets_ok s"
  obtains before month k js where "tab_find ast_id i (db_assets s) = Some before"
    and "str_slice 0 7 (adp_disposed_date d) = Inr month"
    and "period_index_from (ast_acquired_date before) month = Inr k"
    and "ledger_ok s'" and "assets_ok s'" and "db_journals s' = db_journals s @ js"
    and "db_runs s' = db_runs s" and "db_assets s' = tab_put ast_id after (db_assets s)"
    and "same_schedule before after" and "ast_status after = AS_Disposed" and "ast_id after = i"
    and "ast_disposed_date after = Some (adp_disposed_date d)"
    and "\<And>r. r \<in> set (db_runs s) \<Longrightarrow> dr_asset_id r = i \<Longrightarrow> k < dr_period_index r \<Longrightarrow>
           is_net_reversed s' (dr_journal_id r) = Inr True"
    and "\<And>g. generated s g \<Longrightarrow>
           (\<forall>r \<in> set (db_runs s). dr_asset_id r = i \<and> k < dr_period_index r \<longrightarrow> dr_journal_id r \<noteq> g) \<Longrightarrow>
           is_net_reversed s' g = is_net_reversed s g"
  using assms(1,3)
proof (rule asset_dispose_Inr)
  fix before book month k s2 e n
  let ?s = "s\<lparr>db_draws := Suc (db_draws s)\<rparr>"
  let ?late = "map dr_journal_id (filter (\<lambda>r. k < dr_period_index r) (runs_for_asset s i))"
  assume before: "tab_find ast_id i (db_assets s) = Some before"
    and month: "str_slice 0 7 (adp_disposed_date d) = Inr month"
      "period_index_from (ast_acquired_date before) month = Inr k"
    and loop: "for_each (reverse_if_live E book (dispose_narrative before) (take 10 (e_now E (db_draws s))))
           ?late ?s = Inr s2"
    and stored: "db_assets s2 = db_assets s \<longrightarrow>
           s' = s2\<lparr>db_assets := tab_put ast_id after (db_assets s), db_draws := n, db_audit := e\<rparr>
           \<and> asset_row_ok after"
    and after: "after = before\<lparr>ast_status := AS_Disposed, ast_disposed_date := Some (adp_disposed_date d),
           ast_disposal_proceeds_minor := adp_proceeds_minor d, ast_updated_at := e_now E (db_draws s2)\<rparr>"
  have ok: "ledger_ok ?s" using assms(2) ledger_ok_cong [of ?s s] by simp
  have gen_draws: "generated ?s g = generated s g" for g by (simp add: generated_def)
  have late: "set ?late = {dr_journal_id r |r. r \<in> set (db_runs s) \<and> dr_asset_id r = i \<and> k < dr_period_index r}"
    by (auto simp: runs_for_asset_def)
  then have gens: "\<forall>g \<in> set ?late. generated ?s g"
    using run_generated [OF assms(3)] by (auto simp: gen_draws)
  have grows: "ledger_grows ?s s2" using loop by (rule cancelling_leg.loop_keeps)
  then have ok2: "ledger_ok s2" and same: "same_but_ledger ?s s2"
    and js: "\<exists>js. db_journals s2 = db_journals s @ js"
    using ok by (auto simp: ledger_grows_def)
  note t = same_but_ledger_tables [OF same]
  note leg = reverse_leg [OF loop ok gens]
  have s': "s' = s2\<lparr>db_assets := tab_put ast_id after (db_assets s), db_draws := n, db_audit := e\<rparr>"
    and row: "asset_row_ok after" using stored t by simp_all
  have net: "is_net_reversed s' g = is_net_reversed s2 g" for g
    by (rule is_net_reversed_cong) (simp add: s')
  have base: "is_net_reversed ?s g = is_net_reversed s g" for g
    by (rule is_net_reversed_cong) simp
  have i: "ast_id after = i" and sched: "same_schedule before after"
    using tab_find_Some [OF before] by (simp_all add: after same_schedule_def)
  obtain js where js: "db_journals s' = db_journals s @ js" using js by (auto simp: s')
  have "assets_ok s'"
    by (rule assets_ok_put [OF assms(3) before row i sched _ _ js]) (use t in \<open>simp_all add: s'\<close>)
  moreover have "ledger_ok s'" using ok2 ledger_ok_cong [of s' s2] by (simp add: s')
  moreover have "is_net_reversed s' (dr_journal_id r) = Inr True"
    if "r \<in> set (db_runs s)" "dr_asset_id r = i" "k < dr_period_index r" for r
  proof -
    have "dr_journal_id r \<in> set ?late" unfolding late using that by blast
    with conjunct1 [OF leg] have "is_net_reversed s2 (dr_journal_id r) = Inr True" by blast
    then show ?thesis by (simp only: net)
  qed
  moreover have "is_net_reversed s' g = is_net_reversed s g" if "generated s g"
    "\<forall>r \<in> set (db_runs s). dr_asset_id r = i \<and> k < dr_period_index r \<longrightarrow> dr_journal_id r \<noteq> g" for g
  proof -
    have "g \<notin> set ?late" unfolding late using that(2) by blast
    with conjunct2 [OF leg] that(1) have "is_net_reversed s2 g = is_net_reversed ?s g" by (metis gen_draws)
    then show ?thesis by (simp only: net base)
  qed
  ultimately show thesis
    by (intro that [OF before month _ _ js _ _ sched _ i]) (use t in \<open>simp_all add: s' after\<close>)
qed

text \<open>
  \<^bold>\<open>C34.\<close> A disposal takes back the depreciation posted for periods after the month of disposal and
  no other: the journals of the later runs are all reversed in the end, every other generated
  journal is as live as it was, no run is deleted, and the disposed asset refuses edits and a
  second disposal.
\<close>

theorem disposal_reverses_later_runs:
  assumes "ledger_ok s" and "assets_ok s" and "asset_dispose E i d s = Inr (after, s')"
  shows "\<exists>before month k. asset_get s i = Inr before \<and> str_slice 0 7 (adp_disposed_date d) = Inr month
    \<and> period_index_from (ast_acquired_date before) month = Inr k
    \<and> (\<forall>r \<in> set (db_runs s'). dr_asset_id r = i \<and> k < dr_period_index r \<longrightarrow>
         is_net_reversed s' (dr_journal_id r) = Inr True)
    \<and> (\<forall>g. generated s g \<and> (\<forall>r \<in> set (db_runs s). dr_asset_id r = i \<and> k < dr_period_index r \<longrightarrow>
         dr_journal_id r \<noteq> g) \<longrightarrow> is_net_reversed s' g = is_net_reversed s g)
    \<and> db_runs s' = db_runs s \<and> asset_get s' i = Inr after \<and> same_schedule before after
    \<and> ledger_ok s' \<and> assets_ok s'
    \<and> (\<forall>E' p. asset_update E' i p s' = Inl (Validation ''cannot edit a disposed asset''))
    \<and> (\<forall>E' d'. asset_dispose E' i d' s' = Inl (Validation ''asset is already disposed''))"
  using assms(3,1,2)
proof (rule asset_dispose_effect)
  fix before month k js
  assume before: "tab_find ast_id i (db_assets s) = Some before"
    and month: "str_slice 0 7 (adp_disposed_date d) = Inr month"
      "period_index_from (ast_acquired_date before) month = Inr k"
    and ok: "ledger_ok s'" "assets_ok s'" and runs: "db_runs s' = db_runs s"
    and assets: "db_assets s' = tab_put ast_id after (db_assets s)"
    and after: "same_schedule before after" "ast_status after = AS_Disposed" "ast_id after = i"
    and late: "\<And>r. r \<in> set (db_runs s) \<Longrightarrow> dr_asset_id r = i \<Longrightarrow> k < dr_period_index r \<Longrightarrow>
           is_net_reversed s' (dr_journal_id r) = Inr True"
    and other: "\<And>g. generated s g \<Longrightarrow>
           (\<forall>r \<in> set (db_runs s). dr_asset_id r = i \<and> k < dr_period_index r \<longrightarrow> dr_journal_id r \<noteq> g) \<Longrightarrow>
           is_net_reversed s' g = is_net_reversed s g"
  have "i \<in> ast_id ` set (db_assets s)" using tab_find_Some [OF before] by auto
  then have found: "asset_get s' i = Inr after" using after(3) by (simp add: asset_get_Inr assets tab_find_put)
  then have "asset_update E' i p s' = Inl (Validation ''cannot edit a disposed asset'')"
    "asset_dispose E' i d' s' = Inl (Validation ''asset is already disposed'')" for E' p d'
    using after(2) by (simp_all add: asset_update_def asset_dispose_def)
  then show ?thesis using before month ok runs after(1) late other found by (auto simp: asset_get_Inr)
qed

text \<open>Two runs, in January and in February; the asset is disposed of at the end of January.\<close>

definition sample_month_line :: "string \<Rightarrow> string \<Rightarrow> string \<Rightarrow> int \<Rightarrow> int \<Rightarrow> int \<Rightarrow> journal_line" where
  "sample_month_line i journal account debit credit n = \<lparr>jl_id = i, jl_journal_id = journal, jl_book_id = ''b'',
     jl_coa_id = account, jl_debit_minor = debit, jl_credit_minor = credit, jl_currency = ''ZAR'',
     jl_description = None, jl_line_order = n, jl_vat_rate_id = None, jl_vat_role = None,
     jl_created_at = ''2026''\<rparr>"

definition sample_two_months :: db where
  "sample_two_months = (sample_fleet DM_StraightLine 1000)\<lparr>
     db_journals := [sample_dep_journal ''j1'' JS_Depreciation (Some ''r1'') None,
                     sample_dep_journal ''j2'' JS_Depreciation (Some ''r2'') None],
     db_lines := [sample_month_line ''n1'' ''j1'' ''c6250'' 333 0 0, sample_month_line ''n2'' ''j1'' ''c1600'' 0 333 1,
                  sample_month_line ''n3'' ''j2'' ''c6250'' 333 0 0, sample_month_line ''n4'' ''j2'' ''c1600'' 0 333 1],
     db_runs := [sample_run ''r1'' ''2026-01'' 1 ''j1'', sample_run ''r2'' ''2026-02'' 2 ''j2'']\<rparr>"

lemma sample_two_months_ok: "ledger_ok sample_two_months" "assets_ok sample_two_months"
  by code_simp+

definition sample_disposed :: "(asset \<times> db) res" where
  "sample_disposed = asset_dispose sample_env ''a''
     \<lparr>adp_disposed_date = ''2026-01-31'', adp_proceeds_minor = Some 500\<rparr> sample_two_months"

lemma disposal_reverses_later_runs_witness:
  "\<exists>after s'. sample_disposed = Inr (after, s') \<and> is_net_reversed s' ''j2'' = Inr True
     \<and> asset_dispose sample_env ''a'' \<lparr>adp_disposed_date = ''2026-01-31'', adp_proceeds_minor = None\<rparr> s'
         = Inl (Validation ''asset is already disposed'')"
proof -
  have "ran sample_disposed \<noteq> None" by code_simp
  note step = run_witness [OF this]
  have facts: "str_slice 0 7 ''2026-01-31'' = Inr ''2026-01''"
    "map_option ast_acquired_date (ran (asset_get sample_two_months ''a'')) = Some ''2026-01-15''"
    "period_index_from ''2026-01-15'' ''2026-01'' = Inr 1"
    by code_simp+
  have late: "sample_run ''r2'' ''2026-02'' 2 ''j2'' \<in> set (db_runs sample_two_months)"
    "dr_asset_id (sample_run ''r2'' ''2026-02'' 2 ''j2'') = ''a''"
    "dr_period_index (sample_run ''r2'' ''2026-02'' 2 ''j2'') = 2"
    "dr_journal_id (sample_run ''r2'' ''2026-02'' 2 ''j2'') = ''j2''"
    by (simp_all add: sample_two_months_def sample_run_def)
  from disposal_reverses_later_runs [OF sample_two_months_ok step [unfolded sample_disposed_def], folded sample_disposed_def]
  have "is_net_reversed (db_of sample_disposed) ''j2'' = Inr True"
    and "asset_dispose sample_env ''a'' \<lparr>adp_disposed_date = ''2026-01-31'', adp_proceeds_minor = None\<rparr>
        (db_of sample_disposed) = Inl (Validation ''asset is already disposed'')"
    using facts late by fastforce+
  with step show ?thesis by blast
qed

end
