(* ===== verification/Sales_Repo.thy ===== *)
theory Sales_Repo
  imports Trade_Posting Stock
begin

text \<open>
  The tables of quotes, sales orders, invoices and payments: \<^verbatim>\<open>repo/sales.rs\<close> over migration 0014.
  Numbers come from one table of sequences, keyed by book and series; invoices, their lines and
  payments are inserted and never changed; deleting an order or a quote deletes its lines.
\<close>

section \<open>Numbering\<close>

text \<open>
  \<^verbatim>\<open>INSERT .. ON CONFLICT DO UPDATE .. RETURNING\<close>. SQLite's sum becomes a floating-point number
  past the 64-bit range, which the code fails to read back as an integer.
\<close>

definition next_number :: "db \<Rightarrow> string \<Rightarrow> string \<Rightarrow> int option" where
  "next_number s book_id series =
     map_option snd (List.find (\<lambda>r. fst r = (book_id, series)) (db_sequences s))"

definition allocate_number :: "string \<Rightarrow> string \<Rightarrow> db \<Rightarrow> (int \<times> db) res" where
  "allocate_number book_id series s =
     (case next_number s book_id series of
        None \<Rightarrow>
          constrain True True (has bk_id book_id (db_books s))
            (Inr (1, s\<lparr>db_sequences := db_sequences s @ [((book_id, series), 2)]\<rparr>))
      | Some n \<Rightarrow>
          if in_i64 (n + 1)
          then Inr (n, s\<lparr>db_sequences :=
                 map (\<lambda>r. if fst r = (book_id, series) then (fst r, n + 1) else r) (db_sequences s)\<rparr>)
          else Inl (Sqlite ''Invalid column type Real''))"

text \<open>One allocation: the next number of its series, and no other series moves.\<close>

lemma allocate_number_Inr:
  assumes "allocate_number b series s = Inr (n, s')"
  obtains seqs where "s' = s\<lparr>db_sequences := seqs\<rparr>"
    and "next_number s' b series = Some (n + 1)"
    and "n = (case next_number s b series of None \<Rightarrow> 1 | Some k \<Rightarrow> k)"
    and "\<And>b' t. (b', t) \<noteq> (b, series) \<Longrightarrow> next_number s' b' t = next_number s b' t"
proof (cases "next_number s b series")
  case None
  then have "List.find (\<lambda>r. fst r = (b, series)) (db_sequences s) = None" by (simp add: next_number_def)
  moreover have s': "s' = s\<lparr>db_sequences := db_sequences s @ [((b, series), 2)]\<rparr>" "n = 1"
    using assms None by (auto simp: allocate_number_def constrain_Inr)
  ultimately show thesis
    by (intro that [OF s'(1)]) (auto simp: next_number_def find_append None split: option.splits)
next
  case (Some k)
  let ?f = "\<lambda>r :: (string \<times> string) \<times> int. if fst r = (b, series) then (fst r, k + 1) else r"
  have s': "s' = s\<lparr>db_sequences := map ?f (db_sequences s)\<rparr>" "n = k"
    using assms Some by (auto simp: allocate_number_def split: if_splits)
  have find: "List.find (\<lambda>r. fst r = (b', t)) (map ?f rows)
      = map_option ?f (List.find (\<lambda>r. fst r = (b', t)) rows)" for b' t and rows :: "((string \<times> string) \<times> int) list"
    by (induction rows) auto
  from Some obtain r where r: "List.find (\<lambda>r. fst r = (b, series)) (db_sequences s) = Some r" "snd r = k"
    by (auto simp: next_number_def)
  show thesis
  proof (rule that [OF s'(1)])
    show "next_number s' b series = Some (n + 1)"
      using r find_eq_SomeD [OF r(1)] by (simp add: next_number_def s' find)
    show "n = (case next_number s b series of None \<Rightarrow> 1 | Some k \<Rightarrow> k)" by (simp add: Some s'(2))
    show "next_number s' b' t = next_number s b' t" if "(b', t) \<noteq> (b, series)" for b' t
    proof (cases "List.find (\<lambda>r. fst r = (b', t)) (db_sequences s)")
      case None
      then show ?thesis by (simp add: next_number_def s' find)
    next
      case (Some x)
      with find_eq_SomeD [OF Some] that show ?thesis by (auto simp: next_number_def s' find)
    qed
  qed
qed

section \<open>Sales orders\<close>

definition order_insert :: "sales_order \<Rightarrow> db \<Rightarrow> db res" where
  "order_insert order s =
     constrain (length (so_currency order) = 3)
       (\<not> has so_id (so_id order) (db_orders s)
        \<and> \<not> list_ex (\<lambda>r. so_book_id r = so_book_id order \<and> so_number r = so_number order) (db_orders s))
       (has bk_id (so_book_id order) (db_books s) \<and> has ct_id (so_contact_id order) (db_contacts s)
        \<and> (case so_location_id order of None \<Rightarrow> True | Some l \<Rightarrow> has lo_id l (db_locations s)))
       (Inr (s\<lparr>db_orders := db_orders s @ [order]\<rparr>))"

definition order_get :: "db \<Rightarrow> string \<Rightarrow> sales_order option" where
  "order_get s i = tab_find so_id i (db_orders s)"

definition order_list :: "db \<Rightarrow> string \<Rightarrow> sales_order list" where
  "order_list s book_id = rev (sort_key so_number (filter (\<lambda>r. so_book_id r = book_id) (db_orders s)))"

text \<open>The columns an update sets; the row keeps its book, number and creation time.\<close>

definition order_columns :: "sales_order \<Rightarrow> sales_order \<Rightarrow> sales_order" where
  "order_columns order r =
     order\<lparr>so_id := so_id r, so_book_id := so_book_id r, so_number := so_number r,
           so_created_at := so_created_at r\<rparr>"

definition order_update :: "sales_order \<Rightarrow> db \<Rightarrow> db res" where
  "order_update order s =
     (if \<not> has so_id (so_id order) (db_orders s) then Inr s
      else constrain (length (so_currency order) = 3) True
        (has ct_id (so_contact_id order) (db_contacts s)
         \<and> (case so_location_id order of None \<Rightarrow> True | Some l \<Rightarrow> has lo_id l (db_locations s)))
        (Inr (s\<lparr>db_orders :=
           map (\<lambda>r. if so_id r = so_id order then order_columns order r else r) (db_orders s)\<rparr>)))"

text \<open>
  Deleting an order deletes its lines and clears the quote that became it. An invoice of the
  order would have its reference cleared too, which the trigger on invoices refuses.
\<close>

definition order_delete :: "string \<Rightarrow> db \<Rightarrow> (bool \<times> db) res" where
  "order_delete i s =
     (if \<not> has so_id i (db_orders s) then Inr (False, s)
      else if list_ex (\<lambda>v. iv_sales_order_id v = Some i) (db_invoices s)
      then Inl (Sqlite ''issued invoices are immutable; a correction is a credit note, not an edit'')
      else Inr (True, s\<lparr>db_orders := tab_del so_id i (db_orders s),
             db_order_items := filter (\<lambda>x. soi_sales_order_id x \<noteq> i) (db_order_items s),
             db_quotes := map (\<lambda>q. if qt_converted_sales_order_id q = Some i
                then q\<lparr>qt_converted_sales_order_id := None\<rparr> else q) (db_quotes s)\<rparr>))"

definition line_row_ok :: "int \<Rightarrow> int \<Rightarrow> int \<Rightarrow> bool" where
  "line_row_ok quantity unit_price_minor tax_rate_bps \<longleftrightarrow>
     0 < quantity \<and> 0 \<le> unit_price_minor \<and> 0 \<le> tax_rate_bps \<and> tax_rate_bps \<le> 10000"

definition order_item_insert :: "sales_order_item \<Rightarrow> db \<Rightarrow> db res" where
  "order_item_insert item s =
     constrain (line_row_ok (soi_quantity item) (soi_unit_price_minor item) (soi_tax_rate_bps item))
       (\<not> has soi_id (soi_id item) (db_order_items s))
       (has so_id (soi_sales_order_id item) (db_orders s) \<and> has bk_id (soi_book_id item) (db_books s)
        \<and> (case soi_variant_id item of None \<Rightarrow> True | Some v \<Rightarrow> has pv_id v (db_variants s)))
       (Inr (s\<lparr>db_order_items := db_order_items s @ [item]\<rparr>))"

definition order_item_get :: "db \<Rightarrow> string \<Rightarrow> sales_order_item option" where
  "order_item_get s i = tab_find soi_id i (db_order_items s)"

definition order_item_list :: "db \<Rightarrow> string \<Rightarrow> sales_order_item list" where
  "order_item_list s sales_order_id =
     sort_key (\<lambda>i. (soi_line_order i, soi_created_at i, soi_id i))
       (filter (\<lambda>i. soi_sales_order_id i = sales_order_id) (db_order_items s))"

definition order_item_update :: "sales_order_item \<Rightarrow> db \<Rightarrow> db res" where
  "order_item_update item s =
     (if \<not> has soi_id (soi_id item) (db_order_items s) then Inr s
      else constrain (line_row_ok (soi_quantity item) (soi_unit_price_minor item) (soi_tax_rate_bps item))
        True True
        (Inr (s\<lparr>db_order_items := map (\<lambda>r. if soi_id r = soi_id item
            then r\<lparr>soi_description := soi_description item, soi_quantity := soi_quantity item,
                   soi_unit_price_minor := soi_unit_price_minor item,
                   soi_tax_rate_bps := soi_tax_rate_bps item, soi_updated_at := soi_updated_at item\<rparr>
            else r) (db_order_items s)\<rparr>)))"

definition order_item_delete :: "string \<Rightarrow> db \<Rightarrow> (bool \<times> db) res" where
  "order_item_delete i s =
     Inr (has soi_id i (db_order_items s), s\<lparr>db_order_items := tab_del soi_id i (db_order_items s)\<rparr>)"

definition order_totals :: "db \<Rightarrow> string \<Rightarrow> sales_order_totals" where
  "order_totals s sales_order_id =
     line_totals (map (\<lambda>i. (soi_quantity i, soi_unit_price_minor i, soi_tax_rate_bps i))
       (order_item_list s sales_order_id))"

section \<open>Quotes\<close>

definition quote_insert :: "quote \<Rightarrow> db \<Rightarrow> db res" where
  "quote_insert q s =
     constrain (length (qt_currency q) = 3)
       (\<not> has qt_id (qt_id q) (db_quotes s)
        \<and> \<not> list_ex (\<lambda>r. qt_book_id r = qt_book_id q \<and> qt_number r = qt_number q) (db_quotes s))
       (has bk_id (qt_book_id q) (db_books s) \<and> has ct_id (qt_contact_id q) (db_contacts s)
        \<and> (case qt_converted_sales_order_id q of None \<Rightarrow> True | Some o_id \<Rightarrow> has so_id o_id (db_orders s)))
       (Inr (s\<lparr>db_quotes := db_quotes s @ [q]\<rparr>))"

definition repo_quote_get :: "db \<Rightarrow> string \<Rightarrow> quote option" where
  "repo_quote_get s i = tab_find qt_id i (db_quotes s)"

definition repo_quote_list :: "db \<Rightarrow> string \<Rightarrow> quote list" where
  "repo_quote_list s book_id = rev (sort_key qt_number (filter (\<lambda>r. qt_book_id r = book_id) (db_quotes s)))"

definition quote_columns :: "quote \<Rightarrow> quote \<Rightarrow> quote" where
  "quote_columns q r =
     q\<lparr>qt_id := qt_id r, qt_book_id := qt_book_id r, qt_number := qt_number r,
       qt_created_at := qt_created_at r\<rparr>"

definition repo_quote_update :: "quote \<Rightarrow> db \<Rightarrow> db res" where
  "repo_quote_update q s =
     (if \<not> has qt_id (qt_id q) (db_quotes s) then Inr s
      else constrain (length (qt_currency q) = 3) True
        (has ct_id (qt_contact_id q) (db_contacts s)
         \<and> (case qt_converted_sales_order_id q of None \<Rightarrow> True | Some o_id \<Rightarrow> has so_id o_id (db_orders s)))
        (Inr (s\<lparr>db_quotes :=
           map (\<lambda>r. if qt_id r = qt_id q then quote_columns q r else r) (db_quotes s)\<rparr>)))"

definition repo_quote_delete :: "string \<Rightarrow> db \<Rightarrow> (bool \<times> db) res" where
  "repo_quote_delete i s =
     Inr (has qt_id i (db_quotes s), s\<lparr>db_quotes := tab_del qt_id i (db_quotes s),
       db_quote_items := filter (\<lambda>x. qi_quote_id x \<noteq> i) (db_quote_items s)\<rparr>)"

definition quote_item_insert :: "quote_item \<Rightarrow> db \<Rightarrow> db res" where
  "quote_item_insert item s =
     constrain (line_row_ok (qi_quantity item) (qi_unit_price_minor item) (qi_tax_rate_bps item))
       (\<not> has qi_id (qi_id item) (db_quote_items s))
       (has qt_id (qi_quote_id item) (db_quotes s) \<and> has bk_id (qi_book_id item) (db_books s)
        \<and> (case qi_variant_id item of None \<Rightarrow> True | Some v \<Rightarrow> has pv_id v (db_variants s)))
       (Inr (s\<lparr>db_quote_items := db_quote_items s @ [item]\<rparr>))"

definition quote_item_get :: "db \<Rightarrow> string \<Rightarrow> quote_item option" where
  "quote_item_get s i = tab_find qi_id i (db_quote_items s)"

definition quote_item_list :: "db \<Rightarrow> string \<Rightarrow> quote_item list" where
  "quote_item_list s quote_id =
     sort_key (\<lambda>i. (qi_line_order i, qi_created_at i, qi_id i))
       (filter (\<lambda>i. qi_quote_id i = quote_id) (db_quote_items s))"

definition repo_quote_item_update :: "quote_item \<Rightarrow> db \<Rightarrow> db res" where
  "repo_quote_item_update item s =
     (if \<not> has qi_id (qi_id item) (db_quote_items s) then Inr s
      else constrain (line_row_ok (qi_quantity item) (qi_unit_price_minor item) (qi_tax_rate_bps item))
        True True
        (Inr (s\<lparr>db_quote_items := map (\<lambda>r. if qi_id r = qi_id item
            then r\<lparr>qi_description := qi_description item, qi_quantity := qi_quantity item,
                   qi_unit_price_minor := qi_unit_price_minor item,
                   qi_tax_rate_bps := qi_tax_rate_bps item, qi_updated_at := qi_updated_at item\<rparr>
            else r) (db_quote_items s)\<rparr>)))"

definition quote_item_delete :: "string \<Rightarrow> db \<Rightarrow> (bool \<times> db) res" where
  "quote_item_delete i s =
     Inr (has qi_id i (db_quote_items s), s\<lparr>db_quote_items := tab_del qi_id i (db_quote_items s)\<rparr>)"

definition repo_quote_totals :: "db \<Rightarrow> string \<Rightarrow> sales_order_totals" where
  "repo_quote_totals s quote_id =
     line_totals (map (\<lambda>i. (qi_quantity i, qi_unit_price_minor i, qi_tax_rate_bps i))
       (quote_item_list s quote_id))"

section \<open>Invoices\<close>

definition invoice_insert :: "invoice \<Rightarrow> db \<Rightarrow> db res" where
  "invoice_insert v s =
     constrain (length (iv_currency v) = 3)
       (\<not> has iv_id (iv_id v) (db_invoices s)
        \<and> \<not> list_ex (\<lambda>r. iv_book_id r = iv_book_id v \<and> iv_series r = iv_series v \<and> iv_number r = iv_number v)
              (db_invoices s))
       (has bk_id (iv_book_id v) (db_books s) \<and> has ct_id (iv_contact_id v) (db_contacts s)
        \<and> (case iv_sales_order_id v of None \<Rightarrow> True | Some o_id \<Rightarrow> has so_id o_id (db_orders s)))
       (Inr (s\<lparr>db_invoices := db_invoices s @ [v]\<rparr>))"

definition repo_invoice_get :: "db \<Rightarrow> string \<Rightarrow> invoice option" where
  "repo_invoice_get s i = tab_find iv_id i (db_invoices s)"

definition repo_invoice_list :: "db \<Rightarrow> string \<Rightarrow> invoice list" where
  "repo_invoice_list s book_id =
     sort_key iv_series (rev (sort_key iv_number (filter (\<lambda>r. iv_book_id r = book_id) (db_invoices s))))"

definition invoice_item_insert :: "invoice_item \<Rightarrow> db \<Rightarrow> db res" where
  "invoice_item_insert item s =
     constrain (line_row_ok (ivi_quantity item) (ivi_unit_price_minor item) (ivi_tax_rate_bps item))
       (\<not> has ivi_id (ivi_id item) (db_invoice_items s))
       (has iv_id (ivi_invoice_id item) (db_invoices s) \<and> has bk_id (ivi_book_id item) (db_books s)
        \<and> (case ivi_variant_id item of None \<Rightarrow> True | Some v \<Rightarrow> has pv_id v (db_variants s)))
       (Inr (s\<lparr>db_invoice_items := db_invoice_items s @ [item]\<rparr>))"

definition invoice_item_list :: "db \<Rightarrow> string \<Rightarrow> invoice_item list" where
  "invoice_item_list s invoice_id =
     sort_key (\<lambda>i. (ivi_line_order i, ivi_created_at i, ivi_id i))
       (filter (\<lambda>i. ivi_invoice_id i = invoice_id) (db_invoice_items s))"

definition invoice_payment_insert :: "invoice_payment \<Rightarrow> db \<Rightarrow> db res" where
  "invoice_payment_insert p s =
     constrain (0 < ip_amount_minor p) (\<not> has ip_id (ip_id p) (db_payments s))
       (has iv_id (ip_invoice_id p) (db_invoices s) \<and> has bk_id (ip_book_id p) (db_books s))
       (Inr (s\<lparr>db_payments := db_payments s @ [p]\<rparr>))"

definition invoice_payment_list :: "db \<Rightarrow> string \<Rightarrow> invoice_payment list" where
  "invoice_payment_list s invoice_id =
     sort_key (\<lambda>p. (ip_paid_at p, ip_created_at p, ip_id p))
       (filter (\<lambda>p. ip_invoice_id p = invoice_id) (db_payments s))"

definition invoice_paid_minor :: "db \<Rightarrow> string \<Rightarrow> int res" where
  "invoice_paid_minor s invoice_id =
     sql_sum (map ip_amount_minor (filter (\<lambda>p. ip_invoice_id p = invoice_id) (db_payments s)))"

definition payment_status :: "int \<Rightarrow> int \<Rightarrow> invoice_payment_status" where
  "payment_status paid_minor due_minor =
     (if paid_minor \<le> 0 then IP_Unpaid else if due_minor \<le> 0 then IP_Paid else IP_PartlyPaid)"

definition repo_invoice_totals :: "db \<Rightarrow> string \<Rightarrow> invoice_totals res" where
  "repo_invoice_totals s invoice_id =
     (let t = line_totals (map (\<lambda>i. (ivi_quantity i, ivi_unit_price_minor i, ivi_tax_rate_bps i))
                (invoice_item_list s invoice_id))
      in attempt (invoice_paid_minor s invoice_id) (\<lambda>paid_minor.
           let due_minor = wrap64 (sot_total_minor t - paid_minor)
           in Inr \<lparr>ivt_subtotal_minor = sot_subtotal_minor t, ivt_tax_minor = sot_tax_minor t,
                ivt_total_minor = sot_total_minor t, ivt_paid_minor = paid_minor,
                ivt_due_minor = due_minor, ivt_status = payment_status paid_minor due_minor\<rparr>))"

section \<open>Aged receivables\<close>

definition empty_bucket :: aged_bucket where
  "empty_bucket = \<lparr>ab_current_minor = 0, ab_overdue_1_30_minor = 0, ab_overdue_31_60_minor = 0,
     ab_overdue_61_90_minor = 0, ab_overdue_90_plus_minor = 0, ab_total_minor = 0\<rparr>"

definition add_due :: "int \<Rightarrow> int \<Rightarrow> aged_bucket \<Rightarrow> aged_bucket" where
  "add_due age_days due b =
     (let b' = b\<lparr>ab_total_minor := wrap64 (ab_total_minor b + due)\<rparr>
      in if age_days \<le> 0 then b'\<lparr>ab_current_minor := wrap64 (ab_current_minor b + due)\<rparr>
         else if age_days \<le> 30 then b'\<lparr>ab_overdue_1_30_minor := wrap64 (ab_overdue_1_30_minor b + due)\<rparr>
         else if age_days \<le> 60 then b'\<lparr>ab_overdue_31_60_minor := wrap64 (ab_overdue_31_60_minor b + due)\<rparr>
         else if age_days \<le> 90 then b'\<lparr>ab_overdue_61_90_minor := wrap64 (ab_overdue_61_90_minor b + due)\<rparr>
         else b'\<lparr>ab_overdue_90_plus_minor := wrap64 (ab_overdue_90_plus_minor b + due)\<rparr>)"

definition add_buckets :: "aged_bucket \<Rightarrow> aged_bucket \<Rightarrow> aged_bucket" where
  "add_buckets g b =
     \<lparr>ab_current_minor = wrap64 (ab_current_minor g + ab_current_minor b),
      ab_overdue_1_30_minor = wrap64 (ab_overdue_1_30_minor g + ab_overdue_1_30_minor b),
      ab_overdue_31_60_minor = wrap64 (ab_overdue_31_60_minor g + ab_overdue_31_60_minor b),
      ab_overdue_61_90_minor = wrap64 (ab_overdue_61_90_minor g + ab_overdue_61_90_minor b),
      ab_overdue_90_plus_minor = wrap64 (ab_overdue_90_plus_minor g + ab_overdue_90_plus_minor b),
      ab_total_minor = wrap64 (ab_total_minor g + ab_total_minor b)\<rparr>"

text \<open>The loop over the invoices, oldest due date first; its state is the map by contact.\<close>

definition age_invoice ::
    "env \<Rightarrow> db \<Rightarrow> date \<Rightarrow> invoice \<Rightarrow> (string \<times> aged_bucket) list \<Rightarrow> (string \<times> aged_bucket) list res" where
  "age_invoice E s as_of_date v by_contact =
     attempt (repo_invoice_totals s (iv_id v)) (\<lambda>totals.
       if ivt_due_minor totals \<le> 0 then Inr by_contact
       else attempt (parse_date (e_time E) (iv_due_date v)) (\<lambda>due_date.
         let age_days = tl_days (e_time E) as_of_date due_date
         in Inr (bt_entry (iv_contact_id v) empty_bucket (add_due age_days (ivt_due_minor totals)) by_contact)))"

definition aged_receivables_of :: "env \<Rightarrow> db \<Rightarrow> string \<Rightarrow> string \<Rightarrow> aged_receivables res" where
  "aged_receivables_of E s book_id as_of =
     attempt (parse_date (e_time E) as_of) (\<lambda>as_of_date.
     attempt (for_each (age_invoice E s as_of_date)
         (sort_key iv_due_date (filter (\<lambda>v. iv_book_id v = book_id) (db_invoices s))) []) (\<lambda>by_contact.
       let rows = map (\<lambda>(contact_id, buckets).
             \<lparr>arr_contact_id = contact_id,
              arr_contact_name = (case tab_find ct_id contact_id (db_contacts s) of
                 None \<Rightarrow> ''(unknown contact)'' | Some c \<Rightarrow> ct_name c),
              arr_buckets = buckets\<rparr>) by_contact
       in Inr \<lparr>agr_as_of = as_of, agr_rows = sort_key arr_contact_name rows,
            agr_totals = fold (\<lambda>(_, b) g. add_buckets g b) by_contact empty_bucket\<rparr>))"

end
