(* ===== verification/Documents.thy ===== *)
theory Documents
  imports Store
begin

text \<open>
  What sales orders and quotes share: a table of headers and a table of lines that name their
  header, and the rule that only a draft's lines change. The locale states what a kind of document
  promises about its rows; its lemmas say that each write of the repository keeps the invariant.
\<close>

text \<open>Ids are unique, a line has a header, and every row is as its kind demands.\<close>

definition docs_ok ::
    "('h \<Rightarrow> string) \<Rightarrow> ('l \<Rightarrow> string) \<Rightarrow> ('l \<Rightarrow> string) \<Rightarrow> ('l \<Rightarrow> bool) \<Rightarrow> ('l list \<Rightarrow> 'h \<Rightarrow> bool)
      \<Rightarrow> 'h list \<Rightarrow> 'l list \<Rightarrow> bool" where
  "docs_ok hid lid parent good head_ok heads rows \<longleftrightarrow>
     distinct (map hid heads) \<and> distinct (map lid rows)
     \<and> list_all (\<lambda>l. has hid (parent l) heads \<and> good l) rows \<and> list_all (head_ok rows) heads"

text \<open>A header's predicate reads only what its own lines show, and a draft's reads no line.\<close>

locale document =
  fixes hid :: "'h \<Rightarrow> string" and lid :: "'l \<Rightarrow> string" and parent :: "'l \<Rightarrow> string"
    and good :: "'l \<Rightarrow> bool" and head_ok :: "'l list \<Rightarrow> 'h \<Rightarrow> bool"
    and view :: "'l \<Rightarrow> 'v" and draft :: "'h \<Rightarrow> bool"
  assumes own_lines: "map view (filter (\<lambda>l. parent l = hid h) rows') = map view (filter (\<lambda>l. parent l = hid h) rows)
      \<Longrightarrow> head_ok rows' h = head_ok rows h"
    and draft_any: "draft h \<Longrightarrow> head_ok rows' h = head_ok rows h"
begin

abbreviation ok :: "'h list \<Rightarrow> 'l list \<Rightarrow> bool" where
  "ok \<equiv> docs_ok hid lid parent good head_ok"

lemma okD:
  assumes "ok heads rows"
  shows "distinct (map hid heads)" and "distinct (map lid rows)"
    and "l \<in> set rows \<Longrightarrow> parent l \<in> hid ` set heads" and "l \<in> set rows \<Longrightarrow> good l"
    and "h \<in> set heads \<Longrightarrow> head_ok rows h"
  using assms by (auto simp: docs_ok_def list_all_iff has_iff)

lemma put_head: "ok heads rows \<Longrightarrow> head_ok rows h \<Longrightarrow> ok (tab_put hid h heads) rows"
  by (auto simp: docs_ok_def list_all_iff has_tab_put dest: in_tab_put)

lemma add_head: "ok heads rows \<Longrightarrow> hid h \<notin> hid ` set heads \<Longrightarrow> head_ok rows h \<Longrightarrow> ok (heads @ [h]) rows"
  by (auto simp: docs_ok_def list_all_iff has_iff)

lemma del_head:
  assumes "ok heads rows"
  shows "ok (tab_del hid k heads) (filter (\<lambda>l. parent l \<noteq> k) rows)"
proof -
  have "head_ok (filter (\<lambda>l. parent l \<noteq> k) rows) h" if h: "h \<in> set heads" "hid h \<noteq> k" for h
  proof -
    have "filter (\<lambda>l. parent l = hid h) (filter (\<lambda>l. parent l \<noteq> k) rows) = filter (\<lambda>l. parent l = hid h) rows"
      unfolding filter_filter using h(2) by (intro filter_cong) auto
    then have "map view (filter (\<lambda>l. parent l = hid h) (filter (\<lambda>l. parent l \<noteq> k) rows))
        = map view (filter (\<lambda>l. parent l = hid h) rows)" by (rule arg_cong)
    from own_lines [OF this] okD(5) [OF assms h(1)] show ?thesis by blast
  qed
  then have "list_all (head_ok (filter (\<lambda>l. parent l \<noteq> k) rows)) (tab_del hid k heads)"
    by (simp add: list_all_iff tab_del_def)
  then show ?thesis
    using assms by (auto simp: docs_ok_def tab_del_def list_all_iff has_iff distinct_map_filter)
qed

text \<open>The lines of one draft change.\<close>

lemma change_lines:
  assumes ok: "ok heads rows" and "distinct (map lid rows')"
    and "\<forall>l \<in> set rows'. has hid (parent l) heads \<and> good l"
    and d: "tab_find hid k heads = Some d" "draft d"
    and others: "\<And>j. j \<noteq> k \<Longrightarrow> map view (filter (\<lambda>l. parent l = j) rows') = map view (filter (\<lambda>l. parent l = j) rows)"
  shows "ok heads rows'"
proof -
  have "head_ok rows' h" if h: "h \<in> set heads" for h
  proof (cases "hid h = k")
    case True
    then have "h = d" using tab_find_distinct [OF okD(1) [OF ok] h] d(1) by simp
    then show ?thesis using okD(5) [OF ok h] draft_any [OF d(2)] by blast
  next
    case False
    then show ?thesis using okD(5) [OF ok h] own_lines [OF others] by blast
  qed
  then have "list_all (head_ok rows') heads" by (simp add: list_all_iff)
  then show ?thesis using assms(1-3) by (simp add: docs_ok_def list_all_iff)
qed

lemma add_line:
  assumes "ok heads rows" and "tab_find hid (parent l) heads = Some d" and "draft d"
    and "lid l \<notin> lid ` set rows" and "good l"
  shows "ok heads (rows @ [l])"
  by (rule change_lines [OF assms(1) _ _ assms(2,3)])
    (use assms okD [OF assms(1)] tab_find_has [OF assms(2)] in \<open>auto simp: has_iff\<close>)

lemma put_line:
  assumes ok: "ok heads rows" and before: "tab_find lid (lid l) rows = Some b" and same: "parent l = parent b"
    and d: "tab_find hid (parent b) heads = Some d" "draft d" and good: "good l"
  shows "ok heads (tab_put lid l rows)"
proof (rule change_lines [OF ok _ _ d])
  show "distinct (map lid (tab_put lid l rows))" using okD(2) [OF ok] by simp
  show "\<forall>x \<in> set (tab_put lid l rows). has hid (parent x) heads \<and> good x"
    using okD(3,4) [OF ok] good same tab_find_has [OF d(1)] by (auto simp: has_iff dest: in_tab_put)
  have row: "y = b" if "y \<in> set rows" "lid y = lid l" for y
    using tab_find_distinct [OF okD(2) [OF ok] that(1)] that(2) before by simp
  show "map view (filter (\<lambda>x. parent x = j) (tab_put lid l rows)) = map view (filter (\<lambda>x. parent x = j) rows)"
    if j: "j \<noteq> parent b" for j
  proof -
    have "\<forall>r \<in> set rows. lid r = lid l \<longrightarrow> parent r \<noteq> j" using row j by auto
    then have "filter (\<lambda>x. parent x = j) (tab_put lid l rows) = filter (\<lambda>x. parent x = j) rows"
      using j same by (intro filter_tab_put_out) auto
    then show ?thesis by simp
  qed
qed

lemma del_line:
  assumes ok: "ok heads rows" and before: "tab_find lid i rows = Some b"
    and d: "tab_find hid (parent b) heads = Some d" "draft d"
  shows "ok heads (tab_del lid i rows)"
proof (rule change_lines [OF ok _ _ d])
  show "distinct (map lid (tab_del lid i rows))" using okD(2) [OF ok] by (simp add: tab_del_def distinct_map_filter)
  show "\<forall>x \<in> set (tab_del lid i rows). has hid (parent x) heads \<and> good x"
    using okD(3,4) [OF ok] by (auto simp: has_iff tab_del_def)
  have row: "lid y \<noteq> i" if "y \<in> set rows" "parent y \<noteq> parent b" for y
    using tab_find_distinct [OF okD(2) [OF ok] that(1)] that(2) before by auto
  show "map view (filter (\<lambda>x. parent x = j) (tab_del lid i rows)) = map view (filter (\<lambda>x. parent x = j) rows)"
    if "j \<noteq> parent b" for j
    unfolding tab_del_def filter_filter using row that
    by (intro arg_cong [where f = "map view"] filter_cong) auto
qed

text \<open>Lines of a header that is not the changed draft's are untouched, view or not.\<close>

lemma other_lines:
  assumes ok: "ok heads rows" and before: "tab_find lid i rows = Some b" and "j \<noteq> parent b"
  shows "filter (\<lambda>x. parent x = j) (tab_del lid i rows) = filter (\<lambda>x. parent x = j) rows"
    and "lid l = i \<Longrightarrow> parent l = parent b \<Longrightarrow>
      filter (\<lambda>x. parent x = j) (tab_put lid l rows) = filter (\<lambda>x. parent x = j) rows"
proof -
  have row: "y = b" if "y \<in> set rows" "lid y = i" for y
    using tab_find_distinct [OF okD(2) [OF ok] that(1)] that(2) before by simp
  show "filter (\<lambda>x. parent x = j) (tab_del lid i rows) = filter (\<lambda>x. parent x = j) rows"
    unfolding tab_del_def filter_filter using row assms(3) by (intro filter_cong) auto
  show "filter (\<lambda>x. parent x = j) (tab_put lid l rows) = filter (\<lambda>x. parent x = j) rows"
    if "lid l = i" "parent l = parent b"
    using row assms(3) that by (intro filter_tab_put_out) auto
qed

end

end
