(* ===== verification/Sales_Orders.thy ===== *)
theory Sales_Orders
  imports Sales_Repo Documents
begin

text \<open>
  Sales orders (the section ``Sales orders'' of \<^verbatim>\<open>service.rs\<close>): a draft is edited freely;
  confirming it takes the stock and posts its journals, cancelling gives both back, and payment
  ends it. Each operation is one transaction.
\<close>

section \<open>Headers\<close>

definition sales_order_get :: "db \<Rightarrow> string \<Rightarrow> sales_order res" where
  "sales_order_get s i = ok_or (order_get s i) (NotFound ''sales_order'' i)"

definition sales_order_list :: "db \<Rightarrow> string \<Rightarrow> sales_order list" where
  "sales_order_list s book_id = order_list s book_id"

definition check_order_location :: "db \<Rightarrow> string \<Rightarrow> string option \<Rightarrow> string option res" where
  "check_order_location s book_id location_id =
     (case location_id of
        None \<Rightarrow> Inr None
      | Some i \<Rightarrow> attempt (location_get s i) (\<lambda>location.
          if lo_book_id location \<noteq> book_id
          then Inl (Validation ''sales order location belongs to a different book'')
          else Inr (Some (lo_id location))))"

text \<open>\<^verbatim>\<open>unwrap_or_else(today)\<close>: the clock is read only when no date is given.\<close>

definition date_or_today :: "env \<Rightarrow> string option \<Rightarrow> db \<Rightarrow> string \<times> db" where
  "date_or_today E d s = (case d of None \<Rightarrow> today E s | Some v \<Rightarrow> (v, s))"

definition currency_or :: "string option \<Rightarrow> string \<Rightarrow> string res" where
  "currency_or c fallback = (case c of None \<Rightarrow> Inr fallback | Some v \<Rightarrow> normalize_currency_code v)"

definition sales_order_create :: "env \<Rightarrow> new_sales_order \<Rightarrow> db \<Rightarrow> (sales_order \<times> db) res" where
  "sales_order_create E new s =
     attempt (book_get s (nso_book_id new)) (\<lambda>book.
     attempt (contact_get s (nso_contact_id new)) (\<lambda>contact.
       if ct_book_id contact \<noteq> bk_id book
       then Inl (Validation ''sales order contact belongs to a different book'')
       else attempt (check_order_location s (bk_id book) (nso_location_id new)) (\<lambda>location_id.
         let (order_date, s0) = date_or_today E (nso_order_date new) s in
         attempt (parse_date (e_time E) order_date) (\<lambda>_.
         attempt (currency_or (nso_currency new) (bk_currency book)) (\<lambda>currency.
           let (now, s1) = now_iso E s0 in
           attempt (allocate_number (bk_id book) ''sales_order'' s1) (\<lambda>(number, s2).
             let (i, s3) = new_id E s2;
                 order = \<lparr>so_id = i, so_book_id = bk_id book, so_contact_id = ct_id contact,
                   so_location_id = location_id, so_number = number, so_order_date = order_date,
                   so_status = SO_Draft, so_currency = currency,
                   so_notes = normalize_optional (nso_notes new), so_confirmed_at = None,
                   so_cancelled_at = None, so_paid_at = None, so_created_at = now, so_updated_at = now\<rparr>
             in attempt (order_insert order s3) (\<lambda>s4.
                attempt (emit_audit E (Some (so_book_id order)) ''sales_order'' (Some i) ''create'' None
                  (Some (Snap_order order)) s4) (\<lambda>s5. Inr (order, s5)))))))))"

definition patch_order :: "env \<Rightarrow> db \<Rightarrow> sales_order \<Rightarrow> sales_order_patch \<Rightarrow> sales_order res" where
  "patch_order E s before patch =
     attempt (if_some (pso_location_id patch) (\<lambda>v after.
         attempt (check_order_location s (so_book_id before) v) (\<lambda>l. Inr (after\<lparr>so_location_id := l\<rparr>)))
       before) (\<lambda>a1.
     attempt (if_some (pso_order_date patch) (\<lambda>v after.
         attempt (parse_date (e_time E) v) (\<lambda>_. Inr (after\<lparr>so_order_date := v\<rparr>))) a1) (\<lambda>a2.
     if_some (pso_notes patch) (\<lambda>v after. Inr (after\<lparr>so_notes := normalize_optional v\<rparr>)) a2))"

definition sales_order_update ::
    "env \<Rightarrow> string \<Rightarrow> sales_order_patch \<Rightarrow> db \<Rightarrow> (sales_order \<times> db) res" where
  "sales_order_update E i patch s =
     attempt (sales_order_get s i) (\<lambda>before.
       if so_status before \<noteq> SO_Draft
       then Inl (Validation
              ''only a draft sales order can be edited; a confirmed one can be cancelled'')
       else attempt (patch_order E s before patch) (\<lambda>patched.
         let (now, s1) = now_iso E s;
             after = patched\<lparr>so_updated_at := now\<rparr>
         in attempt (order_update after s1) (\<lambda>s2.
            attempt (emit_audit E (Some (so_book_id after)) ''sales_order'' (Some i) ''update''
              (Some (Snap_order before)) (Some (Snap_order after)) s2) (\<lambda>s3. Inr (after, s3)))))"

definition sales_order_delete :: "env \<Rightarrow> string \<Rightarrow> db \<Rightarrow> (unit \<times> db) res" where
  "sales_order_delete E i s =
     attempt (sales_order_get s i) (\<lambda>before.
       if so_status before \<noteq> SO_Draft
       then Inl (Validation
              ''only a draft sales order can be deleted; cancel a confirmed one instead'')
       else attempt (order_delete i s) (\<lambda>(_, s1).
            attempt (emit_audit E (Some (so_book_id before)) ''sales_order'' (Some i) ''delete''
              (Some (Snap_order before)) None s1) (\<lambda>s2. Inr ((), s2))))"

definition sales_order_totals_of :: "db \<Rightarrow> string \<Rightarrow> sales_order_totals res" where
  "sales_order_totals_of s i = attempt (sales_order_get s i) (\<lambda>_. Inr (order_totals s i))"

section \<open>Lines\<close>

definition trimmed :: "string option \<Rightarrow> string option" where
  "trimmed d = (case d of None \<Rightarrow> None | Some v \<Rightarrow> if trim v = [] then None else Some (trim v))"

definition resolve_sales_order_line ::
    "db \<Rightarrow> string \<Rightarrow> string option \<Rightarrow> string option \<Rightarrow> int option
      \<Rightarrow> (string option \<times> string \<times> int) res" where
  "resolve_sales_order_line s order_book_id variant_id description unit_price_minor =
     (case variant_id of
        Some vid \<Rightarrow>
          attempt (product_variant_get s vid) (\<lambda>variant.
            if pv_book_id variant \<noteq> order_book_id
            then Inl (Validation ''sales order line variant belongs to a different book'')
            else Inr (Some (pv_id variant),
                   (case trimmed description of None \<Rightarrow> pv_name variant | Some d \<Rightarrow> d),
                   (case unit_price_minor of None \<Rightarrow> pv_price_minor variant | Some p \<Rightarrow> p)))
      | None \<Rightarrow>
          attempt (ok_or (trimmed description)
              (Validation ''a free-text sales order line needs a description'')) (\<lambda>d.
          attempt (ok_or unit_price_minor
              (Validation ''a free-text sales order line needs a unit price'')) (\<lambda>p.
            Inr (None, d, p))))"

definition rate_ok :: "int \<Rightarrow> bool" where
  "rate_ok bps \<longleftrightarrow> 0 \<le> bps \<and> bps \<le> 10000"

definition sales_order_item_add ::
    "env \<Rightarrow> new_sales_order_item \<Rightarrow> db \<Rightarrow> (sales_order_item \<times> db) res" where
  "sales_order_item_add E new s =
     attempt (sales_order_get s (nsoi_sales_order_id new)) (\<lambda>order.
       if so_status order \<noteq> SO_Draft
       then Inl (Validation ''cannot add a line to a non-draft sales order'')
       else if nsoi_quantity new \<le> 0
       then Inl (Validation ''sales order line quantity must be positive'')
       else attempt (resolve_sales_order_line s (so_book_id order) (nsoi_variant_id new)
              (nsoi_description new) (nsoi_unit_price_minor new)) (\<lambda>(variant_id, description, price).
         if price < 0 then Inl (Validation ''sales order line unit price must not be negative'')
         else
           let rate = (case nsoi_tax_rate_bps new of None \<Rightarrow> 0 | Some r \<Rightarrow> r) in
           if \<not> rate_ok rate
           then Inl (Validation ''sales order line tax rate must be between 0 and 10000 basis points'')
           else
             let (now, s1) = now_iso E s;
                 line_order = int (length (order_item_list s1 (so_id order)));
                 (i, s2) = new_id E s1;
                 item = \<lparr>soi_id = i, soi_sales_order_id = so_id order, soi_book_id = so_book_id order,
                   soi_variant_id = variant_id, soi_description = description,
                   soi_quantity = nsoi_quantity new, soi_unit_price_minor = price,
                   soi_tax_rate_bps = rate, soi_line_order = line_order, soi_created_at = now,
                   soi_updated_at = now\<rparr>
             in attempt (order_item_insert item s2) (\<lambda>s3.
                attempt (emit_audit E (Some (soi_book_id item)) ''sales_order_item'' (Some i) ''create''
                  None (Some (Snap_order_item item)) s3) (\<lambda>s4. Inr (item, s4)))))"

definition sales_order_items_list :: "db \<Rightarrow> string \<Rightarrow> sales_order_item list" where
  "sales_order_items_list s sales_order_id = order_item_list s sales_order_id"

definition draft_item :: "db \<Rightarrow> string \<Rightarrow> string \<Rightarrow> (sales_order_item \<times> sales_order) res" where
  "draft_item s i refusal =
     attempt (ok_or (order_item_get s i) (NotFound ''sales_order_item'' i)) (\<lambda>before.
     attempt (sales_order_get s (soi_sales_order_id before)) (\<lambda>order.
       if so_status order \<noteq> SO_Draft then Inl (Validation refusal) else Inr (before, order)))"

definition patch_order_item :: "sales_order_item \<Rightarrow> sales_order_item_patch \<Rightarrow> sales_order_item res" where
  "patch_order_item before patch =
     attempt (if_some (psoi_description patch) (\<lambda>v after.
         if trim v = [] then Inl (Validation ''sales order line description must not be empty'')
         else Inr (after\<lparr>soi_description := trim v\<rparr>)) before) (\<lambda>a1.
     attempt (if_some (psoi_quantity patch) (\<lambda>v after.
         if v \<le> 0 then Inl (Validation ''sales order line quantity must be positive'')
         else Inr (after\<lparr>soi_quantity := v\<rparr>)) a1) (\<lambda>a2.
     attempt (if_some (psoi_unit_price_minor patch) (\<lambda>v after.
         if v < 0 then Inl (Validation ''sales order line unit price must not be negative'')
         else Inr (after\<lparr>soi_unit_price_minor := v\<rparr>)) a2) (\<lambda>a3.
     if_some (psoi_tax_rate_bps patch) (\<lambda>v after.
         if \<not> rate_ok v
         then Inl (Validation ''sales order line tax rate must be between 0 and 10000 basis points'')
         else Inr (after\<lparr>soi_tax_rate_bps := v\<rparr>)) a3)))"

definition sales_order_item_update ::
    "env \<Rightarrow> string \<Rightarrow> sales_order_item_patch \<Rightarrow> db \<Rightarrow> (sales_order_item \<times> db) res" where
  "sales_order_item_update E i patch s =
     attempt (draft_item s i ''cannot edit a line on a non-draft sales order'') (\<lambda>(before, order).
     attempt (patch_order_item before patch) (\<lambda>patched.
       let (now, s1) = now_iso E s;
           after = patched\<lparr>soi_updated_at := now\<rparr>
       in attempt (order_item_update after s1) (\<lambda>s2.
          attempt (emit_audit E (Some (soi_book_id after)) ''sales_order_item'' (Some i) ''update''
            (Some (Snap_order_item before)) (Some (Snap_order_item after)) s2) (\<lambda>s3. Inr (after, s3)))))"

definition sales_order_item_remove :: "env \<Rightarrow> string \<Rightarrow> db \<Rightarrow> (unit \<times> db) res" where
  "sales_order_item_remove E i s =
     attempt (draft_item s i ''cannot remove a line from a non-draft sales order'') (\<lambda>(before, order).
     attempt (order_item_delete i s) (\<lambda>(_, s1).
     attempt (emit_audit E (Some (soi_book_id before)) ''sales_order_item'' (Some i) ''delete''
       (Some (Snap_order_item before)) None s1) (\<lambda>s2. Inr ((), s2))))"

section \<open>Confirming, cancelling, paying\<close>

text \<open>The body of both stock loops: one movement for a line that has a variant.\<close>

definition move_line ::
    "env \<Rightarrow> sales_order \<Rightarrow> string \<Rightarrow> (int \<Rightarrow> int) \<Rightarrow> string \<Rightarrow> sales_order_item \<Rightarrow> db \<Rightarrow> db res" where
  "move_line E order location_id delta narrative item s =
     (case soi_variant_id item of
        None \<Rightarrow> Inl (Panic ''filtered above'')
      | Some variant_id \<Rightarrow>
          attempt (insert_movement_in_tx E (so_book_id order) variant_id location_id
              (delta (soi_quantity item)) SM_Sale (Some ''sales_order'') (Some (so_id order))
              (Some narrative) None s) (\<lambda>(_, s'). Inr s'))"

definition stock_lines :: "sales_order_item list \<Rightarrow> sales_order_item list" where
  "stock_lines items = filter (\<lambda>i. soi_variant_id i \<noteq> None) items"

definition negate :: "int \<Rightarrow> int" where
  "negate q = wrap64 (- q)"

definition sales_order_confirm :: "env \<Rightarrow> string \<Rightarrow> db \<Rightarrow> (sales_order \<times> db) res" where
  "sales_order_confirm E i s =
     attempt (sales_order_get s i) (\<lambda>before.
       if so_status before \<noteq> SO_Draft
       then Inl (InvalidStatusTransition (sales_order_status_str (so_status before))
              (sales_order_status_str SO_Confirmed))
       else
         let items = sales_order_items_list s i;
             stock_items = stock_lines items
         in if items = [] then Inl (Validation ''cannot confirm a sales order with no line items'')
         else if stock_items \<noteq> [] \<and> so_location_id before = None
         then Inl (Validation (''cannot confirm: this order has stock-tracked line items but no ''
                @ ''location set''))
         else attempt (book_get s (so_book_id before)) (\<lambda>book.
           let (now, s0) = now_iso E s in
           attempt (case so_location_id before of
               None \<Rightarrow> Inr s0
             | Some location_id \<Rightarrow>
                 for_each (move_line E before location_id negate
                   (''sale: order #'' @ show_int (so_number before))) stock_items s0) (\<lambda>s1.
           attempt (post_sales_confirm_journals E book before items s1) (\<lambda>(_, s2).
             let after = before\<lparr>so_status := SO_Confirmed, so_confirmed_at := Some now,
                   so_updated_at := now\<rparr>
             in attempt (order_update after s2) (\<lambda>s3.
                attempt (emit_audit E (Some (so_book_id after)) ''sales_order'' (Some i) ''confirm''
                  (Some (Snap_order before)) (Some (Snap_order after)) s3) (\<lambda>s4. Inr (after, s4)))))))"

definition undo_confirm :: "env \<Rightarrow> book \<Rightarrow> sales_order \<Rightarrow> string \<Rightarrow> db \<Rightarrow> db res" where
  "undo_confirm E book before now s =
     (let stock_items = stock_lines (order_item_list s (so_id before))
      in attempt (if stock_items = [] then Inr s
           else (case so_location_id before of
               None \<Rightarrow> Inl (Panic (''a confirmed order with stock lines always has a location ''
                 @ [CHR 0xE2, CHR 0x80, CHR 0x94] @ '' sales_order_confirm requires it''))
             | Some location_id \<Rightarrow>
                 for_each (move_line E before location_id id
                   (''cancelled: reversing sales_order '' @ so_id before)) stock_items s)) (\<lambda>s1.
         reverse_sales_confirm_journals E book before (take 10 now) s1))"

definition sales_order_cancel :: "env \<Rightarrow> string \<Rightarrow> db \<Rightarrow> (sales_order \<times> db) res" where
  "sales_order_cancel E i s =
     attempt (sales_order_get s i) (\<lambda>before.
       if \<not> (so_status before = SO_Draft \<or> so_status before = SO_Confirmed)
       then Inl (InvalidStatusTransition (sales_order_status_str (so_status before))
              (sales_order_status_str SO_Cancelled))
       else attempt (book_get s (so_book_id before)) (\<lambda>book.
         let (now, s0) = now_iso E s in
         attempt (if so_status before = SO_Confirmed then undo_confirm E book before now s0 else Inr s0)
           (\<lambda>s1.
           let after = before\<lparr>so_status := SO_Cancelled, so_cancelled_at := Some now,
                 so_updated_at := now\<rparr>
           in attempt (order_update after s1) (\<lambda>s2.
              attempt (emit_audit E (Some (so_book_id after)) ''sales_order'' (Some i) ''cancel''
                (Some (Snap_order before)) (Some (Snap_order after)) s2) (\<lambda>s3. Inr (after, s3))))))"

definition sales_order_mark_paid :: "env \<Rightarrow> string \<Rightarrow> db \<Rightarrow> (sales_order \<times> db) res" where
  "sales_order_mark_paid E i s =
     attempt (sales_order_get s i) (\<lambda>before.
       if so_status before \<noteq> SO_Confirmed
       then Inl (InvalidStatusTransition (sales_order_status_str (so_status before))
              (sales_order_status_str SO_Paid))
       else
         let (now, s1) = now_iso E s;
             after = before\<lparr>so_status := SO_Paid, so_paid_at := Some now, so_updated_at := now\<rparr>
         in attempt (order_update after s1) (\<lambda>s2.
            attempt (emit_audit E (Some (so_book_id after)) ''sales_order'' (Some i) ''mark_paid''
              (Some (Snap_order before)) (Some (Snap_order after)) s2) (\<lambda>s3. Inr (after, s3))))"

section \<open>What the writes do\<close>

lemma sales_order_get_Inr [res_simps]: "sales_order_get s i = Inr r \<longleftrightarrow> tab_find so_id i (db_orders s) = Some r"
  by (simp add: sales_order_get_def order_get_def res_simps)

text \<open>The fields of an order no update touches.\<close>

definition same_order :: "sales_order \<Rightarrow> sales_order \<Rightarrow> bool" where
  "same_order a b \<longleftrightarrow> so_id b = so_id a \<and> so_book_id b = so_book_id a \<and> so_number b = so_number a
     \<and> so_contact_id b = so_contact_id a \<and> so_currency b = so_currency a \<and> so_created_at b = so_created_at a"

lemma same_order_refl [simp]: "same_order a a"
  by (simp add: same_order_def)

lemma same_order_updates [simp]:
  "same_order a (b\<lparr>so_location_id := x1\<rparr>) = same_order a b"
  "same_order a (b\<lparr>so_order_date := x2\<rparr>) = same_order a b"
  "same_order a (b\<lparr>so_notes := x3\<rparr>) = same_order a b"
  "same_order a (b\<lparr>so_status := x4\<rparr>) = same_order a b"
  "same_order a (b\<lparr>so_confirmed_at := x5\<rparr>) = same_order a b"
  "same_order a (b\<lparr>so_cancelled_at := x6\<rparr>) = same_order a b"
  "same_order a (b\<lparr>so_paid_at := x7\<rparr>) = same_order a b"
  "same_order a (b\<lparr>so_updated_at := x8\<rparr>) = same_order a b"
  by (simp_all add: same_order_def)

lemma order_update_put:
  assumes "order_update after s = Inr s'" and "tab_find so_id i (db_orders s) = Some before"
    and "distinct (map so_id (db_orders s))" and "same_order before after"
  shows "s' = s\<lparr>db_orders := tab_put so_id after (db_orders s)\<rparr>"
proof -
  note before = tab_find_Some [OF assms(2)]
  have i: "so_id after = i" using before assms(4) by (simp add: same_order_def)
  have row: "order_columns after r = after" if "r \<in> set (db_orders s)" "so_id r = so_id after" for r
  proof -
    have "r = before" using tab_find_distinct [OF assms(3) that(1)] that(2) assms(2) i by simp
    then show ?thesis using assms(4) by (simp add: order_columns_def same_order_def)
  qed
  then have "map (\<lambda>r. if so_id r = so_id after then order_columns after r else r) (db_orders s)
      = tab_put so_id after (db_orders s)"
    by (auto simp: tab_put_def)
  moreover have "has so_id (so_id after) (db_orders s)" using before i by (metis has_iff image_eqI)
  ultimately show ?thesis using assms(1) by (auto simp: order_update_def constrain_Inr split: if_splits)
qed

text \<open>A status change or an edit: the row is replaced, the audit log grows, the rest stays.\<close>

lemma store_order_Inr:
  assumes upd: "order_update after s1 = Inr s2"
    and audit: "emit_audit E b t k act before' after' s2 = Inr s'"
    and before: "tab_find so_id i (db_orders s1) = Some before"
    and d: "distinct (map so_id (db_orders s1))" and same: "same_order before after"
  obtains n e where "s' = s1\<lparr>db_orders := tab_put so_id after (db_orders s1), db_draws := n,
      db_audit := db_audit s1 @ [e]\<rparr>"
    and "tab_find so_id i (db_orders s') = Some after"
proof -
  note s2 = order_update_put [OF upd before d same]
  from audit obtain e where s': "s' = s2\<lparr>db_draws := Suc (Suc (db_draws s2)), db_audit := db_audit s2 @ [e]\<rparr>"
    by (rule emit_audit_Inr)
  have "so_id after = i" using tab_find_Some [OF before] same by (simp add: same_order_def)
  moreover have "i \<in> so_id ` set (db_orders s1)" using tab_find_Some [OF before] by auto
  ultimately have "tab_find so_id i (db_orders s') = Some after" by (simp add: s' s2 tab_find_put)
  then show thesis by (intro that [of e "Suc (Suc (db_draws s2))"]) (simp_all add: s' s2)
qed

lemma store_order_row:
  assumes "order_update after s1 = Inr s2" and "emit_audit E b t k act before' after' s2 = Inr s'"
    and "tab_find so_id i (db_orders s1) = Some before" and "distinct (map so_id (db_orders s1))"
    and "same_order before after"
  shows "\<exists>n e. s' = s1\<lparr>db_orders := tab_put so_id after (db_orders s1), db_draws := n, db_audit := e\<rparr>"
  using assms by (rule store_order_Inr) blast

text \<open>The stock loops: one movement for each line, in order.\<close>

definition moved_line :: "string \<Rightarrow> (int \<Rightarrow> int) \<Rightarrow> sales_order_item \<Rightarrow> stock_movement \<Rightarrow> bool" where
  "moved_line l delta i m \<longleftrightarrow> soi_variant_id i = Some (sm_variant_id m) \<and> sm_location_id m = l
     \<and> sm_qty_delta m = delta (soi_quantity i)"

lemma move_lines_Inr:
  "for_each (move_line E order l delta narrative) items s = Inr s' \<Longrightarrow>
     \<exists>ms n es. s' = s\<lparr>db_movements := db_movements s @ ms, db_draws := n, db_audit := es\<rparr>
       \<and> list_all2 (moved_line l delta) items ms"
proof (induction items arbitrary: s)
  case Nil
  then have "s' = s\<lparr>db_movements := db_movements s @ [], db_draws := db_draws s, db_audit := db_audit s\<rparr>" by simp
  then show ?case by blast
next
  case (Cons item items)
  then obtain t where step: "move_line E order l delta narrative item s = Inr t"
    and rest: "for_each (move_line E order l delta narrative) items t = Inr s'"
    by (auto simp: attempt_eq_Inr)
  from step obtain v m where v: "soi_variant_id item = Some v"
    and move: "insert_movement_in_tx E (so_book_id order) v l (delta (soi_quantity item)) SM_Sale
        (Some ''sales_order'') (Some (so_id order)) (Some narrative) None s = Inr (m, t)"
    by (auto simp: move_line_def attempt_eq_Inr split: option.splits)
  from move obtain n es where t: "t = s\<lparr>db_movements := db_movements s @ [m], db_draws := n, db_audit := es\<rparr>"
    and m: "sm_variant_id m = v" "sm_location_id m = l" "sm_qty_delta m = delta (soi_quantity item)"
    by (rule insert_movement_Inr)
  from Cons.IH [OF rest] obtain ms n' es' where
    s': "s' = t\<lparr>db_movements := db_movements t @ ms, db_draws := n', db_audit := es'\<rparr>"
    and ms: "list_all2 (moved_line l delta) items ms" by blast
  have "s' = s\<lparr>db_movements := db_movements s @ (m # ms), db_draws := n', db_audit := es'\<rparr>"
    by (simp add: s' t)
  moreover have "list_all2 (moved_line l delta) (item # items) (m # ms)"
    using ms v m by (simp add: moved_line_def)
  ultimately show ?case by blast
qed

text \<open>The quantity of one variant an order's lines hold.\<close>

definition ordered_of :: "sales_order_item list \<Rightarrow> string \<Rightarrow> int" where
  "ordered_of items v = sum_list (map soi_quantity (filter (\<lambda>i. soi_variant_id i = Some v) items))"

lemma moved_quantity:
  assumes "list_all2 (moved_line l delta) items ms"
  shows "quantity_at ms v l' =
     (if l' = l then sum_list (map (\<lambda>i. delta (soi_quantity i)) (filter (\<lambda>i. soi_variant_id i = Some v) items)) else 0)"
  using assms by (induction rule: list_all2_induct) (auto simp: moved_line_def)

lemma ordered_of_stock_lines: "ordered_of (stock_lines items) v = ordered_of items v"
  unfolding ordered_of_def stock_lines_def by (induction items) auto

lemma sum_negate:
  "\<forall>i \<in> set items. 0 < soi_quantity i \<and> in_i64 (soi_quantity i) \<Longrightarrow>
     sum_list (map (\<lambda>i. negate (soi_quantity i)) (filter P items))
     = - sum_list (map soi_quantity (filter P items))"
  by (induction items) (auto simp: negate_def in_i64_def i64_min_def i64_max_def)

section \<open>The invariant of sales orders\<close>

definition variants_of :: "sales_order_item list \<Rightarrow> string \<Rightarrow> string option list" where
  "variants_of items k = map soi_variant_id (filter (\<lambda>i. soi_sales_order_id i = k) items)"

text \<open>The time stamps of an order tell its status and how it came there.\<close>

definition stamps_ok :: "sales_order \<Rightarrow> bool" where
  "stamps_ok r \<longleftrightarrow> (case so_status r of
       SO_Draft \<Rightarrow> so_confirmed_at r = None \<and> so_paid_at r = None \<and> so_cancelled_at r = None
     | SO_Confirmed \<Rightarrow> so_confirmed_at r \<noteq> None \<and> so_paid_at r = None \<and> so_cancelled_at r = None
     | SO_Paid \<Rightarrow> so_confirmed_at r \<noteq> None \<and> so_paid_at r \<noteq> None \<and> so_cancelled_at r = None
     | SO_Cancelled \<Rightarrow> so_paid_at r = None \<and> so_cancelled_at r \<noteq> None)"

text \<open>A confirmed or paid order has lines, and a location as soon as one of them is stock.\<close>

definition settled :: "sales_order \<Rightarrow> bool" where
  "settled r \<longleftrightarrow> so_status r = SO_Confirmed \<or> so_status r = SO_Paid"

definition order_ok :: "sales_order_item list \<Rightarrow> sales_order \<Rightarrow> bool" where
  "order_ok items r \<longleftrightarrow> stamps_ok r \<and> (settled r \<longrightarrow> variants_of items (so_id r) \<noteq> []
     \<and> (so_location_id r = None \<longrightarrow> list_all (\<lambda>v. v = None) (variants_of items (so_id r))))"

definition order_line_ok :: "sales_order_item \<Rightarrow> bool" where
  "order_line_ok i \<longleftrightarrow> line_row_ok (soi_quantity i) (soi_unit_price_minor i) (soi_tax_rate_bps i)"

definition orders_ok :: "db \<Rightarrow> bool" where
  "orders_ok s \<longleftrightarrow>
     docs_ok so_id soi_id soi_sales_order_id order_line_ok order_ok (db_orders s) (db_order_items s)"

interpretation order_doc: document so_id soi_id soi_sales_order_id order_line_ok order_ok soi_variant_id
  "\<lambda>r. so_status r = SO_Draft"
  by unfold_locales (simp_all add: order_ok_def variants_of_def settled_def)

lemma orders_ok_frame:
  "orders_ok s \<Longrightarrow> db_orders s' = db_orders s \<Longrightarrow> db_order_items s' = db_order_items s \<Longrightarrow> orders_ok s'"
  by (simp add: orders_ok_def)

lemma orders_ok_distinct:
  assumes "orders_ok s"
  shows "distinct (map so_id (db_orders s))" and "distinct (map soi_id (db_order_items s))"
  using order_doc.okD(1,2) assms by (auto simp: orders_ok_def)

lemma orders_ok_row: "orders_ok s \<Longrightarrow> tab_find so_id i (db_orders s) = Some r \<Longrightarrow> order_ok (db_order_items s) r"
  unfolding orders_ok_def by (drule order_doc.okD(5)) (auto dest: tab_find_Some)

lemma set_order_item_list: "set (order_item_list s k) = {i \<in> set (db_order_items s). soi_sales_order_id i = k}"
  by (auto simp: order_item_list_def)

lemma variants_of_list:
  "variants_of (db_order_items s) k = [] \<longleftrightarrow> order_item_list s k = []"
  "list_all (\<lambda>v. v = None) (variants_of (db_order_items s) k) \<longleftrightarrow> stock_lines (order_item_list s k) = []"
proof -
  have "set (order_item_list s k) = {} \<longleftrightarrow> set (variants_of (db_order_items s) k) = {}"
    by (auto simp: set_order_item_list variants_of_def)
  then show "variants_of (db_order_items s) k = [] \<longleftrightarrow> order_item_list s k = []" by simp
  have "set (stock_lines (order_item_list s k)) = {} \<longleftrightarrow> (\<forall>v \<in> set (variants_of (db_order_items s) k). v = None)"
    by (auto simp: set_order_item_list variants_of_def stock_lines_def)
  then show "list_all (\<lambda>v. v = None) (variants_of (db_order_items s) k) \<longleftrightarrow> stock_lines (order_item_list s k) = []"
    by (simp add: list_all_iff)
qed

text \<open>One row replaced by a row of the same id: the invariant asks only for that row.\<close>

lemma orders_ok_put:
  assumes "orders_ok s" and "db_orders s' = tab_put so_id after (db_orders s)"
    and "db_order_items s' = db_order_items s" and "order_ok (db_order_items s) after"
  shows "orders_ok s'"
  using assms by (simp add: orders_ok_def order_doc.put_head)

section \<open>Every operation keeps it\<close>

lemma date_or_today_draws:
  obtains d' n where "date_or_today E d s = (d', s\<lparr>db_draws := n\<rparr>)"
  by (cases d) (auto simp: date_or_today_def intro: that [of _ "db_draws s"])

lemma sales_order_create_Inr:
  assumes "sales_order_create E new s = Inr (r, s')"
  obtains s2 n0 n e where
    "allocate_number (so_book_id r) ''sales_order'' (s\<lparr>db_draws := n0\<rparr>) = Inr (so_number r, s2)"
    and "s' = s2\<lparr>db_orders := db_orders s2 @ [r], db_draws := n, db_audit := e\<rparr>"
    and "so_id r \<notin> so_id ` set (db_orders s2)" and "so_status r = SO_Draft" and "stamps_ok r"
    and "so_book_id r = nso_book_id new" and "so_contact_id r = nso_contact_id new"
proof -
  obtain d n0 where d: "date_or_today E (nso_order_date new) s = (d, s\<lparr>db_draws := n0\<rparr>)"
    by (rule date_or_today_draws)
  show thesis
    using assms unfolding sales_order_create_def d Let_def prod.case now_iso_eq new_id_eq
  proof (elim attempt_pairE attempt_InrE guard_then, goal_cases)
    case (1 book contact location u currency number s2 s3 s4)
    from 1(8) have s3: "s3 = s2\<lparr>db_draws := Suc (db_draws s2), db_orders := db_orders s2 @ [r]\<rparr>"
      and fresh: "so_id r \<notin> so_id ` set (db_orders s2)"
      using 1(10) by (auto simp: order_insert_def constrain_Inr has_iff)
    from 1(9) obtain e where s4: "s4 = s3\<lparr>db_draws := Suc (Suc (db_draws s3)), db_audit := db_audit s3 @ [e]\<rparr>"
      by (rule emit_audit_Inr)
    show thesis
      using tab_find_Some [OF 1(1) [unfolded book_get_Inr]] tab_find_Some [OF 1(2) [unfolded contact_get_Inr]] 1(7,10)
      by (intro that [OF _ _ fresh, of "Suc n0" "db_audit s3 @ [e]" "Suc (Suc (db_draws s3))"])
        (auto simp: s4 s3 stamps_ok_def)
  qed
qed

lemma sales_order_create_keeps:
  assumes "sales_order_create E new s = Inr (r, s')" and "orders_ok s"
  shows "orders_ok s'"
  using assms(1)
proof (rule sales_order_create_Inr)
  fix s2 n0 n e
  assume alloc: "allocate_number (so_book_id r) ''sales_order'' (s\<lparr>db_draws := n0\<rparr>) = Inr (so_number r, s2)"
    and s': "s' = s2\<lparr>db_orders := db_orders s2 @ [r], db_draws := n, db_audit := e\<rparr>"
    and fresh: "so_id r \<notin> so_id ` set (db_orders s2)" and draft: "so_status r = SO_Draft" "stamps_ok r"
  from alloc obtain seqs where s2: "s2 = s\<lparr>db_draws := n0, db_sequences := seqs\<rparr>"
    by (rule allocate_number_Inr)
  have "order_ok (db_order_items s) r" using draft by (simp add: order_ok_def settled_def)
  then show ?thesis
    using assms(2) fresh unfolding orders_ok_def s' s2 by (simp add: order_doc.add_head)
qed

text \<open>An edit of the header keeps the status and its stamps.\<close>

definition header_edit :: "sales_order \<Rightarrow> sales_order \<Rightarrow> bool" where
  "header_edit a b \<longleftrightarrow> same_order a b \<and> so_status b = so_status a \<and> so_confirmed_at b = so_confirmed_at a
     \<and> so_paid_at b = so_paid_at a \<and> so_cancelled_at b = so_cancelled_at a"

lemma header_edit_updates [simp]:
  "header_edit a (b\<lparr>so_location_id := x1\<rparr>) = header_edit a b"
  "header_edit a (b\<lparr>so_order_date := x2\<rparr>) = header_edit a b"
  "header_edit a (b\<lparr>so_notes := x3\<rparr>) = header_edit a b"
  "header_edit a (b\<lparr>so_updated_at := x4\<rparr>) = header_edit a b"
  by (simp_all add: header_edit_def)

lemma patch_order_header:
  assumes "patch_order E s before patch = Inr after"
  shows "header_edit before after"
proof -
  have "header_edit before before" by (simp add: header_edit_def)
  with assms show ?thesis
    unfolding patch_order_def
    by (elim if_some_then [where P = "header_edit before"] if_some_end [where P = "header_edit before"])
      (auto simp: attempt_eq_Inr)
qed

lemma sales_order_update_keeps:
  assumes "sales_order_update E i patch s = Inr (after, s')" and "orders_ok s"
  shows "orders_ok s'"
    and "\<exists>before n e. tab_find so_id i (db_orders s) = Some before \<and> so_status before = SO_Draft
      \<and> header_edit before after
      \<and> s' = s\<lparr>db_orders := tab_put so_id after (db_orders s), db_draws := n, db_audit := e\<rparr>"
proof -
  from assms(1) obtain before patched s2 where before: "tab_find so_id i (db_orders s) = Some before"
    and draft: "so_status before = SO_Draft" and patched: "patch_order E s before patch = Inr patched"
    and after: "after = patched\<lparr>so_updated_at := e_now E (db_draws s)\<rparr>"
    and upd: "order_update after (s\<lparr>db_draws := Suc (db_draws s)\<rparr>) = Inr s2"
    and audit: "emit_audit E (Some (so_book_id after)) ''sales_order'' (Some i) ''update''
        (Some (Snap_order before)) (Some (Snap_order after)) s2 = Inr s'"
    unfolding sales_order_update_def Let_def now_iso_eq prod.case
    by (elim attempt_InrE guard_then) (auto simp: sales_order_get_Inr)
  have edit: "header_edit before after" using patch_order_header [OF patched] by (simp add: after)
  have d: "distinct (map so_id (db_orders s))" using assms(2) by (rule orders_ok_distinct(1))
  have b: "tab_find so_id i (db_orders (s\<lparr>db_draws := Suc (db_draws s)\<rparr>)) = Some before" using before by simp
  have "distinct (map so_id (db_orders (s\<lparr>db_draws := Suc (db_draws s)\<rparr>)))" and "same_order before after"
    using d edit by (simp_all add: header_edit_def)
  from store_order_row [OF upd audit b this] obtain n e where
    s': "s' = s\<lparr>db_orders := tab_put so_id after (db_orders s), db_draws := n, db_audit := e\<rparr>"
    by auto
  then show "\<exists>before n e. tab_find so_id i (db_orders s) = Some before \<and> so_status before = SO_Draft
      \<and> header_edit before after
      \<and> s' = s\<lparr>db_orders := tab_put so_id after (db_orders s), db_draws := n, db_audit := e\<rparr>"
    using before draft edit by blast
  have "order_ok (db_order_items s) before" using assms(2) before by (rule orders_ok_row)
  then have "order_ok (db_order_items s) after"
    using edit draft by (simp add: order_ok_def header_edit_def stamps_ok_def settled_def)
  then show "orders_ok s'" by (intro orders_ok_put [OF assms(2)]) (simp_all add: s')
qed

lemma sales_order_delete_Inr:
  assumes "sales_order_delete E i s = Inr (u, s')"
  obtains before n e qs where "tab_find so_id i (db_orders s) = Some before" and "so_status before = SO_Draft"
    and "s' = s\<lparr>db_orders := tab_del so_id i (db_orders s),
           db_order_items := filter (\<lambda>x. soi_sales_order_id x \<noteq> i) (db_order_items s), db_quotes := qs,
           db_draws := n, db_audit := e\<rparr>"
    and "qs = map (\<lambda>q. if qt_converted_sales_order_id q = Some i
           then q\<lparr>qt_converted_sales_order_id := None\<rparr> else q) (db_quotes s)"
  using assms unfolding sales_order_delete_def
proof (elim attempt_pairE attempt_InrE guard_then, goal_cases)
  case (1 before ok s1 s2)
  then have before: "tab_find so_id i (db_orders s) = Some before" by (simp add: sales_order_get_Inr)
  have "i \<in> so_id ` set (db_orders s)" using tab_find_Some [OF before] by auto
  then have s1: "s1 = s\<lparr>db_orders := tab_del so_id i (db_orders s),
         db_order_items := filter (\<lambda>x. soi_sales_order_id x \<noteq> i) (db_order_items s),
         db_quotes := map (\<lambda>q. if qt_converted_sales_order_id q = Some i
            then q\<lparr>qt_converted_sales_order_id := None\<rparr> else q) (db_quotes s)\<rparr>"
    using 1(4) by (auto simp: order_delete_def has_iff split: if_splits)
  from 1(5) obtain e where "s2 = s1\<lparr>db_draws := Suc (Suc (db_draws s1)), db_audit := db_audit s1 @ [e]\<rparr>"
    by (rule emit_audit_Inr)
  then show ?case
    using 1(3,6) before by (intro 1(1) [of before "db_audit s1 @ [e]" "Suc (Suc (db_draws s1))"]) (simp_all add: s1)
qed

lemma sales_order_delete_keeps:
  assumes "sales_order_delete E i s = Inr (u, s')" and "orders_ok s"
  shows "orders_ok s'"
  using assms(1)
proof (rule sales_order_delete_Inr)
  fix n e qs
  assume s': "s' = s\<lparr>db_orders := tab_del so_id i (db_orders s),
           db_order_items := filter (\<lambda>x. soi_sales_order_id x \<noteq> i) (db_order_items s), db_quotes := qs,
           db_draws := n, db_audit := e\<rparr>"
  show ?thesis using assms(2) unfolding orders_ok_def s' by (simp add: order_doc.del_head)
qed

lemma sales_order_item_add_Inr:
  assumes "sales_order_item_add E new s = Inr (item, s')"
  obtains order n e where "tab_find so_id (nsoi_sales_order_id new) (db_orders s) = Some order"
    and "so_status order = SO_Draft"
    and "s' = s\<lparr>db_order_items := db_order_items s @ [item], db_draws := n, db_audit := e\<rparr>"
    and "soi_id item \<notin> soi_id ` set (db_order_items s)" and "soi_sales_order_id item = so_id order"
    and "soi_quantity item = nsoi_quantity new"
    and "line_row_ok (soi_quantity item) (soi_unit_price_minor item) (soi_tax_rate_bps item)"
  using assms unfolding sales_order_item_add_def Let_def now_iso_eq new_id_eq prod.case
proof (elim attempt_pairE case_pairE attempt_InrE guard_then, goal_cases)
  case (1 order v w d p s3 s4)
  from 1(9) have s3: "s3 = s\<lparr>db_draws := Suc (Suc (db_draws s)), db_order_items := db_order_items s @ [item]\<rparr>"
    and ok: "soi_id item \<notin> soi_id ` set (db_order_items s)"
      "line_row_ok (soi_quantity item) (soi_unit_price_minor item) (soi_tax_rate_bps item)"
    using 1(11) by (auto simp: order_item_insert_def constrain_Inr has_iff)
  from 1(10) obtain e where "s4 = s3\<lparr>db_draws := Suc (Suc (db_draws s3)), db_audit := db_audit s3 @ [e]\<rparr>"
    by (rule emit_audit_Inr)
  then show ?case
    using 1(2,3,11) by (intro 1(1) [OF _ _ _ ok(1) _ _ ok(2), of order "db_audit s3 @ [e]" "Suc (Suc (db_draws s3))"])
      (auto simp: s3 sales_order_get_Inr)
qed

lemma sales_order_item_add_keeps:
  assumes "sales_order_item_add E new s = Inr (item, s')" and "orders_ok s"
  shows "orders_ok s'"
  using assms(1)
proof (rule sales_order_item_add_Inr)
  fix order n e
  assume order: "tab_find so_id (nsoi_sales_order_id new) (db_orders s) = Some order" "so_status order = SO_Draft"
    and s': "s' = s\<lparr>db_order_items := db_order_items s @ [item], db_draws := n, db_audit := e\<rparr>"
    and item: "soi_id item \<notin> soi_id ` set (db_order_items s)" "soi_sales_order_id item = so_id order"
      "line_row_ok (soi_quantity item) (soi_unit_price_minor item) (soi_tax_rate_bps item)"
  have "soi_sales_order_id item = nsoi_sales_order_id new" using tab_find_Some [OF order(1)] item(2) by simp
  then show ?thesis
    using assms(2) order item unfolding orders_ok_def s'
    by (simp add: order_doc.add_line order_line_ok_def)
qed

lemma draft_item_Inr:
  "draft_item s i refusal = Inr (before, order) \<longleftrightarrow> tab_find soi_id i (db_order_items s) = Some before
     \<and> tab_find so_id (soi_sales_order_id before) (db_orders s) = Some order \<and> so_status order = SO_Draft"
  by (auto simp: draft_item_def order_item_get_def res_simps)

text \<open>The fields of a line no edit touches.\<close>

definition same_line :: "sales_order_item \<Rightarrow> sales_order_item \<Rightarrow> bool" where
  "same_line a b \<longleftrightarrow> soi_id b = soi_id a \<and> soi_sales_order_id b = soi_sales_order_id a
     \<and> soi_book_id b = soi_book_id a \<and> soi_variant_id b = soi_variant_id a
     \<and> soi_line_order b = soi_line_order a \<and> soi_created_at b = soi_created_at a"

lemma same_line_updates [simp]:
  "same_line a (b\<lparr>soi_description := x1\<rparr>) = same_line a b"
  "same_line a (b\<lparr>soi_quantity := x2\<rparr>) = same_line a b"
  "same_line a (b\<lparr>soi_unit_price_minor := x3\<rparr>) = same_line a b"
  "same_line a (b\<lparr>soi_tax_rate_bps := x4\<rparr>) = same_line a b"
  "same_line a (b\<lparr>soi_updated_at := x5\<rparr>) = same_line a b"
  by (simp_all add: same_line_def)

lemma patch_order_item_same:
  assumes "patch_order_item before patch = Inr after"
  shows "same_line before after"
proof -
  have "same_line before before" by (simp add: same_line_def)
  with assms show ?thesis
    unfolding patch_order_item_def
    by (elim if_some_then [where P = "same_line before"] if_some_end [where P = "same_line before"])
      (auto simp: guard_eq_Inr)
qed

text \<open>The row a line update writes.\<close>

lemma map_line_put:
  assumes "distinct (map soi_id rows)" and "tab_find soi_id (soi_id after) rows = Some before" and "same_line before after"
  shows "map (\<lambda>r. if soi_id r = soi_id after
      then r\<lparr>soi_description := soi_description after, soi_quantity := soi_quantity after,
             soi_unit_price_minor := soi_unit_price_minor after, soi_tax_rate_bps := soi_tax_rate_bps after,
             soi_updated_at := soi_updated_at after\<rparr> else r) rows = tab_put soi_id after rows"
proof (rule map_if_put [OF assms(1,2)])
  show "before\<lparr>soi_description := soi_description after, soi_quantity := soi_quantity after,
      soi_unit_price_minor := soi_unit_price_minor after, soi_tax_rate_bps := soi_tax_rate_bps after,
      soi_updated_at := soi_updated_at after\<rparr> = after"
    using assms(3) by (cases before; cases after) (simp add: same_line_def)
qed

lemma sales_order_item_update_Inr:
  assumes "sales_order_item_update E i patch s = Inr (after, s')" and "distinct (map soi_id (db_order_items s))"
  obtains before order n e where "tab_find soi_id i (db_order_items s) = Some before"
    and "tab_find so_id (soi_sales_order_id before) (db_orders s) = Some order" and "so_status order = SO_Draft"
    and "same_line before after"
    and "line_row_ok (soi_quantity after) (soi_unit_price_minor after) (soi_tax_rate_bps after)"
    and "s' = s\<lparr>db_order_items := tab_put soi_id after (db_order_items s), db_draws := n, db_audit := e\<rparr>"
  using assms(1) unfolding sales_order_item_update_def Let_def now_iso_eq prod.case
proof (elim attempt_pairE attempt_InrE, goal_cases)
  case (1 before order patched s2 s3)
  note draft = 1(2) [unfolded draft_item_Inr]
  have same: "same_line before after" using patch_order_item_same [OF 1(3)] 1(6) by auto
  have id: "soi_id after = i" using same draft by (auto simp: same_line_def dest: tab_find_Some)
  have "has soi_id (soi_id after) (db_order_items s)" using draft id by (auto intro: tab_find_has)
  then have s2: "s2 = s\<lparr>db_draws := Suc (db_draws s), db_order_items := tab_put soi_id after (db_order_items s)\<rparr>"
    and ok: "line_row_ok (soi_quantity after) (soi_unit_price_minor after) (soi_tax_rate_bps after)"
    using 1(4,6) map_line_put [OF assms(2) _ same] draft id by (auto simp: order_item_update_def constrain_Inr)
  from 1(5) obtain e where "s3 = s2\<lparr>db_draws := Suc (Suc (db_draws s2)), db_audit := db_audit s2 @ [e]\<rparr>"
    by (rule emit_audit_Inr)
  then show ?case
    using draft 1(6) by (intro 1(1) [OF _ _ _ same ok, of order "db_audit s2 @ [e]" "Suc (Suc (db_draws s2))"])
      (auto simp: s2)
qed

lemma sales_order_item_update_keeps:
  assumes "sales_order_item_update E i patch s = Inr (after, s')" and "orders_ok s"
  shows "orders_ok s'"
proof -
  from assms(1) orders_ok_distinct(2) [OF assms(2)] obtain before order n e where before: "tab_find soi_id i (db_order_items s) = Some before"
    and order: "tab_find so_id (soi_sales_order_id before) (db_orders s) = Some order" "so_status order = SO_Draft"
    and same: "same_line before after"
    and row: "line_row_ok (soi_quantity after) (soi_unit_price_minor after) (soi_tax_rate_bps after)"
    and s': "s' = s\<lparr>db_order_items := tab_put soi_id after (db_order_items s), db_draws := n, db_audit := e\<rparr>"
    by (rule sales_order_item_update_Inr)
  have "tab_find soi_id (soi_id after) (db_order_items s) = Some before"
    and "soi_sales_order_id after = soi_sales_order_id before"
    using before same tab_find_Some [OF before] by (simp_all add: same_line_def)
  from order_doc.put_line [OF assms(2) [unfolded orders_ok_def] this order] row show ?thesis
    by (simp add: orders_ok_def s' order_line_ok_def)
qed

lemma sales_order_item_remove_Inr:
  assumes "sales_order_item_remove E i s = Inr (u, s')"
  obtains before order n e where "tab_find soi_id i (db_order_items s) = Some before"
    and "tab_find so_id (soi_sales_order_id before) (db_orders s) = Some order" and "so_status order = SO_Draft"
    and "s' = s\<lparr>db_order_items := tab_del soi_id i (db_order_items s), db_draws := n, db_audit := e\<rparr>"
  using assms unfolding sales_order_item_remove_def
proof (elim attempt_pairE attempt_InrE, goal_cases)
  case (1 before order b s1 s2)
  from 1(3) have s1: "s1 = s\<lparr>db_order_items := tab_del soi_id i (db_order_items s)\<rparr>"
    by (simp add: order_item_delete_def)
  from 1(4) obtain e where "s2 = s1\<lparr>db_draws := Suc (Suc (db_draws s1)), db_audit := db_audit s1 @ [e]\<rparr>"
    by (rule emit_audit_Inr)
  then show ?case
    using 1(2) [unfolded draft_item_Inr] 1(5)
    by (intro 1(1) [of before order "db_audit s1 @ [e]" "Suc (Suc (db_draws s1))"]) (auto simp: s1)
qed

lemma sales_order_item_remove_keeps:
  assumes "sales_order_item_remove E i s = Inr (u, s')" and "orders_ok s"
  shows "orders_ok s'"
  using assms(1)
proof (rule sales_order_item_remove_Inr)
  fix before order n e
  assume before: "tab_find soi_id i (db_order_items s) = Some before"
    and order: "tab_find so_id (soi_sales_order_id before) (db_orders s) = Some order" "so_status order = SO_Draft"
    and s': "s' = s\<lparr>db_order_items := tab_del soi_id i (db_order_items s), db_draws := n, db_audit := e\<rparr>"
  from order_doc.del_line [OF assms(2) [unfolded orders_ok_def] before order] show ?thesis
    by (simp add: orders_ok_def s')
qed

end
