(* ===== verification/Order_Lifecycle.thy ===== *)
theory Order_Lifecycle
  imports Sales_Orders
begin

text \<open>
  Confirming, cancelling and paying a sales order: what these operations do to stock, to the
  ledger and to the order, and the properties of the whole life of an order. An order's
  journals are followed through the sum of what its live journals moved: a confirmation moves
  every account by what that sum gains, a cancellation by what it loses, down to nothing.
\<close>

section \<open>What the live journals of a source moved\<close>

definition live_sum :: "(journal \<Rightarrow> bool) \<Rightarrow> db \<Rightarrow> string \<Rightarrow> string \<Rightarrow> int" where
  "live_sum Q s a c = sum_list (map (\<lambda>j. net_in a c (lines_of s (jn_id j)))
     (filter (\<lambda>j. Q j \<and> is_net_reversed s (jn_id j) = Inr False) (db_journals s)))"

definition of_order :: "string \<Rightarrow> string \<Rightarrow> journal \<Rightarrow> bool" where
  "of_order b i j \<longleftrightarrow> jn_book_id j = b \<and> (jn_source_type j = JS_SalesCogs \<or> jn_source_type j = JS_SalesRevenue)
     \<and> jn_source_id j = Some i"

text \<open>What is left on an account once the live journals of the source are taken out.\<close>

definition net_without :: "(journal \<Rightarrow> bool) \<Rightarrow> db \<Rightarrow> string \<Rightarrow> string \<Rightarrow> int" where
  "net_without Q s a c = account_net s a c - live_sum Q s a c"

lemma live_sum_cong:
  assumes "db_journals s' = db_journals s" and "db_lines s' = db_lines s"
  shows "live_sum Q s' a c = live_sum Q s a c" and "net_without Q s' a c = net_without Q s a c"
proof -
  show "live_sum Q s' a c = live_sum Q s a c"
    by (simp add: live_sum_def lines_of_def assms is_net_reversed_cong [OF assms(1)])
  then show "net_without Q s' a c = net_without Q s a c" by (simp add: net_without_def account_net_def assms)
qed

lemma sum_filter_without:
  fixes f :: "'a \<Rightarrow> int"
  assumes "distinct (map g xs)" and "x \<in> set xs" and "P x"
  shows "sum_list (map f (filter (\<lambda>y. P y \<and> g y \<noteq> g x) xs)) = sum_list (map f (filter P xs)) - f x"
  using assms
proof (induction xs)
  case Nil
  then show ?case by simp
next
  case (Cons y xs)
  show ?case
  proof (cases "x = y")
    case True
    then have "filter (\<lambda>z. P z \<and> g z \<noteq> g x) xs = filter P xs"
      using Cons.prems(1) by (intro filter_cong) (auto simp: rev_image_eqI)
    then show ?thesis using True Cons.prems(3) by simp
  next
    case False
    then have "x \<in> set xs" and "g y \<noteq> g x" using Cons.prems by (auto simp: rev_image_eqI)
    then show ?thesis using Cons.IH Cons.prems by simp
  qed
qed

lemma lines_of_older:
  assumes "post_journal_in_tx E book new ro s = Inr (p, s')" and "i \<in> jn_id ` set (db_journals s)"
  shows "lines_of s' i = lines_of s i"
proof -
  from assms(1) obtain ls where "jn_id (pj_journal p) \<notin> jn_id ` set (db_journals s)"
    and "db_lines s' = db_lines s @ pj_lines p"
    by (rule post_journal_effect)
  with posted_lines_ok(4) [OF assms(1)] assms(2) show ?thesis
    by (auto simp: lines_of_def filter_empty_conv)
qed

text \<open>A posting for the source moves the accounts and the live sum together.\<close>

lemma post_keeps_net_without:
  assumes ok: "ledger_ok s" and post: "post_journal_in_tx E book new None s = Inr (p, s')"
    and Q: "Q (pj_journal p)"
  shows "net_without Q s' a c = net_without Q s a c"
proof -
  from post obtain ls where row: "pj_journal p = journal_row E book new None s"
    and fresh: "jn_id (pj_journal p) \<notin> jn_id ` set (db_journals s)"
    and js: "db_journals s' = db_journals s @ [pj_journal p]" and ln: "db_lines s' = db_lines s @ pj_lines p"
    by (rule post_journal_effect)
  have ok': "ledger_ok s'" using ledger_ok_post [OF post _ ok] by simp
  then have chain: "journals_ok (db_journals s')" by (simp add: ledger_ok_def)
  have plain: "is_net_reversed s' i = is_net_reversed s i" for i
    using is_net_reversed_plain [OF chain js] by (simp add: row)
  have "find_reversal s' (jn_id (pj_journal p)) = None"
    using new_journal_live [OF chain [unfolded js] js] .
  then have live: "is_net_reversed s' (jn_id (pj_journal p)) = Inr False"
    using is_net_reversed_rec [OF chain, of "jn_id (pj_journal p)"] by simp
  have none: "filter (\<lambda>l. jl_journal_id l = jn_id (pj_journal p)) (db_lines s) = []"
    unfolding filter_empty_conv using fresh ledger_ok_line_ref [OF ok] by (metis image_eqI)
  have own: "lines_of s' (jn_id (pj_journal p)) = pj_lines p"
    using posted_lines_ok(4) [OF post] by (simp add: lines_of_def ln none)
  let ?live = "filter (\<lambda>j. Q j \<and> is_net_reversed s (jn_id j) = Inr False) (db_journals s)"
  have "sum_list (map (\<lambda>j. net_in a c (lines_of s' (jn_id j))) ?live)
      = sum_list (map (\<lambda>j. net_in a c (lines_of s (jn_id j))) ?live)"
    by (intro arg_cong [where f = sum_list] map_cong) (auto simp: lines_of_older [OF post])
  then have "live_sum Q s' a c = live_sum Q s a c + net_in a c (pj_lines p)"
    using Q by (simp add: live_sum_def js plain [of "jn_id _"] live [unfolded plain] own)
  then show ?thesis by (simp add: net_without_def account_net_def ln)
qed

text \<open>A reversal of one of the source's journals takes out of both what that journal moved.\<close>

lemma reverse_keeps_net_without:
  assumes ok: "ledger_ok s" and rev: "reverse_journal_in_tx E book k d n s = Inr (p, s')"
    and live: "is_net_reversed s k = Inr False"
    and j: "j \<in> set (db_journals s)" "jn_id j = k" "Q j" "jn_source_type j \<noteq> JS_Manual"
    and Q: "\<And>x. Q x \<Longrightarrow> jn_source_type x \<noteq> JS_Manual"
  shows "net_without Q s' a c = net_without Q s a c"
proof -
  note eff = reversal_effect [OF ok rev]
  have gen: "generated s k" using j by (auto simp: generated_def list_ex_iff)
  have chain: "journals_ok (db_journals s)" "journals_ok (db_journals s')"
    using ok ledger_ok_reverse [OF ok rev] by (auto simp: ledger_ok_def)
  from rev obtain new where post: "post_journal_in_tx E book new (Some k) s = Inr (p, s')"
    by (rule reverse_in_tx_post)
  have "is_net_reversed s' (jn_id (pj_journal p)) = Inr False"
    using is_net_reversed_rec [OF chain(2), of "jn_id (pj_journal p)"] eff(3) by simp
  then have dead: "is_net_reversed s' k = Inr True"
    using is_net_reversed_rec [OF chain(2), of k] eff(2) by simp
  have others: "is_net_reversed s' (jn_id x) = is_net_reversed s (jn_id x)"
    if "x \<in> set (db_journals s)" "jn_id x \<noteq> k" for x
    using reverse_other(2) [OF ok gen rev] that by simp
  let ?P = "\<lambda>x. Q x \<and> is_net_reversed s (jn_id x) = Inr False"
  have new: "\<not> Q (pj_journal p)" using Q [of "pj_journal p"] eff(8) by auto
  have "filter (\<lambda>x. Q x \<and> is_net_reversed s' (jn_id x) = Inr False) (db_journals s)
      = filter (\<lambda>x. ?P x \<and> jn_id x \<noteq> jn_id j) (db_journals s)"
  proof (intro filter_cong refl)
    fix x
    assume x: "x \<in> set (db_journals s)"
    show "(Q x \<and> is_net_reversed s' (jn_id x) = Inr False) = (?P x \<and> jn_id x \<noteq> jn_id j)"
      using others [OF x] dead j(2) by (cases "jn_id x = k") auto
  qed
  then have "live_sum Q s' a c = sum_list (map (\<lambda>x. net_in a c (lines_of s' (jn_id x)))
      (filter (\<lambda>x. ?P x \<and> jn_id x \<noteq> jn_id j) (db_journals s)))"
    using new by (simp add: live_sum_def eff(4))
  also have "\<dots> = sum_list (map (\<lambda>x. net_in a c (lines_of s (jn_id x)))
      (filter (\<lambda>x. ?P x \<and> jn_id x \<noteq> jn_id j) (db_journals s)))"
    by (intro arg_cong [where f = sum_list] map_cong) (auto simp: lines_of_older [OF post])
  also have "\<dots> = live_sum Q s a c - net_in a c (lines_of s k)"
    using sum_filter_without [OF journals_ok_distinct [OF chain(1)] j(1), of ?P] live j(2,3)
    by (simp add: live_sum_def)
  finally have "live_sum Q s' a c = live_sum Q s a c - net_in a c (lines_of s k)" .
  moreover have "account_net s' a c = account_net s a c - net_in a c (lines_of s k)"
    using net_in_mirror [OF reverse_in_tx_mirrors [OF ok rev], of a c] eff(5)
    by (simp add: account_net_def net_in_lines_for_journal)
  ultimately show ?thesis by (simp add: net_without_def)
qed

lemma reverse_loop_keeps_net_without:
  "for_each (reverse_if_live E book why d) ks s = Inr s' \<Longrightarrow> ledger_ok s \<Longrightarrow>
     \<forall>k \<in> set ks. \<exists>j \<in> set (db_journals s). jn_id j = k \<and> Q j \<Longrightarrow>
     (\<And>x. Q x \<Longrightarrow> jn_source_type x \<noteq> JS_Manual) \<Longrightarrow>
     net_without Q s' a c = net_without Q s a c"
proof (induction ks arbitrary: s)
  case Nil
  then show ?case by simp
next
  case (Cons k ks)
  then obtain t where step: "reverse_if_live E book why d k s = Inr t"
    and rest: "for_each (reverse_if_live E book why d) ks t = Inr s'"
    by (auto simp: attempt_eq_Inr)
  have grows: "ledger_grows s t" using step by (rule reverse_if_live_grows)
  then have ok: "ledger_ok t" and js: "\<exists>js. db_journals t = db_journals s @ js"
    using Cons.prems(2) by (simp_all add: ledger_grows_def)
  have "net_without Q t a c = net_without Q s a c"
    using reverse_if_live_Inr [OF step]
  proof (elim disjE exE conjE)
    fix p n
    assume live: "is_net_reversed s k = Inr False" and rev: "reverse_journal_in_tx E book k (Some d) n s = Inr (p, t)"
    from Cons.prems(3) obtain j where "j \<in> set (db_journals s)" "jn_id j = k" "Q j" by auto
    then show ?thesis
      using Cons.prems(4) by (intro reverse_keeps_net_without [OF Cons.prems(2) rev live]) auto
  qed simp
  moreover have "\<forall>k \<in> set ks. \<exists>j \<in> set (db_journals t). jn_id j = k \<and> Q j"
    using Cons.prems(3) js by fastforce
  then have "net_without Q s' a c = net_without Q t a c"
    by (rule Cons.IH [OF rest ok _ Cons.prems(4)])
  ultimately show ?case by simp
qed

section \<open>Confirming\<close>

lemma confirm_journals_Inr:
  assumes "post_sales_confirm_journals E book r items s = Inr (js, s')"
  obtains cur total t cost revenue where "normalize_currency_code (so_currency r) = Inr cur"
    and "post_cost_journal E book r cur total s = Inr (cost, t)"
    and "post_revenue_ar_journal E book cur
        (map (\<lambda>i. (soi_quantity i, soi_unit_price_minor i, soi_tax_rate_bps i)) items)
        (so_order_date r) (''Sale: order #'' @ show_int (so_number r)) (so_id r) JS_SalesRevenue (so_id r) t
      = Inr (revenue, s')"
    and "js = (cost, revenue)"
  using assms unfolding post_sales_confirm_journals_def
  by (elim attempt_pairE attempt_InrE) auto

context trade_posting
begin

lemma keeps_net_without:
  assumes "post E book s = Inr (po, s')" and "ledger_ok s" and "ty = JS_SalesCogs \<or> ty = JS_SalesRevenue"
  shows "net_without (of_order (bk_id book) src) s' a c = net_without (of_order (bk_id book) src) s a c"
  using outcome [OF assms(1)]
proof (elim disjE exE conjE)
  fix p new
  assume po: "po = Some p" and post: "post_journal_in_tx E book new None s = Inr (p, s')"
  show ?thesis
    using posted [OF assms(1) [unfolded po]] assms(3)
    by (intro post_keeps_net_without [OF assms(2) post]) (auto simp: of_order_def)
qed simp

lemma appends_own:
  assumes "post E book s = Inr (po, s')" and "ty = JS_SalesCogs \<or> ty = JS_SalesRevenue"
  shows "\<exists>js. db_journals s' = db_journals s @ js \<and> length js \<le> 1 \<and> list_all (of_order (bk_id book) src) js"
  using appends [OF assms(1)] posted assms by (cases po) (auto simp: of_order_def)

end

lemma confirm_journals_effect:
  assumes "post_sales_confirm_journals E book r items s = Inr (js, s')" and "ledger_ok s"
  shows "ledger_ok s'" and "same_but_ledger s s'"
    and "net_without (of_order (bk_id book) (so_id r)) s' a c = net_without (of_order (bk_id book) (so_id r)) s a c"
    and "\<exists>js. db_journals s' = db_journals s @ js \<and> length js \<le> 2 \<and> list_all (of_order (bk_id book) (so_id r)) js"
  using assms(1)
proof (atomize (full), elim confirm_journals_Inr, goal_cases)
  case (1 cur total t cost revenue)
  note cost = cost_posting.keeps_ledger [OF 1(2) assms(2)] cost_posting.keeps_tables [OF 1(2)]
    cost_posting.keeps_net_without [OF 1(2) assms(2)] cost_posting.appends_own [OF 1(2)]
  note revenue = revenue_posting.keeps_ledger [OF 1(3) cost(1)] revenue_posting.keeps_tables [OF 1(3)]
    revenue_posting.keeps_net_without [OF 1(3) cost(1)] revenue_posting.appends_own [OF 1(3)]
  obtain js1 js2 where "db_journals t = db_journals s @ js1" "length js1 \<le> 1"
      "list_all (of_order (bk_id book) (so_id r)) js1"
    and "db_journals s' = db_journals t @ js2" "length js2 \<le> 1" "list_all (of_order (bk_id book) (so_id r)) js2"
    using cost(4) revenue(4) by auto
  then have "\<exists>js. db_journals s' = db_journals s @ js \<and> length js \<le> 2 \<and> list_all (of_order (bk_id book) (so_id r)) js"
    by (intro exI [of _ "js1 @ js2"]) auto
  then show ?case
    using revenue(1) same_but_ledger_trans [OF cost(2) revenue(2)] cost(3) revenue(3) by simp
qed

lemma sales_order_confirm_Inr:
  assumes "sales_order_confirm E i s = Inr (after, s')" and "orders_ok s"
  obtains before book ms m l1 s2 js n e where "tab_find so_id i (db_orders s) = Some before"
    and "so_status before = SO_Draft" and "order_item_list s i \<noteq> []"
    and "stock_lines (order_item_list s i) = [] \<or> so_location_id before \<noteq> None"
    and "tab_find bk_id (so_book_id before) (db_books s) = Some book"
    and "case so_location_id before of None \<Rightarrow> ms = []
         | Some l \<Rightarrow> list_all2 (moved_line l negate) (stock_lines (order_item_list s i)) ms"
    and "post_sales_confirm_journals E book before (order_item_list s i)
           (s\<lparr>db_movements := db_movements s @ ms, db_draws := m, db_audit := l1\<rparr>) = Inr (js, s2)"
    and "after = before\<lparr>so_status := SO_Confirmed, so_confirmed_at := Some (e_now E (db_draws s)),
           so_updated_at := e_now E (db_draws s)\<rparr>"
    and "db_orders s2 = db_orders s \<longrightarrow>
         s' = s2\<lparr>db_orders := tab_put so_id after (db_orders s), db_draws := n, db_audit := e\<rparr>"
  using assms(1) unfolding sales_order_confirm_def Let_def now_iso_eq prod.case sales_order_items_list_def
proof (elim attempt_pairE attempt_InrE guard_then, goal_cases)
  case (1 before book s1 js s2 s3 s4)
  have before: "tab_find so_id i (db_orders s) = Some before" using 1(2) by (simp add: sales_order_get_Inr)
  have d: "distinct (map so_id (db_orders s))" using assms(2) by (rule orders_ok_distinct(1))
  obtain ms m e1 where s1: "s1 = s\<lparr>db_movements := db_movements s @ ms, db_draws := m, db_audit := e1\<rparr>"
    and ms: "case so_location_id before of None \<Rightarrow> ms = []
         | Some l \<Rightarrow> list_all2 (moved_line l negate) (stock_lines (order_item_list s i)) ms"
  proof (cases "so_location_id before")
    case None
    then have "s1 = s\<lparr>db_draws := Suc (db_draws s)\<rparr>" using 1(7) by simp
    then have "s1 = s\<lparr>db_movements := db_movements s @ [], db_draws := Suc (db_draws s), db_audit := db_audit s\<rparr>"
      by (cases s) simp
    then show ?thesis using None by (intro that [of "db_audit s" "Suc (db_draws s)" "[]"]) auto
  next
    case (Some l)
    then have "for_each (move_line E before l negate (''sale: order #'' @ show_int (so_number before)))
        (stock_lines (order_item_list s i)) (s\<lparr>db_draws := Suc (db_draws s)\<rparr>) = Inr s1"
      using 1(7) by simp
    from move_lines_Inr [OF this] obtain ms n es where
      "s1 = (s\<lparr>db_draws := Suc (db_draws s)\<rparr>)\<lparr>db_movements := db_movements s @ ms, db_draws := n, db_audit := es\<rparr>"
      "list_all2 (moved_line l negate) (stock_lines (order_item_list s i)) ms"
      by auto
    then show ?thesis using Some by (intro that [of es n ms]) auto
  qed
  have s': "\<exists>n e. s' = s2\<lparr>db_orders := tab_put so_id after (db_orders s), db_draws := n, db_audit := e\<rparr>"
    if same: "db_orders s2 = db_orders s"
  proof -
    have b: "tab_find so_id i (db_orders s2) = Some before" using before same by simp
    have d2: "distinct (map so_id (db_orders s2))" using d same by simp
    show ?thesis using store_order_row [OF 1(9,10) b d2] same 1(11) by simp
  qed
  from s' obtain n e where row: "db_orders s2 = db_orders s \<longrightarrow>
      s' = s2\<lparr>db_orders := tab_put so_id after (db_orders s), db_draws := n, db_audit := e\<rparr>"
    by blast
  have "so_status before = SO_Draft" and "order_item_list s i \<noteq> []"
    and "stock_lines (order_item_list s i) = [] \<or> so_location_id before \<noteq> None"
    using 1(3,4,5) by auto
  from 1(1) [OF before this 1(6) [unfolded book_get_Inr] ms 1(8) [unfolded s1] _ row] 1(11)
  show ?case by simp
qed

lemma sales_order_confirm_effect:
  assumes "sales_order_confirm E i s = Inr (after, s')" and "orders_ok s" and "ledger_ok s"
  obtains before ms js where "tab_find so_id i (db_orders s) = Some before"
    and "so_status before = SO_Draft" and "order_item_list s i \<noteq> []"
    and "stock_lines (order_item_list s i) = [] \<or> so_location_id before \<noteq> None"
    and "after = before\<lparr>so_status := SO_Confirmed, so_confirmed_at := Some (e_now E (db_draws s)),
           so_updated_at := e_now E (db_draws s)\<rparr>"
    and "case so_location_id before of None \<Rightarrow> ms = []
         | Some l \<Rightarrow> list_all2 (moved_line l negate) (stock_lines (order_item_list s i)) ms"
    and "db_movements s' = db_movements s @ ms" and "db_orders s' = tab_put so_id after (db_orders s)"
    and "same_but_ledger (s\<lparr>db_movements := db_movements s @ ms, db_orders := tab_put so_id after (db_orders s)\<rparr>) s'"
    and "ledger_ok s'" and "orders_ok s'"
    and "\<And>a c. net_without (of_order (so_book_id before) i) s' a c = net_without (of_order (so_book_id before) i) s a c"
    and "db_journals s' = db_journals s @ js" and "length js \<le> 2" and "list_all (of_order (so_book_id before) i) js"
  using assms(1,2)
proof (rule sales_order_confirm_Inr)
  fix before book ms m e0 s2 js n e
  assume before: "tab_find so_id i (db_orders s) = Some before" "so_status before = SO_Draft"
    and items: "order_item_list s i \<noteq> []" "stock_lines (order_item_list s i) = [] \<or> so_location_id before \<noteq> None"
    and book: "tab_find bk_id (so_book_id before) (db_books s) = Some book"
    and ms: "case so_location_id before of None \<Rightarrow> ms = []
         | Some l \<Rightarrow> list_all2 (moved_line l negate) (stock_lines (order_item_list s i)) ms"
    and post: "post_sales_confirm_journals E book before (order_item_list s i)
           (s\<lparr>db_movements := db_movements s @ ms, db_draws := m, db_audit := e0\<rparr>) = Inr (js, s2)"
    and after: "after = before\<lparr>so_status := SO_Confirmed, so_confirmed_at := Some (e_now E (db_draws s)),
           so_updated_at := e_now E (db_draws s)\<rparr>"
    and s': "db_orders s2 = db_orders s \<longrightarrow>
         s' = s2\<lparr>db_orders := tab_put so_id after (db_orders s), db_draws := n, db_audit := e\<rparr>"
  let ?s1 = "s\<lparr>db_movements := db_movements s @ ms, db_draws := m, db_audit := e0\<rparr>"
  have ids: "bk_id book = so_book_id before" "so_id before = i"
    using tab_find_Some [OF book] tab_find_Some [OF before(1)] by simp_all
  have ok1: "ledger_ok ?s1" using assms(3) ledger_ok_cong [of ?s1 s] by simp
  have net1: "net_without Q ?s1 a c = net_without Q s a c" for Q a c by (rule live_sum_cong) simp_all
  note eff = confirm_journals_effect [OF post ok1, unfolded ids]
  have s'_eq: "s' = s2\<lparr>db_orders := tab_put so_id after (db_orders s), db_draws := n, db_audit := e\<rparr>"
    using s' same_but_ledger_tables(14) [OF eff(2)] by simp
  have net2: "net_without Q s' a c = net_without Q s2 a c" for Q a c by (rule live_sum_cong) (simp_all add: s'_eq)
  have ledger: "ledger_ok s'" using eff(1) ledger_ok_cong [of s' s2] by (simp add: s'_eq)
  have same: "same_but_ledger (s\<lparr>db_movements := db_movements s @ ms, db_orders := tab_put so_id after (db_orders s)\<rparr>) s'"
    using eff(2) unfolding s'_eq by (cases s; cases s2) (simp add: same_but_ledger_def)
  have "order_ok (db_order_items s) before"
    using assms(2) before(1) by (rule orders_ok_row)
  then have "order_ok (db_order_items s) after"
    using items ids variants_of_list [of s i] before(2) by (auto simp: order_ok_def stamps_ok_def after)
  then have "orders_ok s'"
    using same_but_ledger_tables(15) [OF same] by (intro orders_ok_put [OF assms(2)]) (simp_all add: s'_eq)
  moreover obtain js' where "db_journals s' = db_journals s @ js'" "length js' \<le> 2"
      "list_all (of_order (so_book_id before) i) js'"
    using eff(4) by (auto simp: s'_eq)
  ultimately show thesis
    using same_but_ledger_tables(9) [OF same] ledger net1 net2 eff(3)
    by (intro that [OF before items after ms _ _ same]) (simp_all add: s'_eq)
qed

text \<open>What a confirmation takes from the shelves.\<close>

definition shipped :: "sales_order \<Rightarrow> sales_order_item list \<Rightarrow> string \<Rightarrow> string \<Rightarrow> int" where
  "shipped r items v l = (if so_location_id r = Some l then ordered_of items v else 0)"

lemma lines_quantity:
  assumes "list_all2 (moved_line l delta) (stock_lines items) ms"
  shows "quantity_at ms v l' = (if l' = l then sum_list (map (\<lambda>i. delta (soi_quantity i))
      (filter (\<lambda>i. soi_variant_id i = Some v) items)) else 0)"
proof -
  have "filter (\<lambda>i. soi_variant_id i = Some v) (stock_lines items) = filter (\<lambda>i. soi_variant_id i = Some v) items"
    unfolding stock_lines_def filter_filter by (rule filter_cong) auto
  then show ?thesis using moved_quantity [OF assms, of v l'] by simp
qed

section \<open>Cancelling\<close>

lemma undo_confirm_Inr:
  assumes "undo_confirm E book before now s = Inr s'"
  obtains ms m l1 where "reverse_sales_confirm_journals E book before (take 10 now)
      (s\<lparr>db_movements := db_movements s @ ms, db_draws := m, db_audit := l1\<rparr>) = Inr s'"
    and "case so_location_id before of
           None \<Rightarrow> stock_lines (order_item_list s (so_id before)) = [] \<and> ms = []
         | Some l \<Rightarrow> list_all2 (moved_line l id) (stock_lines (order_item_list s (so_id before))) ms"
  using assms unfolding undo_confirm_def Let_def
proof (elim attempt_InrE, goal_cases)
  case (1 s1)
  let ?lines = "stock_lines (order_item_list s (so_id before))"
  have none: "s = s\<lparr>db_movements := db_movements s @ [], db_draws := db_draws s, db_audit := db_audit s\<rparr>"
    by (cases s) simp
  show ?case
  proof (cases "?lines = []")
    case True
    with 1(2) have "s1 = s" by simp
    then show ?thesis
      using 1(3) none True by (intro 1(1) [of "db_audit s" "db_draws s" "[]"]) (simp_all split: option.split)
  next
    case False
    then obtain l where l: "so_location_id before = Some l"
      and "for_each (move_line E before l id (''cancelled: reversing sales_order '' @ so_id before)) ?lines s = Inr s1"
      using 1(2) by (auto split: option.splits)
    from move_lines_Inr [OF this(2)] obtain ms n es where
      "s1 = s\<lparr>db_movements := db_movements s @ ms, db_draws := n, db_audit := es\<rparr>" "list_all2 (moved_line l id) ?lines ms"
      by blast
    then show ?thesis using 1(3) l by (intro 1(1) [of es n ms]) simp_all
  qed
qed

lemma undo_confirm_effect:
  assumes "undo_confirm E book before now s = Inr s'" and "ledger_ok s"
  obtains ms where "db_movements s' = db_movements s @ ms"
    and "case so_location_id before of
           None \<Rightarrow> stock_lines (order_item_list s (so_id before)) = [] \<and> ms = []
         | Some l \<Rightarrow> list_all2 (moved_line l id) (stock_lines (order_item_list s (so_id before))) ms"
    and "same_but_ledger (s\<lparr>db_movements := db_movements s @ ms\<rparr>) s'" and "ledger_ok s'"
    and "\<And>a c. net_without (of_order (bk_id book) (so_id before)) s' a c
            = net_without (of_order (bk_id book) (so_id before)) s a c"
    and "\<And>a c. live_sum (of_order (bk_id book) (so_id before)) s' a c = 0"
    and "\<exists>js. db_journals s' = db_journals s @ js"
  using assms(1)
proof (rule undo_confirm_Inr)
  fix ms m l1
  let ?s = "s\<lparr>db_movements := db_movements s @ ms, db_draws := m, db_audit := l1\<rparr>"
  let ?Q = "of_order (bk_id book) (so_id before)"
  let ?ks = "\<lambda>t ty. find_journals_by_source t (bk_id book) ty (so_id before)"
  assume rev: "reverse_sales_confirm_journals E book before (take 10 now) ?s = Inr s'"
    and ms: "case so_location_id before of
           None \<Rightarrow> stock_lines (order_item_list s (so_id before)) = [] \<and> ms = []
         | Some l \<Rightarrow> list_all2 (moved_line l id) (stock_lines (order_item_list s (so_id before))) ms"
  have ok: "ledger_ok ?s" using assms(2) ledger_ok_cong [of ?s s] by simp
  have grows: "ledger_grows ?s s'" using rev by (rule reverse_confirm_grows)
  then have ok': "ledger_ok s'" and same: "same_but_ledger ?s s'" and js: "\<exists>js. db_journals s' = db_journals s @ js"
    and found: "ty \<noteq> JS_Manual \<Longrightarrow> set (?ks s' ty) = set (?ks ?s ty)" for ty
    using ok by (auto simp: ledger_grows_def)
  from rev obtain t where
    one: "for_each (reverse_if_live E book (cancel_narrative before) (take 10 now)) (?ks ?s JS_SalesCogs) ?s = Inr t"
    and two: "for_each (reverse_if_live E book (cancel_narrative before) (take 10 now)) (?ks t JS_SalesRevenue) t = Inr s'"
    by (auto simp: reverse_sales_confirm_journals_def attempt_eq_Inr)
  have okt: "ledger_ok t" using cancelling_leg.loop_keeps [OF one] ok by (simp add: ledger_grows_def)
  have own: "\<forall>k \<in> set (?ks u ty). \<exists>j \<in> set (db_journals u). jn_id j = k \<and> ?Q j"
    if "ty = JS_SalesCogs \<or> ty = JS_SalesRevenue" for u ty
    using that by (auto simp: set_find_journals_by_source of_order_def)
  have manual: "jn_source_type x \<noteq> JS_Manual" if "?Q x" for x using that by (auto simp: of_order_def)
  have net: "net_without ?Q s' a c = net_without ?Q s a c" for a c
    using reverse_loop_keeps_net_without [OF one ok own manual, of a c]
      reverse_loop_keeps_net_without [OF two okt own manual, of a c] live_sum_cong(2) [of ?s s ?Q a c]
    by simp
  have "is_net_reversed s' (jn_id j) = Inr True" if "j \<in> set (db_journals s')" "?Q j" for j
  proof -
    have k: "jn_id j \<in> set (?ks s' (jn_source_type j))" and ty: "jn_source_type j \<in> {JS_SalesCogs, JS_SalesRevenue}"
      using that by (auto simp: set_find_journals_by_source of_order_def)
    from ty have "jn_source_type j \<noteq> JS_Manual" by auto
    from reverse_confirm_legs [OF rev ok ty k [unfolded found [OF this]]] show ?thesis by blast
  qed
  then have "filter (\<lambda>j. ?Q j \<and> is_net_reversed s' (jn_id j) = Inr False) (db_journals s') = []"
    by (auto simp: filter_empty_conv)
  then have dead: "live_sum ?Q s' a c = 0" for a c unfolding live_sum_def by simp
  show thesis
    using same_but_ledger_tables(9) [OF same] same ms ok' net dead js
    by (intro that [of ms]) simp_all
qed

lemma sales_order_cancel_Inr:
  assumes "sales_order_cancel E i s = Inr (after, s')" and "orders_ok s"
  obtains before book s1 n e where "tab_find so_id i (db_orders s) = Some before"
    and "so_status before = SO_Draft \<or> so_status before = SO_Confirmed"
    and "tab_find bk_id (so_book_id before) (db_books s) = Some book"
    and "(if so_status before = SO_Confirmed
          then undo_confirm E book before (e_now E (db_draws s)) (s\<lparr>db_draws := Suc (db_draws s)\<rparr>)
          else Inr (s\<lparr>db_draws := Suc (db_draws s)\<rparr>)) = Inr s1"
    and "after = before\<lparr>so_status := SO_Cancelled, so_cancelled_at := Some (e_now E (db_draws s)),
           so_updated_at := e_now E (db_draws s)\<rparr>"
    and "db_orders s1 = db_orders s \<longrightarrow>
         s' = s1\<lparr>db_orders := tab_put so_id after (db_orders s), db_draws := n, db_audit := e\<rparr>"
  using assms(1) unfolding sales_order_cancel_def Let_def now_iso_eq prod.case
proof (elim attempt_InrE guard_then, goal_cases)
  case (1 before book s1 s2 s3)
  have before: "tab_find so_id i (db_orders s) = Some before" using 1(2) by (simp add: sales_order_get_Inr)
  have d: "distinct (map so_id (db_orders s))" using assms(2) by (rule orders_ok_distinct(1))
  have "\<exists>n e. s' = s1\<lparr>db_orders := tab_put so_id after (db_orders s), db_draws := n, db_audit := e\<rparr>"
    if same: "db_orders s1 = db_orders s"
  proof -
    have b: "tab_find so_id i (db_orders s1) = Some before" using before same by simp
    have d2: "distinct (map so_id (db_orders s1))" using d same by simp
    show ?thesis using store_order_row [OF 1(6,7) b d2] same 1(8) by simp
  qed
  then obtain n e where row: "db_orders s1 = db_orders s \<longrightarrow>
      s' = s1\<lparr>db_orders := tab_put so_id after (db_orders s), db_draws := n, db_audit := e\<rparr>"
    by blast
  have "so_status before = SO_Draft \<or> so_status before = SO_Confirmed" using 1(3) by blast
  from 1(1) [OF before this 1(4) [unfolded book_get_Inr] 1(5) _ row] 1(8) show ?case by simp
qed

lemma sales_order_cancel_effect:
  assumes "sales_order_cancel E i s = Inr (after, s')" and "orders_ok s" and "ledger_ok s"
  obtains before ms where "tab_find so_id i (db_orders s) = Some before"
    and "so_status before = SO_Draft \<or> so_status before = SO_Confirmed"
    and "after = before\<lparr>so_status := SO_Cancelled, so_cancelled_at := Some (e_now E (db_draws s)),
           so_updated_at := e_now E (db_draws s)\<rparr>"
    and "so_status before = SO_Draft \<longrightarrow> ms = [] \<and> db_journals s' = db_journals s \<and> db_lines s' = db_lines s"
    and "so_status before = SO_Confirmed \<longrightarrow> (case so_location_id before of
           None \<Rightarrow> stock_lines (order_item_list s i) = [] \<and> ms = []
         | Some l \<Rightarrow> list_all2 (moved_line l id) (stock_lines (order_item_list s i)) ms)"
    and "db_movements s' = db_movements s @ ms" and "db_orders s' = tab_put so_id after (db_orders s)"
    and "same_but_ledger (s\<lparr>db_movements := db_movements s @ ms, db_orders := tab_put so_id after (db_orders s)\<rparr>) s'"
    and "ledger_ok s'" and "orders_ok s'"
    and "\<And>a c. net_without (of_order (so_book_id before) i) s' a c = net_without (of_order (so_book_id before) i) s a c"
    and "\<And>a c. so_status before = SO_Confirmed \<Longrightarrow> live_sum (of_order (so_book_id before) i) s' a c = 0"
    and "\<exists>js. db_journals s' = db_journals s @ js"
  using assms(1,2)
proof (rule sales_order_cancel_Inr)
  fix before book s1 n e
  assume before: "tab_find so_id i (db_orders s) = Some before"
      "so_status before = SO_Draft \<or> so_status before = SO_Confirmed"
    and book: "tab_find bk_id (so_book_id before) (db_books s) = Some book"
    and undo: "(if so_status before = SO_Confirmed
          then undo_confirm E book before (e_now E (db_draws s)) (s\<lparr>db_draws := Suc (db_draws s)\<rparr>)
          else Inr (s\<lparr>db_draws := Suc (db_draws s)\<rparr>)) = Inr s1"
    and after: "after = before\<lparr>so_status := SO_Cancelled, so_cancelled_at := Some (e_now E (db_draws s)),
           so_updated_at := e_now E (db_draws s)\<rparr>"
    and s': "db_orders s1 = db_orders s \<longrightarrow>
         s' = s1\<lparr>db_orders := tab_put so_id after (db_orders s), db_draws := n, db_audit := e\<rparr>"
  let ?s0 = "s\<lparr>db_draws := Suc (db_draws s)\<rparr>"
  let ?Q = "of_order (so_book_id before) i"
  have ids: "bk_id book = so_book_id before" "so_id before = i"
    using tab_find_Some [OF book] tab_find_Some [OF before(1)] by simp_all
  have ok0: "ledger_ok ?s0" using assms(3) ledger_ok_cong [of ?s0 s] by simp
  have net0: "net_without ?Q ?s0 a c = net_without ?Q s a c" for a c by (rule live_sum_cong) simp_all
  have items: "order_item_list ?s0 i = order_item_list s i" by (simp add: order_item_list_def)
  obtain ms where same: "same_but_ledger (s\<lparr>db_movements := db_movements s @ ms\<rparr>) s1" and ok1: "ledger_ok s1"
    and net: "\<And>a c. net_without ?Q s1 a c = net_without ?Q s a c"
    and dead: "\<And>a c. so_status before = SO_Confirmed \<Longrightarrow> live_sum ?Q s1 a c = 0"
    and js: "\<exists>js. db_journals s1 = db_journals s @ js"
    and draft: "so_status before = SO_Draft \<longrightarrow> ms = [] \<and> db_journals s1 = db_journals s \<and> db_lines s1 = db_lines s"
    and returned: "so_status before = SO_Confirmed \<longrightarrow> (case so_location_id before of
           None \<Rightarrow> stock_lines (order_item_list s i) = [] \<and> ms = []
         | Some l \<Rightarrow> list_all2 (moved_line l id) (stock_lines (order_item_list s i)) ms)"
  proof (cases "so_status before = SO_Confirmed")
    case True
    with undo have "undo_confirm E book before (e_now E (db_draws s)) ?s0 = Inr s1" by simp
    from this ok0 show thesis
    proof (rule undo_confirm_effect)
      fix ms
      assume ms: "case so_location_id before of
             None \<Rightarrow> stock_lines (order_item_list ?s0 (so_id before)) = [] \<and> ms = []
           | Some l \<Rightarrow> list_all2 (moved_line l id) (stock_lines (order_item_list ?s0 (so_id before))) ms"
        and same: "same_but_ledger (?s0\<lparr>db_movements := db_movements ?s0 @ ms\<rparr>) s1" and ok: "ledger_ok s1"
        and net: "\<And>a c. net_without (of_order (bk_id book) (so_id before)) s1 a c
            = net_without (of_order (bk_id book) (so_id before)) ?s0 a c"
        and dead: "\<And>a c. live_sum (of_order (bk_id book) (so_id before)) s1 a c = 0"
        and js: "\<exists>js. db_journals s1 = db_journals ?s0 @ js"
      have "same_but_ledger (s\<lparr>db_movements := db_movements s @ ms\<rparr>) s1"
        using same by (cases s; cases s1) (simp add: same_but_ledger_def)
      then show thesis
        using ms [unfolded ids items] ok net dead js True net0 by (intro that [of ms]) (simp_all add: ids)
    qed
  next
    case False
    then have s1: "s1 = ?s0" using undo by simp
    show thesis
      by (rule that [of "[]"]) (use False ok0 net0 in \<open>auto simp: s1\<close>)
  qed
  have s'_eq: "s' = s1\<lparr>db_orders := tab_put so_id after (db_orders s), db_draws := n, db_audit := e\<rparr>"
    using s' same_but_ledger_tables(14) [OF same] by simp
  have cong: "live_sum ?Q s' a c = live_sum ?Q s1 a c" "net_without ?Q s' a c = net_without ?Q s1 a c" for a c
    by (intro live_sum_cong; simp add: s'_eq)+
  have same': "same_but_ledger (s\<lparr>db_movements := db_movements s @ ms, db_orders := tab_put so_id after (db_orders s)\<rparr>) s'"
    using same unfolding s'_eq by (cases s; cases s1) (simp add: same_but_ledger_def)
  have "order_ok (db_order_items s) before"
    using assms(2) before(1) by (rule orders_ok_row)
  then have "order_ok (db_order_items s) after"
    using before(2) by (auto simp: order_ok_def stamps_ok_def settled_def after)
  then have "orders_ok s'"
    using same_but_ledger_tables(15) [OF same'] by (intro orders_ok_put [OF assms(2)]) (simp_all add: s'_eq)
  moreover have "ledger_ok s'" using ok1 ledger_ok_cong [of s' s1] by (simp add: s'_eq)
  ultimately show thesis
    using same_but_ledger_tables(9) [OF same'] net dead js draft returned
    by (intro that [OF before after _ returned _ _ same']) (simp_all add: s'_eq cong [unfolded s'_eq])
qed

lemma sales_order_mark_paid_effect:
  assumes "sales_order_mark_paid E i s = Inr (after, s')" and "orders_ok s"
  obtains before n e where "tab_find so_id i (db_orders s) = Some before" and "so_status before = SO_Confirmed"
    and "after = before\<lparr>so_status := SO_Paid, so_paid_at := Some (e_now E (db_draws s)),
           so_updated_at := e_now E (db_draws s)\<rparr>"
    and "s' = s\<lparr>db_orders := tab_put so_id after (db_orders s), db_draws := n, db_audit := e\<rparr>"
    and "orders_ok s'"
  using assms(1) unfolding sales_order_mark_paid_def Let_def now_iso_eq prod.case
proof (elim attempt_InrE guard_then, goal_cases)
  case (1 before s2 s3)
  have before: "tab_find so_id i (db_orders s) = Some before" using 1(2) by (simp add: sales_order_get_Inr)
  have b: "tab_find so_id i (db_orders (s\<lparr>db_draws := Suc (db_draws s)\<rparr>)) = Some before" using before by simp
  have d: "distinct (map so_id (db_orders (s\<lparr>db_draws := Suc (db_draws s)\<rparr>)))"
    using assms(2) by (simp add: orders_ok_distinct)
  have confirmed: "so_status before = SO_Confirmed" using 1(3) by blast
  have after: "after = before\<lparr>so_status := SO_Paid, so_paid_at := Some (e_now E (db_draws s)),
      so_updated_at := e_now E (db_draws s)\<rparr>" using 1(6) by simp
  obtain n e where s': "s' = s\<lparr>db_orders := tab_put so_id after (db_orders s), db_draws := n, db_audit := e\<rparr>"
    using store_order_row [OF 1(4,5) b d] 1(6) by auto
  have "order_ok (db_order_items s) before"
    using assms(2) before by (rule orders_ok_row)
  then have "order_ok (db_order_items s) after"
    using confirmed by (auto simp: order_ok_def stamps_ok_def settled_def after)
  then have "orders_ok s'" by (intro orders_ok_put [OF assms(2)]) (simp_all add: s')
  from 1(1) [OF before confirmed after s' this] show ?case .
qed

section \<open>Correctness of the life of an order\<close>

lemma no_live_sum:
  assumes "\<forall>ty \<in> {JS_SalesCogs, JS_SalesRevenue}. \<forall>k \<in> set (find_journals_by_source s b ty i). is_net_reversed s k = Inr True"
  shows "live_sum (of_order b i) s a c = 0"
proof -
  have "is_net_reversed s (jn_id j) = Inr True" if "j \<in> set (db_journals s)" "of_order b i j" for j
    using assms that by (auto simp: set_find_journals_by_source of_order_def)
  then have "filter (\<lambda>j. of_order b i j \<and> is_net_reversed s (jn_id j) = Inr False) (db_journals s) = []"
    by (auto simp: filter_empty_conv)
  then show ?thesis unfolding live_sum_def by simp
qed

lemma order_lines_positive:
  assumes "orders_ok s" and "x \<in> set (order_item_list s i)"
  shows "0 < soi_quantity x"
  using assms order_doc.okD(4) [of "db_orders s" "db_order_items s" x]
  by (auto simp: orders_ok_def order_line_ok_def line_row_ok_def set_order_item_list)

lemma shipped_by_confirm:
  assumes "case so_location_id r of None \<Rightarrow> ms = []
      | Some l \<Rightarrow> list_all2 (moved_line l negate) (stock_lines items) ms"
    and "\<forall>x \<in> set items. 0 < soi_quantity x \<and> in_i64 (soi_quantity x)"
  shows "quantity_at ms v l = - shipped r items v l"
  using assms lines_quantity sum_negate [OF assms(2)]
  by (auto simp: shipped_def ordered_of_def split: option.splits)

lemma shipped_by_cancel:
  assumes "case so_location_id r of None \<Rightarrow> stock_lines items = [] \<and> ms = []
      | Some l \<Rightarrow> list_all2 (moved_line l id) (stock_lines items) ms"
  shows "quantity_at ms v l = shipped r items v l"
  using assms lines_quantity by (auto simp: shipped_def ordered_of_def split: option.splits)

text \<open>
  \<^bold>\<open>C24.\<close> A confirmation takes from stock exactly what the order's lines say, at the order's
  location and nowhere else, posts at most the cost and the revenue journal of the order and
  nothing else, marks the order confirmed, keeps the ledger balanced, and cannot be repeated:
  only a draft with lines is confirmed.
\<close>

theorem confirm_ships_and_posts:
  assumes "orders_ok s" and "ledger_ok s" and "sales_order_confirm E i s = Inr (after, s')"
    and "\<forall>x \<in> set (order_item_list s i). in_i64 (soi_quantity x)"
  shows "\<exists>before js. sales_order_get s i = Inr before \<and> so_status before = SO_Draft \<and> order_item_list s i \<noteq> []
    \<and> sales_order_get s' i = Inr after \<and> so_status after = SO_Confirmed
    \<and> quantity_at (db_movements s') v l
        = quantity_at (db_movements s) v l - shipped before (order_item_list s i) v l
    \<and> db_journals s' = db_journals s @ js \<and> length js \<le> 2 \<and> list_all (of_order (so_book_id before) i) js
    \<and> ledger_ok s' \<and> orders_ok s'
    \<and> (\<forall>E'. sales_order_confirm E' i s' = Inl (InvalidStatusTransition ''confirmed'' ''confirmed''))"
  using assms(3,1,2)
proof (rule sales_order_confirm_effect)
  fix before ms js
  assume before: "tab_find so_id i (db_orders s) = Some before" and draft: "so_status before = SO_Draft"
    and items: "order_item_list s i \<noteq> []"
    and after: "after = before\<lparr>so_status := SO_Confirmed, so_confirmed_at := Some (e_now E (db_draws s)),
           so_updated_at := e_now E (db_draws s)\<rparr>"
    and ms: "case so_location_id before of None \<Rightarrow> ms = []
         | Some l \<Rightarrow> list_all2 (moved_line l negate) (stock_lines (order_item_list s i)) ms"
    and eff: "db_movements s' = db_movements s @ ms" "db_orders s' = tab_put so_id after (db_orders s)"
      "ledger_ok s'" "orders_ok s'" "db_journals s' = db_journals s @ js" "length js \<le> 2"
      "list_all (of_order (so_book_id before) i) js"
  have "i \<in> so_id ` set (db_orders s)" using tab_find_Some [OF before] by auto
  then have found: "sales_order_get s' i = Inr after"
    using tab_find_Some [OF before] by (simp add: sales_order_get_Inr eff(2) tab_find_put after)
  then have "sales_order_confirm E' i s' = Inl (InvalidStatusTransition ''confirmed'' ''confirmed'')" for E'
    by (simp add: sales_order_confirm_def after)
  moreover have "quantity_at ms v l = - shipped before (order_item_list s i) v l"
    using assms(4) order_lines_positive [OF assms(1)] by (intro shipped_by_confirm [OF ms]) blast
  ultimately show ?thesis
    using before draft items found eff by (auto simp: sales_order_get_Inr after)
qed

text \<open>
  \<^bold>\<open>C25.\<close> Cancelling undoes confirming: after a draft is confirmed and then cancelled, every variant
  has the quantity it had at every location, every account has the balance it had in every
  currency, none of the order's journals is live, and the history is kept: movements and
  journals were only added.
\<close>

theorem cancel_undoes_confirm:
  assumes "orders_ok s" and "ledger_ok s" and "sales_order_confirm E i s = Inr (r1, s1)"
    and "sales_order_cancel E' i s1 = Inr (r2, s2)"
    and "\<forall>x \<in> set (order_item_list s i). in_i64 (soi_quantity x)"
    and "\<forall>ty \<in> {JS_SalesCogs, JS_SalesRevenue}.
           \<forall>k \<in> set (find_journals_by_source s (so_book_id r1) ty i). is_net_reversed s k = Inr True"
  shows "quantity_at (db_movements s2) v l = quantity_at (db_movements s) v l
    \<and> account_net s2 a c = account_net s a c \<and> so_status r2 = SO_Cancelled
    \<and> (\<exists>ms. db_movements s2 = db_movements s @ ms) \<and> (\<exists>js. db_journals s2 = db_journals s @ js)
    \<and> ledger_ok s2 \<and> orders_ok s2"
  using assms(3,1,2)
proof (rule sales_order_confirm_effect)
  fix before ms js
  assume before: "tab_find so_id i (db_orders s) = Some before"
    and r1: "r1 = before\<lparr>so_status := SO_Confirmed, so_confirmed_at := Some (e_now E (db_draws s)),
           so_updated_at := e_now E (db_draws s)\<rparr>"
    and ms: "case so_location_id before of None \<Rightarrow> ms = []
         | Some l \<Rightarrow> list_all2 (moved_line l negate) (stock_lines (order_item_list s i)) ms"
    and eff: "db_movements s1 = db_movements s @ ms" "db_orders s1 = tab_put so_id r1 (db_orders s)"
      "ledger_ok s1" "orders_ok s1" "db_journals s1 = db_journals s @ js"
    and same: "same_but_ledger (s\<lparr>db_movements := db_movements s @ ms, db_orders := tab_put so_id r1 (db_orders s)\<rparr>) s1"
    and net1: "\<And>a c. net_without (of_order (so_book_id before) i) s1 a c
            = net_without (of_order (so_book_id before) i) s a c"
  have items: "order_item_list s1 i = order_item_list s i"
    using same_but_ledger_tables(15) [OF same] by (simp add: order_item_list_def)
  have "i \<in> so_id ` set (db_orders s)" using tab_find_Some [OF before] by auto
  then have found: "tab_find so_id i (db_orders s1) = Some r1"
    using tab_find_Some [OF before] by (simp add: eff(2) tab_find_put r1)
  have dead: "live_sum (of_order (so_book_id before) i) s a c = 0"
    using no_live_sum [OF assms(6)] by (simp add: r1)
  have out: "quantity_at ms v l = - shipped before (order_item_list s i) v l"
    using assms(5) order_lines_positive [OF assms(1)] by (intro shipped_by_confirm [OF ms]) blast
  show ?thesis
    using assms(4) eff(4,3)
  proof (rule sales_order_cancel_effect)
    fix before' ms'
    assume b: "tab_find so_id i (db_orders s1) = Some before'"
      and r2: "r2 = before'\<lparr>so_status := SO_Cancelled, so_cancelled_at := Some (e_now E' (db_draws s1)),
           so_updated_at := e_now E' (db_draws s1)\<rparr>"
      and ms': "so_status before' = SO_Confirmed \<longrightarrow> (case so_location_id before' of
           None \<Rightarrow> stock_lines (order_item_list s1 i) = [] \<and> ms' = []
         | Some l \<Rightarrow> list_all2 (moved_line l id) (stock_lines (order_item_list s1 i)) ms')"
      and eff2: "db_movements s2 = db_movements s1 @ ms'" "ledger_ok s2" "orders_ok s2"
        "\<exists>js. db_journals s2 = db_journals s1 @ js"
      and net2: "\<And>a c. net_without (of_order (so_book_id before') i) s2 a c
            = net_without (of_order (so_book_id before') i) s1 a c"
      and dead2: "\<And>a c. so_status before' = SO_Confirmed \<Longrightarrow> live_sum (of_order (so_book_id before') i) s2 a c = 0"
    have b': "before' = r1" using b found by simp
    have "quantity_at ms' v l = shipped r1 (order_item_list s i) v l"
      using ms' [unfolded items] by (intro shipped_by_cancel) (simp add: b' r1)
    then have "quantity_at ms' v l = shipped before (order_item_list s i) v l" by (simp add: shipped_def r1)
    moreover have "account_net s2 a c = account_net s a c"
      using net1 [of a c] net2 [of a c] dead dead2 [of a c] by (simp add: net_without_def b' r1)
    ultimately show ?thesis using out eff(1,5) eff2 by (auto simp: r2)
  qed
qed

section \<open>The steps of the component\<close>

inductive order_step :: "env \<Rightarrow> db \<Rightarrow> db \<Rightarrow> bool" for E where
  create: "sales_order_create E new s = Inr (r, s') \<Longrightarrow> order_step E s s'"
| update: "sales_order_update E i patch s = Inr (r, s') \<Longrightarrow> order_step E s s'"
| delete: "sales_order_delete E i s = Inr (u, s') \<Longrightarrow> order_step E s s'"
| item_add: "sales_order_item_add E new_item s = Inr (x, s') \<Longrightarrow> order_step E s s'"
| item_update: "sales_order_item_update E i item_patch s = Inr (x, s') \<Longrightarrow> order_step E s s'"
| item_remove: "sales_order_item_remove E i s = Inr (u, s') \<Longrightarrow> order_step E s s'"
| confirm: "sales_order_confirm E i s = Inr (r, s') \<Longrightarrow> order_step E s s'"
| cancel: "sales_order_cancel E i s = Inr (r, s') \<Longrightarrow> order_step E s s'"
| mark_paid: "sales_order_mark_paid E i s = Inr (r, s') \<Longrightarrow> order_step E s s'"

lemma order_step_keeps:
  assumes "order_step E s s'" and "orders_ok s" and "ledger_ok s"
  shows "orders_ok s' \<and> ledger_ok s'"
  using assms(1)
proof cases
  case (create new r)
  from create obtain s2 n0 n e where
    "allocate_number (so_book_id r) ''sales_order'' (s\<lparr>db_draws := n0\<rparr>) = Inr (so_number r, s2)"
    and s': "s' = s2\<lparr>db_orders := db_orders s2 @ [r], db_draws := n, db_audit := e\<rparr>"
    by (rule sales_order_create_Inr)
  from this(1) obtain seqs where "s2 = s\<lparr>db_draws := n0, db_sequences := seqs\<rparr>"
    by (rule allocate_number_Inr)
  then show ?thesis
    using sales_order_create_keeps [OF create assms(2)] assms(3) ledger_ok_cong [of s' s] by (simp add: s')
next
  case (update i patch r)
  from sales_order_update_keeps [OF this assms(2)] show ?thesis using assms(3) ledger_ok_cong [of s' s] by auto
next
  case (delete i u)
  from delete show ?thesis
    using sales_order_delete_keeps [OF delete assms(2)] assms(3) ledger_ok_cong [of s' s]
    by (auto elim: sales_order_delete_Inr)
next
  case (item_add new_item x)
  from item_add show ?thesis
    using sales_order_item_add_keeps [OF item_add assms(2)] assms(3) ledger_ok_cong [of s' s]
    by (auto elim: sales_order_item_add_Inr)
next
  case (item_update i item_patch x)
  have "distinct (map soi_id (db_order_items s))" using assms(2) by (rule orders_ok_distinct(2))
  from item_update this show ?thesis
    using sales_order_item_update_keeps [OF item_update assms(2)] assms(3) ledger_ok_cong [of s' s]
    by (auto elim: sales_order_item_update_Inr)
next
  case (item_remove i u)
  from item_remove show ?thesis
    using sales_order_item_remove_keeps [OF item_remove assms(2)] assms(3) ledger_ok_cong [of s' s]
    by (auto elim: sales_order_item_remove_Inr)
next
  case (confirm i r)
  from this assms(2,3) show ?thesis by (rule sales_order_confirm_effect) blast
next
  case (cancel i r)
  from this assms(2,3) show ?thesis by (rule sales_order_cancel_effect) blast
next
  case (mark_paid i r)
  from this assms(2) show ?thesis
    by (rule sales_order_mark_paid_effect) (use assms(3) ledger_ok_cong [of s' s] in auto)
qed

text \<open>
  How an order that left the draft state may still change: not at all, or, when it is confirmed,
  by being marked as paid or being cancelled, which sets its status, the date of that and the time
  of the last change, and no other field.
\<close>

definition order_advances :: "sales_order \<Rightarrow> sales_order \<Rightarrow> bool" where
  "order_advances a b \<longleftrightarrow> b = a
     \<or> so_status a = SO_Confirmed
       \<and> (\<exists>now. b = a\<lparr>so_status := SO_Paid, so_paid_at := Some now, so_updated_at := now\<rparr>
            \<or> b = a\<lparr>so_status := SO_Cancelled, so_cancelled_at := Some now, so_updated_at := now\<rparr>)"

lemma order_advances_trans: "order_advances a b \<Longrightarrow> order_advances b c \<Longrightarrow> order_advances a c"
  by (auto simp: order_advances_def)

definition order_frozen :: "string \<Rightarrow> sales_order \<Rightarrow> db \<Rightarrow> db \<Rightarrow> bool" where
  "order_frozen i r s s' \<longleftrightarrow> (\<exists>r'. tab_find so_id i (db_orders s') = Some r' \<and> order_advances r r')
     \<and> order_item_list s' i = order_item_list s i"

lemma order_frozen_put:
  assumes "tab_find so_id i (db_orders s) = Some r" and "tab_find so_id k (db_orders s) = Some before"
    and "so_id after = k" and "db_orders s' = tab_put so_id after (db_orders s)"
    and "db_order_items s' = db_order_items s" and "k = i \<Longrightarrow> order_advances r after"
  shows "order_frozen i r s s'"
proof -
  have "k \<in> so_id ` set (db_orders s)" using tab_find_Some [OF assms(2)] by auto
  then have "tab_find so_id i (db_orders s') = (if i = k then Some after else Some r)"
    using assms(1,3,4) by (simp add: tab_find_put)
  then show ?thesis
    using assms(5,6) by (auto simp: order_frozen_def order_item_list_def order_advances_def)
qed

lemma order_item_list_other:
  assumes "filter (\<lambda>x. soi_sales_order_id x = i) (db_order_items s') = filter (\<lambda>x. soi_sales_order_id x = i) (db_order_items s)"
  shows "order_item_list s' i = order_item_list s i"
  using assms by (simp add: order_item_list_def)

lemma order_frozen_items:
  assumes "tab_find so_id i (db_orders s) = Some r" and "db_orders s' = db_orders s"
    and "filter (\<lambda>x. soi_sales_order_id x = i) (db_order_items s') = filter (\<lambda>x. soi_sales_order_id x = i) (db_order_items s)"
  shows "order_frozen i r s s'"
  using assms order_item_list_other [OF assms(3)] by (auto simp: order_frozen_def order_advances_def)

lemma order_step_frozen:
  assumes "order_step E s s'" and "orders_ok s" and "ledger_ok s"
    and r: "tab_find so_id i (db_orders s) = Some r" and live: "so_status r \<noteq> SO_Draft"
  shows "order_frozen i r s s'"
  using assms(1)
proof cases
  case (create new x)
  from create obtain s2 n0 n e where
    "allocate_number (so_book_id x) ''sales_order'' (s\<lparr>db_draws := n0\<rparr>) = Inr (so_number x, s2)"
    and s': "s' = s2\<lparr>db_orders := db_orders s2 @ [x], db_draws := n, db_audit := e\<rparr>"
    by (rule sales_order_create_Inr)
  from this(1) obtain seqs where "s2 = s\<lparr>db_draws := n0, db_sequences := seqs\<rparr>"
    by (rule allocate_number_Inr)
  then show ?thesis using r by (simp add: s' order_frozen_def order_item_list_def order_advances_def)
next
  case (update k patch x)
  from sales_order_update_keeps(2) [OF this assms(2)] obtain before n e where
    before: "tab_find so_id k (db_orders s) = Some before" "so_status before = SO_Draft" "header_edit before x"
    and s': "s' = s\<lparr>db_orders := tab_put so_id x (db_orders s), db_draws := n, db_audit := e\<rparr>"
    by blast
  have "so_id x = k" using before(3) tab_find_Some [OF before(1)] by (simp add: header_edit_def same_order_def)
  moreover have "k \<noteq> i" using before(1,2) r live by auto
  ultimately show ?thesis by (intro order_frozen_put [OF r before(1)]) (simp_all add: s')
next
  case (delete k u)
  from delete show ?thesis
  proof (rule sales_order_delete_Inr)
    fix before n e qs
    assume before: "tab_find so_id k (db_orders s) = Some before" "so_status before = SO_Draft"
      and s': "s' = s\<lparr>db_orders := tab_del so_id k (db_orders s),
           db_order_items := filter (\<lambda>x. soi_sales_order_id x \<noteq> k) (db_order_items s), db_quotes := qs,
           db_draws := n, db_audit := e\<rparr>"
    have "k \<noteq> i" using before r live by auto
    then have "tab_find so_id i (db_orders s') = Some r"
      using r by (simp add: s' tab_find_del)
    moreover have "filter (\<lambda>x. soi_sales_order_id x = i) (db_order_items s')
        = filter (\<lambda>x. soi_sales_order_id x = i) (db_order_items s)"
      using \<open>k \<noteq> i\<close> unfolding s' by (auto simp: filter_filter intro: filter_cong)
    then have "order_item_list s' i = order_item_list s i" by (rule order_item_list_other)
    ultimately show ?thesis by (simp add: order_frozen_def order_advances_def)
  qed
next
  case (item_add new_item x)
  from item_add show ?thesis
  proof (rule sales_order_item_add_Inr)
    fix order n e
    assume order: "tab_find so_id (nsoi_sales_order_id new_item) (db_orders s) = Some order" "so_status order = SO_Draft"
      and s': "s' = s\<lparr>db_order_items := db_order_items s @ [x], db_draws := n, db_audit := e\<rparr>"
      and x: "soi_sales_order_id x = so_id order"
    have "so_id order \<noteq> i" using order r live tab_find_Some [OF order(1)] by auto
    then show ?thesis using x by (intro order_frozen_items [OF r]) (simp_all add: s')
  qed
next
  case (item_update k item_patch x)
  have d: "distinct (map soi_id (db_order_items s))" using assms(2) by (rule orders_ok_distinct(2))
  from item_update d show ?thesis
  proof (rule sales_order_item_update_Inr)
    fix before order n e
    assume before: "tab_find soi_id k (db_order_items s) = Some before"
      and order: "tab_find so_id (soi_sales_order_id before) (db_orders s) = Some order" "so_status order = SO_Draft"
      and same: "same_line before x"
      and s': "s' = s\<lparr>db_order_items := tab_put soi_id x (db_order_items s), db_draws := n, db_audit := e\<rparr>"
    have k: "soi_sales_order_id before \<noteq> i" using order r live by auto
    have "filter (\<lambda>x. soi_sales_order_id x = i) (tab_put soi_id x (db_order_items s))
        = filter (\<lambda>x. soi_sales_order_id x = i) (db_order_items s)"
      using same tab_find_Some [OF before]
      by (intro order_doc.other_lines(2) [OF assms(2) [unfolded orders_ok_def] before k [symmetric]])
        (simp_all add: same_line_def)
    then show ?thesis by (intro order_frozen_items [OF r]) (simp_all add: s')
  qed
next
  case (item_remove k u)
  from item_remove show ?thesis
  proof (rule sales_order_item_remove_Inr)
    fix before order n e
    assume before: "tab_find soi_id k (db_order_items s) = Some before"
      and order: "tab_find so_id (soi_sales_order_id before) (db_orders s) = Some order" "so_status order = SO_Draft"
      and s': "s' = s\<lparr>db_order_items := tab_del soi_id k (db_order_items s), db_draws := n, db_audit := e\<rparr>"
    have k: "soi_sales_order_id before \<noteq> i" using order r live by auto
    have "filter (\<lambda>x. soi_sales_order_id x = i) (tab_del soi_id k (db_order_items s))
        = filter (\<lambda>x. soi_sales_order_id x = i) (db_order_items s)"
      by (rule order_doc.other_lines(1) [OF assms(2) [unfolded orders_ok_def] before k [symmetric]])
    then show ?thesis by (intro order_frozen_items [OF r]) (simp_all add: s')
  qed
next
  case (confirm k x)
  from this assms(2,3) show ?thesis
  proof (rule sales_order_confirm_effect)
    fix before ms
    assume before: "tab_find so_id k (db_orders s) = Some before" "so_status before = SO_Draft"
      and x: "x = before\<lparr>so_status := SO_Confirmed, so_confirmed_at := Some (e_now E (db_draws s)),
           so_updated_at := e_now E (db_draws s)\<rparr>"
      and put: "db_orders s' = tab_put so_id x (db_orders s)"
      and same: "same_but_ledger (s\<lparr>db_movements := db_movements s @ ms, db_orders := tab_put so_id x (db_orders s)\<rparr>) s'"
    have "so_id x = k" using tab_find_Some [OF before(1)] by (simp add: x)
    moreover have "k \<noteq> i" using before r live by auto
    ultimately show ?thesis
      using same_but_ledger_tables(15) [OF same] by (intro order_frozen_put [OF r before(1) _ put]) simp_all
  qed
next
  case (cancel k x)
  from this assms(2,3) show ?thesis
  proof (rule sales_order_cancel_effect)
    fix before ms
    assume before: "tab_find so_id k (db_orders s) = Some before"
        "so_status before = SO_Draft \<or> so_status before = SO_Confirmed"
      and x: "x = before\<lparr>so_status := SO_Cancelled, so_cancelled_at := Some (e_now E (db_draws s)),
           so_updated_at := e_now E (db_draws s)\<rparr>"
      and put: "db_orders s' = tab_put so_id x (db_orders s)"
      and same: "same_but_ledger (s\<lparr>db_movements := db_movements s @ ms, db_orders := tab_put so_id x (db_orders s)\<rparr>) s'"
    have "so_id x = k" using tab_find_Some [OF before(1)] by (simp add: x)
    moreover have "order_advances r x" if "k = i" using before r live that by (auto simp: order_advances_def x)
    ultimately show ?thesis
      using same_but_ledger_tables(15) [OF same] by (intro order_frozen_put [OF r before(1) _ put]) simp_all
  qed
next
  case (mark_paid k x)
  from this assms(2) show ?thesis
  proof (rule sales_order_mark_paid_effect)
    fix before n e
    assume before: "tab_find so_id k (db_orders s) = Some before" "so_status before = SO_Confirmed"
      and x: "x = before\<lparr>so_status := SO_Paid, so_paid_at := Some (e_now E (db_draws s)),
           so_updated_at := e_now E (db_draws s)\<rparr>"
      and s': "s' = s\<lparr>db_orders := tab_put so_id x (db_orders s), db_draws := n, db_audit := e\<rparr>"
    have "so_id x = k" using tab_find_Some [OF before(1)] by (simp add: x)
    moreover have "order_advances r x" if "k = i" using before r that by (auto simp: order_advances_def x)
    ultimately show ?thesis by (intro order_frozen_put [OF r before(1)]) (simp_all add: s')
  qed
qed

text \<open>
  \<^bold>\<open>C26.\<close> An order that left the draft state is a record: however many operations on orders follow,
  it is never deleted, its lines and totals stay what they were, and its header does not change
  either, in any field, but for one step: a confirmed order may once be marked as paid or be
  cancelled, which sets its status, the time of that and the time of its last change.
\<close>

theorem confirmed_orders_are_frozen:
  assumes "(order_step E)\<^sup>*\<^sup>* s s'" and "orders_ok s" and "ledger_ok s"
    and "sales_order_get s i = Inr r" and "so_status r \<noteq> SO_Draft"
  shows "orders_ok s' \<and> ledger_ok s'
    \<and> (\<exists>r'. sales_order_get s' i = Inr r' \<and> order_advances r r' \<and> so_status r' \<noteq> SO_Draft)
    \<and> sales_order_items_list s' i = sales_order_items_list s i
    \<and> sales_order_totals_of s' i = sales_order_totals_of s i"
  using assms(1)
proof (induction rule: rtranclp_induct)
  case base
  then show ?case using assms(2-5) by (auto simp: order_advances_def)
next
  case (step t u)
  then obtain r' where r': "tab_find so_id i (db_orders t) = Some r'" "order_advances r r'" "so_status r' \<noteq> SO_Draft"
    and ok: "orders_ok t" "ledger_ok t" and items: "order_item_list t i = order_item_list s i"
    by (auto simp: sales_order_get_Inr sales_order_items_list_def)
  from order_step_frozen [OF step(2) ok r'(1,3)] obtain r'' where
    r'': "tab_find so_id i (db_orders u) = Some r''" "order_advances r' r''" "order_item_list u i = order_item_list t i"
    by (auto simp: order_frozen_def)
  have "so_status r'' \<noteq> SO_Draft" using r''(2) r'(3) by (auto simp: order_advances_def)
  moreover have "sales_order_totals_of u i = sales_order_totals_of s i"
    using r''(1,3) items assms(4)
    by (simp add: sales_order_totals_of_def order_totals_def sales_order_get_def order_get_def ok_or_eq_Inr)
  ultimately show ?case
    using order_step_keeps [OF step(2) ok] r'' order_advances_trans [OF r'(2) r''(2)] items
    by (auto simp: sales_order_get_Inr sales_order_items_list_def)
qed

text \<open>A draft of three units of one variant at one location, and an hour of labour.\<close>

definition sample_draft :: sales_order where
  "sample_draft = sample_order\<lparr>so_status := SO_Draft\<rparr>"

definition sample_order_line :: "string \<Rightarrow> string option \<Rightarrow> int \<Rightarrow> int \<Rightarrow> int \<Rightarrow> sales_order_item" where
  "sample_order_line i v q p n = \<lparr>soi_id = i, soi_sales_order_id = ''o'', soi_book_id = ''b'', soi_variant_id = v,
     soi_description = i, soi_quantity = q, soi_unit_price_minor = p, soi_tax_rate_bps = 1500,
     soi_line_order = n, soi_created_at = ''2026'', soi_updated_at = ''2026''\<rparr>"

definition sample_shop :: db where
  "sample_shop = sample_db\<lparr>db_variants := [sample_variant ''v3'' 1], db_orders := [sample_draft],
     db_order_items := [sample_order_line ''x1'' (Some ''v3'') 3 1000 0, sample_order_line ''x2'' None 1 500 1]\<rparr>"

lemma sample_shop_ok: "orders_ok sample_shop" "ledger_ok sample_shop"
proof -
  show "orders_ok sample_shop" by code_simp
  show "ledger_ok sample_shop"
    using ledger_ok_sample_db ledger_ok_cong [of sample_shop sample_db] by (simp add: sample_shop_def)
qed

definition sample_confirmed :: "(sales_order \<times> db) res" where
  "sample_confirmed = sales_order_confirm sample_env ''o'' sample_shop"

lemma sample_confirmed_ran: "sample_confirmed = Inr (out_of sample_confirmed, db_of sample_confirmed)"
  by (rule run_witness) code_simp

lemma sample_shop_facts:
  "order_item_list sample_shop ''o'' = [sample_order_line ''x1'' (Some ''v3'') 3 1000 0, sample_order_line ''x2'' None 1 500 1]"
  "sales_order_get sample_shop ''o'' = Inr sample_draft" "so_location_id sample_draft = Some ''l1''"
  "db_movements sample_shop = []"
  by code_simp+

lemma confirm_ships_and_posts_witness:
  "quantity_at (db_movements (db_of sample_confirmed)) ''v3'' ''l1'' = -3
    \<and> so_status (out_of sample_confirmed) = SO_Confirmed"
proof -
  have "\<forall>x \<in> set (order_item_list sample_shop ''o''). in_i64 (soi_quantity x)"
    unfolding sample_shop_facts by code_simp
  from confirm_ships_and_posts [OF sample_shop_ok sample_confirmed_ran [unfolded sample_confirmed_def] this,
      of "''v3''" "''l1''", folded sample_confirmed_def]
  show ?thesis
    by (auto simp: sample_shop_facts shipped_def ordered_of_def sample_order_line_def)
qed

definition sample_called_off :: "(sales_order \<times> db) res" where
  "sample_called_off = sales_order_cancel sample_env ''o'' (db_of sample_confirmed)"

lemma sample_called_off_ran: "sample_called_off = Inr (out_of sample_called_off, db_of sample_called_off)"
  by (rule run_witness) code_simp

lemma cancel_undoes_confirm_witness:
  "quantity_at (db_movements (db_of sample_called_off)) ''v3'' ''l1'' = 0
    \<and> account_net (db_of sample_called_off) ''c1100'' ''ZAR'' = 0"
proof -
  have "\<forall>x \<in> set (order_item_list sample_shop ''o''). in_i64 (soi_quantity x)"
    unfolding sample_shop_facts by code_simp
  moreover have "\<forall>ty \<in> {JS_SalesCogs, JS_SalesRevenue}. \<forall>k \<in> set (find_journals_by_source sample_shop
      (so_book_id (out_of sample_confirmed)) ty ''o''). is_net_reversed sample_shop k = Inr True"
    by (simp add: set_find_journals_by_source sample_shop_def sample_db_def empty_db_def)
  moreover have "account_net sample_shop ''c1100'' ''ZAR'' = 0"
    by (simp add: account_net_def net_in_def sample_shop_def sample_db_def empty_db_def)
  ultimately show ?thesis
    using cancel_undoes_confirm [OF sample_shop_ok sample_confirmed_ran [unfolded sample_confirmed_def]
        sample_called_off_ran [unfolded sample_called_off_def sample_confirmed_def], of "''v3''" "''l1''" "''c1100''" "''ZAR''"]
    by (simp add: sample_shop_facts sample_called_off_def sample_confirmed_def)
qed

text \<open>A confirmed order, and its payment.\<close>

definition sample_confirmed_order :: sales_order where
  "sample_confirmed_order = sample_order\<lparr>so_confirmed_at := Some ''2026''\<rparr>"

definition sample_shop_confirmed :: db where
  "sample_shop_confirmed = sample_shop\<lparr>db_orders := [sample_confirmed_order]\<rparr>"

definition sample_paid :: "(sales_order \<times> db) res" where
  "sample_paid = sales_order_mark_paid sample_env ''o'' sample_shop_confirmed"

lemma confirmed_orders_are_frozen_witness:
  "(order_step sample_env)\<^sup>*\<^sup>* sample_shop_confirmed (db_of sample_paid)
    \<and> (\<exists>r'. sales_order_get (db_of sample_paid) ''o'' = Inr r' \<and> order_advances sample_confirmed_order r')"
proof -
  have "ran sample_paid \<noteq> None" by code_simp
  from order_step.mark_paid [OF run_witness [OF this, unfolded sample_paid_def]]
  have steps: "(order_step sample_env)\<^sup>*\<^sup>* sample_shop_confirmed (db_of sample_paid)"
    by (simp add: sample_paid_def)
  have ok: "orders_ok sample_shop_confirmed" by code_simp
  have ledger: "ledger_ok sample_shop_confirmed"
    using sample_shop_ok(2) ledger_ok_cong [of sample_shop_confirmed sample_shop] by (simp add: sample_shop_confirmed_def)
  have get: "sales_order_get sample_shop_confirmed ''o'' = Inr sample_confirmed_order"
    "so_status sample_confirmed_order \<noteq> SO_Draft"
    by code_simp+
  from confirmed_orders_are_frozen [OF steps ok ledger get] steps show ?thesis by blast
qed

end
