(* ===== verification/Order_Errors.thy ===== *)
theory Order_Errors
  imports Order_Lifecycle
begin

text \<open>
  The \<^verbatim>\<open>expect\<close>s and the loops on the way of an order: a result is \<open>proper\<close> when it is a value or one
  of the errors the code returns, neither a panic nor a loop that runs for ever. The rules follow
  the structure of the code, so each operation is proper by the rules of what it calls.
\<close>

named_theorems proper_rules \<open>introduction rules for results that are neither a panic nor divergence\<close>

definition proper :: "'a res \<Rightarrow> bool" where
  "proper r \<longleftrightarrow> (case r of Inr a \<Rightarrow> True | Inl e \<Rightarrow> (case e of Panic m \<Rightarrow> False | Unreturned \<Rightarrow> False | _ \<Rightarrow> True))"

lemma proper_Inr [proper_rules]: "proper (Inr a)"
  by (simp add: proper_def)

lemma proper_Inl [proper_rules]:
  "proper (Inl (Sqlite m))" "proper (Inl (NotFound k i))" "proper (Inl (Validation m))"
  "proper (Inl (UnbalancedJournal x y))" "proper (Inl (DuplicateJournal k i))"
  "proper (Inl (InvalidStatusTransition k i))"
  by (simp_all add: proper_def)

lemma proper_attempt [proper_rules]:
  "proper r \<Longrightarrow> (\<And>a. r = Inr a \<Longrightarrow> proper (f a)) \<Longrightarrow> proper (attempt r f)"
  by (cases r) (auto simp: proper_def split: core_error.splits)

lemma proper_if [proper_rules]: "(c \<Longrightarrow> proper x) \<Longrightarrow> (\<not> c \<Longrightarrow> proper y) \<Longrightarrow> proper (if c then x else y)"
  by simp

lemma proper_option [proper_rules]:
  "(v = None \<Longrightarrow> proper x) \<Longrightarrow> (\<And>a. v = Some a \<Longrightarrow> proper (f a)) \<Longrightarrow>
     proper (case v of None \<Rightarrow> x | Some a \<Rightarrow> f a)"
  by (cases v) simp_all

lemma proper_prod [proper_rules]: "(\<And>x y. p = (x, y) \<Longrightarrow> proper (f x y)) \<Longrightarrow> proper (case p of (x, y) \<Rightarrow> f x y)"
  by (cases p) simp

lemma proper_constrain [proper_rules]: "proper r \<Longrightarrow> proper (constrain c u f r)"
  by (simp add: constrain_def proper_def)

lemma proper_ok_or [proper_rules]: "proper (Inl e :: 'a res) \<Longrightarrow> proper (ok_or v e :: 'a res)"
  by (cases v) (simp_all add: proper_def)

lemma proper_for_each:
  assumes "I s" and "\<And>x s. x \<in> set xs \<Longrightarrow> I s \<Longrightarrow> proper (body x s)"
    and "\<And>x s s'. x \<in> set xs \<Longrightarrow> I s \<Longrightarrow> body x s = Inr s' \<Longrightarrow> I s'"
  shows "proper (for_each body xs s)"
  using assms
proof (induction xs arbitrary: s)
  case Nil
  then show ?case by (simp add: proper_Inr)
next
  case (Cons x xs)
  show ?case
    unfolding for_each.simps
  proof (rule proper_attempt)
    show "proper (body x s)" using Cons.prems by simp
    fix t
    assume "body x s = Inr t"
    then have "I t" using Cons.prems(1,3) by (meson list.set_intros(1))
    then show "proper (for_each body xs t)"
    proof (rule Cons.IH)
      show "\<And>y u. y \<in> set xs \<Longrightarrow> I u \<Longrightarrow> proper (body y u)" using Cons.prems(2) by simp
      show "\<And>y u u'. y \<in> set xs \<Longrightarrow> I u \<Longrightarrow> body y u = Inr u' \<Longrightarrow> I u'"
        using Cons.prems(3) by (meson list.set_intros(2))
    qed
  qed
qed

section \<open>Dates, currencies, accounts, movements\<close>

lemma proper_parse_date [proper_rules]: "proper (parse_date T d)"
  unfolding parse_date_def by (intro proper_rules)

lemma proper_normalize_currency [proper_rules]: "proper (normalize_currency_code c)"
  unfolding normalize_currency_code_def Let_def by (intro proper_rules)

lemma proper_emit_audit [proper_rules]: "proper (emit_audit E b t i a x y s)"
  unfolding emit_audit_def audit_insert_def Let_def by (intro proper_rules)

lemma proper_lookups [proper_rules]:
  "proper (book_get s i)" "proper (sales_order_get s i)" "proper (product_variant_get s i)" "proper (journal_get s i)"
  unfolding book_get_def sales_order_get_def product_variant_get_def journal_get_def by (intro proper_rules)+

lemma proper_order_update [proper_rules]: "proper (order_update r s)"
  unfolding order_update_def by (intro proper_rules)

lemma proper_insert_movement [proper_rules]: "proper (insert_movement_in_tx E b v l q k rk ri n w s)"
  unfolding insert_movement_in_tx_def stock_insert_def Let_def by (intro proper_rules)

section \<open>The ledger\<close>

lemma proper_is_net_reversed: "ledger_ok s \<Longrightarrow> proper (is_net_reversed s k)"
  using is_net_reversed_returns [of s k] by (auto simp: ledger_ok_def proper_Inr)

lemma proper_refuse_live_source: "ledger_ok s \<Longrightarrow> proper (refuse_live_source s ty ks)"
  by (induction ks) (auto intro!: proper_rules proper_is_net_reversed)

lemma proper_normalize_lines [proper_rules]: "proper (normalize_lines ls)"
  by (induction ls) (auto intro!: proper_rules)

lemma proper_tally_lines [proper_rules]: "proper (tally_lines ls m)"
  by (induction ls arbitrary: m) (auto simp: Let_def intro!: proper_rules)

lemma proper_check_balanced [proper_rules]: "proper (check_balanced m)"
  by (induction m rule: check_balanced.induct) (auto simp: Let_def intro!: proper_rules)

lemma proper_check_accounts [proper_rules]: "proper (check_accounts s book ls)"
  by (induction ls) (auto intro!: proper_rules)

lemma proper_store_lines [proper_rules]: "proper (for_each (store_line E j now) ls st)"
  by (rule proper_for_each [where I = "\<lambda>_. True"])
    (auto simp: store_line_def insert_line_def Let_def intro!: proper_rules)

lemma proper_insert_journal [proper_rules]: "proper (insert_journal j s)"
  unfolding insert_journal_def Let_def by (intro proper_rules)

lemma proper_post_journal [proper_rules]: "ledger_ok s \<Longrightarrow> proper (post_journal_in_tx E book new ro s)"
  unfolding post_journal_in_tx_def Let_def by (intro proper_rules proper_refuse_live_source)

lemma proper_reverse_journal [proper_rules]: "ledger_ok s \<Longrightarrow> proper (reverse_journal_in_tx E book k d n s)"
  unfolding reverse_journal_in_tx_def Let_def by (intro proper_rules)

lemma proper_reverse_if_live [proper_rules]: "ledger_ok s \<Longrightarrow> proper (reverse_if_live E book why d k s)"
  unfolding reverse_if_live_def by (intro proper_rules proper_is_net_reversed)

lemma proper_reverse_confirm [proper_rules]:
  assumes "ledger_ok s"
  shows "proper (reverse_sales_confirm_journals E book r d s)"
proof -
  have leg: "proper (for_each (reverse_if_live E book (cancel_narrative r) d) ks t)" if "ledger_ok t" for ks t
    by (rule proper_for_each [where I = ledger_ok])
      (use that reverse_if_live_grows in \<open>auto intro: proper_reverse_if_live simp: ledger_grows_def\<close>)
  have kept: "ledger_ok u"
    if "for_each (reverse_if_live E book (cancel_narrative r) d) ks t = Inr u" "ledger_ok t" for ks t u
    using cancelling_leg.loop_keeps [OF that(1)] that(2) by (simp add: ledger_grows_def)
  show ?thesis
    unfolding reverse_sales_confirm_journals_def
    by (rule proper_for_each [where I = ledger_ok]) (use assms leg kept in auto)
qed

section \<open>Cancelling\<close>

lemma proper_move_lines:
  "\<forall>x \<in> set items. soi_variant_id x \<noteq> None \<Longrightarrow> proper (for_each (move_line E r l delta why) items s)"
  by (rule proper_for_each [where I = "\<lambda>_. True"]) (auto simp: move_line_def intro!: proper_rules)

text \<open>
  \<^bold>\<open>C27.\<close> Cancelling an order never panics and always returns: the \<^verbatim>\<open>expect\<close> for the location of a
  confirmed order and the one for the variant of a stock line cannot fail, because a confirmed
  order with stock lines has a location; and the walks along the chains of reversals end. What
  comes back is the cancelled order or an error of the database or of the checks.
\<close>

theorem cancel_never_panics:
  assumes "orders_ok s" and "ledger_ok s"
  shows "proper (sales_order_cancel E i s)"
proof -
  have undo: "proper (undo_confirm E book r now t)"
    if r: "tab_find so_id i (db_orders s) = Some r" "so_status r = SO_Confirmed" and t: "t = s\<lparr>db_draws := n\<rparr>"
    for book r now t n
  proof -
    have ok: "ledger_ok t" using assms(2) ledger_ok_cong [of t s] by (simp add: t)
    have lines: "order_item_list t (so_id r) = order_item_list s (so_id r)" by (simp add: t order_item_list_def)
    have "order_ok (db_order_items s) r"
      using assms(1) r(1) by (rule orders_ok_row)
    then have loc: "stock_lines (order_item_list s (so_id r)) \<noteq> [] \<Longrightarrow> so_location_id r \<noteq> None"
      using r(2) variants_of_list(2) [of s "so_id r"] by (auto simp: order_ok_def settled_def)
    let ?moved = "if stock_lines (order_item_list s (so_id r)) = [] then Inr t
           else (case so_location_id r of
               None \<Rightarrow> Inl (Panic (''a confirmed order with stock lines always has a location ''
                 @ [CHR 0xE2, CHR 0x80, CHR 0x94] @ '' sales_order_confirm requires it''))
             | Some location_id \<Rightarrow>
                 for_each (move_line E r location_id id (''cancelled: reversing sales_order '' @ so_id r))
                   (stock_lines (order_item_list s (so_id r))) t)"
    have "proper ?moved"
      using loc by (auto intro!: proper_Inr proper_move_lines simp: stock_lines_def)
    moreover have "ledger_ok u" if "?moved = Inr u" for u
    proof (cases "stock_lines (order_item_list s (so_id r)) = []")
      case True
      then show ?thesis using that ok by simp
    next
      case False
      then obtain l where "so_location_id r = Some l" using loc by auto
      with that False have "for_each (move_line E r l id (''cancelled: reversing sales_order '' @ so_id r))
          (stock_lines (order_item_list s (so_id r))) t = Inr u" by simp
      from move_lines_Inr [OF this] show ?thesis using ok ledger_ok_cong [of u t] by auto
    qed
    ultimately show ?thesis
      unfolding undo_confirm_def Let_def lines by (intro proper_attempt proper_reverse_confirm)
  qed
  show ?thesis
    unfolding sales_order_cancel_def Let_def now_iso_eq prod.case
    by (intro proper_rules undo) (auto simp: sales_order_get_Inr)
qed

lemma cancel_never_panics_witness: "proper (sales_order_cancel sample_env ''o'' sample_shop_confirmed)"
proof -
  have "orders_ok sample_shop_confirmed" by code_simp
  moreover have "ledger_ok sample_shop_confirmed"
    using sample_shop_ok(2) ledger_ok_cong [of sample_shop_confirmed sample_shop] by (simp add: sample_shop_confirmed_def)
  ultimately show ?thesis by (rule cancel_never_panics)
qed

section \<open>Confirming\<close>

lemma sum_list_map_nonneg:
  fixes f :: "'a \<Rightarrow> int"
  shows "\<forall>x \<in> set xs. 0 \<le> f x \<Longrightarrow> 0 \<le> sum_list (map f xs)"
  by (induction xs) auto

definition vats :: "(int \<times> (int \<times> int)) list \<Rightarrow> int" where
  "vats m = sum_list (map (\<lambda>g. snd (snd g)) m)"

lemma vat_group_step:
  assumes "\<forall>g \<in> set m. 0 \<le> snd (snd g)" and "0 \<le> vat" and "vats m + vat \<le> i64_max"
    and f: "f = (\<lambda>(n, v). (wrap64 (n + net), wrap64 (v + vat)))"
  shows "(\<forall>g \<in> set (bt_entry k (0, 0) f m). 0 \<le> snd (snd g)) \<and> vats (bt_entry k (0, 0) f m) = vats m + vat"
  using assms(1,3)
proof (induction m)
  case Nil
  then have "wrap64 vat = vat" using assms(2) by (simp add: vats_def in_i64_def i64_min_def)
  then show ?case using assms(2) by (simp add: f vats_def)
next
  case (Cons g m)
  obtain k' n v where g: "g = (k', n, v)" by (cases g) auto
  have nonneg: "0 \<le> vats m" using Cons.prems(1) unfolding vats_def by (intro sum_list_map_nonneg) simp
  have v: "0 \<le> v" using Cons.prems(1) by (simp add: g)
  have sum: "v + vats m + vat \<le> i64_max" using Cons.prems(2) by (simp add: g vats_def)
  have "wrap64 vat = vat" "wrap64 (v + vat) = v + vat"
    using assms(2) nonneg v sum by (simp_all add: in_i64_def i64_min_def)
  moreover have "vats m + vat \<le> i64_max" using v sum by linarith
  then have "(\<forall>g \<in> set (bt_entry k (0, 0) f m). 0 \<le> snd (snd g)) \<and> vats (bt_entry k (0, 0) f m) = vats m + vat"
    using Cons.IH Cons.prems(1) by simp
  ultimately show ?case using Cons.prems(1) v assms(2) by (auto simp: g f vats_def)
qed

lemma vat_groups_nonneg:
  assumes "\<forall>l \<in> set ls. 0 \<le> line_vat l" and "sum_list (map line_vat ls) \<le> i64_max"
  shows "(\<forall>g \<in> set (vat_groups ls). 0 \<le> snd (snd g)) \<and> vats (vat_groups ls) = sum_list (map line_vat ls)"
proof -
  let ?step = "\<lambda>(quantity, unit_price_minor, tax_rate_bps).
         let net = wrap64 (quantity * unit_price_minor);
             vat = vat_on_net net tax_rate_bps
         in bt_entry tax_rate_bps (0, 0) (\<lambda>(n, v). (wrap64 (n + net), wrap64 (v + vat)))"
  have "(\<forall>g \<in> set (fold ?step ls m). 0 \<le> snd (snd g)) \<and> vats (fold ?step ls m) = vats m + sum_list (map line_vat ls)"
    if "\<forall>g \<in> set m. 0 \<le> snd (snd g)" "vats m + sum_list (map line_vat ls) \<le> i64_max" for m
    using that assms(1)
  proof (induction ls arbitrary: m)
    case Nil
    then show ?case by simp
  next
    case (Cons l ls)
    obtain q p bps where l: "l = (q, p, bps)" by (cases l) auto
    have rest: "0 \<le> sum_list (map line_vat ls)" using Cons.prems(3) by (intro sum_list_map_nonneg) simp
    have "0 \<le> line_vat l" "vats m + line_vat l \<le> i64_max" using Cons.prems(2,3) rest by simp_all
    then have "(\<forall>g \<in> set (?step l m). 0 \<le> snd (snd g)) \<and> vats (?step l m) = vats m + line_vat l"
      using vat_group_step [OF Cons.prems(1) _ _ refl] by (simp add: l line_vat_def Let_def)
    then show ?case using Cons.IH [of "?step l m"] Cons.prems(2,3) by simp
  qed
  from this [of "[]"] assms(2) show ?thesis by (simp add: vat_groups_def vats_def)
qed

lemma proper_group_lines:
  "control \<noteq> None \<or> (\<forall>g \<in> set groups. snd (snd g) = 0) \<Longrightarrow> proper (group_lines rates revenue control currency groups)"
proof (induction rates revenue control currency groups rule: group_lines.induct)
  case (2 rates revenue control currency bps net vat groups)
  then show ?case
    unfolding group_lines.simps Let_def by (intro proper_rules) auto
qed (simp add: proper_Inr)

lemma proper_revenue_posting:
  assumes "ledger_ok s" and "\<forall>l \<in> set ls. 0 \<le> line_vat l" and "sum_list (map line_vat ls) \<le> i64_max"
  shows "proper (post_revenue_ar_journal E book cur ls d narrative reference ty src s)"
proof -
  note nonneg = vat_groups_nonneg [OF assms(2,3)]
  have "0 \<le> sum_list (map line_vat ls)" using assms(2) by (rule sum_list_map_nonneg)
  then have "wrap64 (sum_list (map line_vat ls)) = sum_list (map line_vat ls)"
    using assms(3) by (simp add: in_i64_def i64_min_def)
  then have total: "i64_sum (map (\<lambda>g. snd (snd g)) (vat_groups ls)) = vats (vat_groups ls)"
    using nonneg by (simp add: vat_groups_sums)
  have zero: "\<forall>g \<in> set (vat_groups ls). snd (snd g) = 0"
    if "i64_sum (map (\<lambda>g. snd (snd g)) (vat_groups ls)) = 0"
    using that nonneg unfolding total vats_def by (subst (asm) sum_list_nonneg_eq_0_iff) auto
  show ?thesis
    unfolding post_revenue_ar_journal_def post_some_def Let_def
    by (intro proper_rules proper_group_lines assms(1)) (use zero in auto)
qed

lemma proper_confirm_cost: "proper (confirm_cost s items n)"
  by (induction items arbitrary: n) (auto intro!: proper_rules)

text \<open>
  \<^bold>\<open>C28.\<close> Confirming an order never panics and always returns, as long as the VAT of its lines adds up
  within the 64-bit range: the \<^verbatim>\<open>expect\<close>s for the variant of a stock line and for the VAT control
  account cannot fail then.
\<close>

theorem confirm_never_panics:
  assumes "ledger_ok s"
    and "\<forall>x \<in> set (order_item_list s i). 0 \<le> line_vat (soi_quantity x, soi_unit_price_minor x, soi_tax_rate_bps x)"
    and "sum_list (map (\<lambda>x. line_vat (soi_quantity x, soi_unit_price_minor x, soi_tax_rate_bps x)) (order_item_list s i))
      \<le> i64_max"
  shows "proper (sales_order_confirm E i s)"
proof -
  let ?ls = "map (\<lambda>x. (soi_quantity x, soi_unit_price_minor x, soi_tax_rate_bps x)) (order_item_list s i)"
  have vat: "\<forall>l \<in> set ?ls. 0 \<le> line_vat l" "sum_list (map line_vat ?ls) \<le> i64_max"
    using assms(2,3) by (simp_all add: comp_def)
  have moved: "proper (case so_location_id r of None \<Rightarrow> Inr t | Some l \<Rightarrow>
      for_each (move_line E r l negate why) (stock_lines (order_item_list s i)) t)" for r t why
    by (intro proper_rules proper_move_lines) (auto simp: stock_lines_def)
  have kept: "ledger_ok u" if "(case so_location_id r of None \<Rightarrow> Inr (s\<lparr>db_draws := n\<rparr>) | Some l \<Rightarrow>
      for_each (move_line E r l negate why) (stock_lines (order_item_list s i)) (s\<lparr>db_draws := n\<rparr>)) = Inr u" for r u n why
  proof (cases "so_location_id r")
    case None
    then show ?thesis using that assms(1) ledger_ok_cong [of u s] by auto
  next
    case (Some l)
    with that have "for_each (move_line E r l negate why) (stock_lines (order_item_list s i)) (s\<lparr>db_draws := n\<rparr>) = Inr u"
      by simp
    from move_lines_Inr [OF this] show ?thesis using assms(1) ledger_ok_cong [of u s] by auto
  qed
  have cost: "proper (post_cost_journal E book r cur total u)" if "ledger_ok u" for book r cur total u
    unfolding post_cost_journal_def post_some_def Let_def using that by (intro proper_rules) auto
  have posts: "proper (post_sales_confirm_journals E book r (order_item_list s i) u)" if "ledger_ok u" for book r u
    unfolding post_sales_confirm_journals_def
    using that cost_posting.keeps_ledger
    by (intro proper_rules proper_confirm_cost cost proper_revenue_posting [OF _ vat]) auto
  show ?thesis
    unfolding sales_order_confirm_def Let_def now_iso_eq prod.case sales_order_items_list_def
    by (intro proper_rules moved posts kept) assumption
qed

lemma confirm_never_panics_witness: "proper (sales_order_confirm sample_env ''o'' sample_shop)"
proof -
  let ?vat = "\<lambda>x. line_vat (soi_quantity x, soi_unit_price_minor x, soi_tax_rate_bps x)"
  have "\<forall>x \<in> set (order_item_list sample_shop ''o''). 0 \<le> ?vat x"
    and "sum_list (map ?vat (order_item_list sample_shop ''o'')) \<le> i64_max"
    by code_simp+
  with sample_shop_ok(2) show ?thesis by (rule confirm_never_panics)
qed

text \<open>
  Without that bound the \<^verbatim>\<open>expect\<close> for the VAT control account does fail: two lines whose
  quantity times price leaves the 64-bit range, each with a positive quantity, a price that is
  not negative and a rate of at most a hundred percent, have VAT amounts that cancel, so the
  account is not looked up, and the first of the two non-zero amounts panics for want of it.
\<close>

theorem overflowing_lines_panic:
  assumes "coa_by_code_opt s (bk_id book) COA_CODE_AR \<noteq> None"
    and "coa_by_code_opt s (bk_id book) COA_CODE_REVENUE \<noteq> None"
  shows "line_row_ok (2 ^ 60) 15 10000 \<and> line_row_ok (2 ^ 61) 1 5000
    \<and> post_revenue_ar_journal E book cur [(2 ^ 60, 15, 10000), (2 ^ 61, 1, 5000)] d narrative reference ty src s
        = Inl (Panic ''need_vat_control guaranteed Some above'')"
proof -
  have groups: "vat_groups [(1152921504606846976, 15, 10000), (2305843009213693952, 1, 5000)]
      = [(5000, 2305843009213693952, 1152921504606846976), (10000, - 1152921504606846976, - 1152921504606846976)]"
    by code_simp
  have sums: "i64_sum [2305843009213693952, - 1152921504606846976] = 1152921504606846976"
    "i64_sum [1152921504606846976, - 1152921504606846976] = 0" "wrap64 1152921504606846976 = 1152921504606846976"
    by code_simp+
  obtain ar revenue where "two_accounts s (bk_id book) COA_CODE_AR COA_CODE_REVENUE = Some (ar, revenue)"
    using assms by (auto simp: two_accounts_def)
  then show ?thesis
    by (simp add: post_revenue_ar_journal_def groups sums Let_def line_row_ok_def)
qed

lemma overflowing_lines_panic_witness:
  "post_revenue_ar_journal sample_env sample_book ''ZAR'' [(2 ^ 60, 15, 10000), (2 ^ 61, 1, 5000)] ''2026-02-03''
     ''Sale'' ''o'' JS_SalesRevenue ''o'' sample_db = Inl (Panic ''need_vat_control guaranteed Some above'')"
proof -
  have "coa_by_code_opt sample_db (bk_id sample_book) COA_CODE_AR \<noteq> None"
    and "coa_by_code_opt sample_db (bk_id sample_book) COA_CODE_REVENUE \<noteq> None"
    by code_simp+
  from overflowing_lines_panic [OF this] show ?thesis by blast
qed

end
