(* ===== verification/Quotes.thy ===== *)
theory Quotes
  imports Order_Lifecycle
begin

text \<open>
  Quotes (the section ``Quotes'' of \<^verbatim>\<open>service.rs\<close>): a draft is edited freely and sent; a sent quote is
  declined, expires, or is accepted, which copies its lines into a new draft sales order.
\<close>

section \<open>Headers\<close>

definition quote_get :: "db \<Rightarrow> string \<Rightarrow> quote res" where
  "quote_get s i = ok_or (repo_quote_get s i) (NotFound ''quote'' i)"

definition quote_list :: "db \<Rightarrow> string \<Rightarrow> quote list" where
  "quote_list s book_id = repo_quote_list s book_id"

definition check_expiry :: "env \<Rightarrow> string option \<Rightarrow> string option res" where
  "check_expiry E expiry_date =
     (case expiry_date of
        None \<Rightarrow> Inr None
      | Some d \<Rightarrow> attempt (parse_date (e_time E) d) (\<lambda>_. Inr (Some d)))"

definition quote_create :: "env \<Rightarrow> new_quote \<Rightarrow> db \<Rightarrow> (quote \<times> db) res" where
  "quote_create E new s =
     attempt (book_get s (nqt_book_id new)) (\<lambda>book.
     attempt (contact_get s (nqt_contact_id new)) (\<lambda>contact.
       if ct_book_id contact \<noteq> bk_id book
       then Inl (Validation ''quote contact belongs to a different book'')
       else let (quote_date, s0) = date_or_today E (nqt_quote_date new) s in
         attempt (parse_date (e_time E) quote_date) (\<lambda>_.
         attempt (check_expiry E (nqt_expiry_date new)) (\<lambda>expiry_date.
         attempt (currency_or (nqt_currency new) (bk_currency book)) (\<lambda>currency.
           let (now, s1) = now_iso E s0 in
           attempt (allocate_number (bk_id book) ''quote'' s1) (\<lambda>(number, s2).
             let (i, s3) = new_id E s2;
                 q = \<lparr>qt_id = i, qt_book_id = bk_id book, qt_contact_id = ct_id contact,
                   qt_number = number, qt_quote_date = quote_date, qt_expiry_date = expiry_date,
                   qt_status = QT_Draft, qt_currency = currency,
                   qt_notes = normalize_optional (nqt_notes new), qt_sent_at = None,
                   qt_accepted_at = None, qt_declined_at = None, qt_expired_at = None,
                   qt_converted_sales_order_id = None, qt_created_at = now, qt_updated_at = now\<rparr>
             in attempt (quote_insert q s3) (\<lambda>s4.
                attempt (emit_audit E (Some (qt_book_id q)) ''quote'' (Some i) ''create'' None
                  (Some (Snap_quote q)) s4) (\<lambda>s5. Inr (q, s5)))))))))"

definition patch_quote :: "env \<Rightarrow> quote \<Rightarrow> quote_patch \<Rightarrow> quote res" where
  "patch_quote E before patch =
     attempt (if_some (pqt_quote_date patch) (\<lambda>v after.
         attempt (parse_date (e_time E) v) (\<lambda>_. Inr (after\<lparr>qt_quote_date := v\<rparr>))) before) (\<lambda>a1.
     attempt (if_some (pqt_expiry_date patch) (\<lambda>v after.
         attempt (check_expiry E v) (\<lambda>d. Inr (after\<lparr>qt_expiry_date := d\<rparr>))) a1) (\<lambda>a2.
     if_some (pqt_notes patch) (\<lambda>v after. Inr (after\<lparr>qt_notes := normalize_optional v\<rparr>)) a2))"

text \<open>The end every change of a quote's row shares: write the row, log the change.\<close>

definition store_quote :: "env \<Rightarrow> string \<Rightarrow> string \<Rightarrow> quote \<Rightarrow> quote \<Rightarrow> db \<Rightarrow> (quote \<times> db) res" where
  "store_quote E i action before after s =
     attempt (repo_quote_update after s) (\<lambda>s1.
     attempt (emit_audit E (Some (qt_book_id after)) ''quote'' (Some i) action
       (Some (Snap_quote before)) (Some (Snap_quote after)) s1) (\<lambda>s2. Inr (after, s2)))"

definition quote_update :: "env \<Rightarrow> string \<Rightarrow> quote_patch \<Rightarrow> db \<Rightarrow> (quote \<times> db) res" where
  "quote_update E i patch s =
     attempt (quote_get s i) (\<lambda>before.
       if qt_status before \<noteq> QT_Draft
       then Inl (Validation
              ''only a draft quote can be edited; a sent one can be declined or left to expire'')
       else attempt (patch_quote E before patch) (\<lambda>patched.
         let (now, s1) = now_iso E s
         in store_quote E i ''update'' before (patched\<lparr>qt_updated_at := now\<rparr>) s1))"

definition quote_delete :: "env \<Rightarrow> string \<Rightarrow> db \<Rightarrow> (unit \<times> db) res" where
  "quote_delete E i s =
     attempt (quote_get s i) (\<lambda>before.
       if qt_status before \<noteq> QT_Draft
       then Inl (Validation ''only a draft quote can be deleted; decline a sent one instead'')
       else attempt (repo_quote_delete i s) (\<lambda>(_, s1).
            attempt (emit_audit E (Some (qt_book_id before)) ''quote'' (Some i) ''delete''
              (Some (Snap_quote before)) None s1) (\<lambda>s2. Inr ((), s2))))"

definition quote_totals :: "db \<Rightarrow> string \<Rightarrow> sales_order_totals res" where
  "quote_totals s i = attempt (quote_get s i) (\<lambda>_. Inr (repo_quote_totals s i))"

section \<open>Lines\<close>

definition quote_item_add :: "env \<Rightarrow> new_quote_item \<Rightarrow> db \<Rightarrow> (quote_item \<times> db) res" where
  "quote_item_add E new s =
     attempt (quote_get s (nqi_quote_id new)) (\<lambda>q.
       if qt_status q \<noteq> QT_Draft then Inl (Validation ''cannot add a line to a non-draft quote'')
       else if nqi_quantity new \<le> 0 then Inl (Validation ''quote line quantity must be positive'')
       else attempt (resolve_sales_order_line s (qt_book_id q) (nqi_variant_id new)
              (nqi_description new) (nqi_unit_price_minor new)) (\<lambda>(variant_id, description, price).
         if price < 0 then Inl (Validation ''quote line unit price must not be negative'')
         else
           let rate = (case nqi_tax_rate_bps new of None \<Rightarrow> 0 | Some r \<Rightarrow> r) in
           if \<not> rate_ok rate
           then Inl (Validation ''quote line tax rate must be between 0 and 10000 basis points'')
           else
             let (now, s1) = now_iso E s;
                 line_order = int (length (quote_item_list s1 (qt_id q)));
                 (i, s2) = new_id E s1;
                 item = \<lparr>qi_id = i, qi_quote_id = qt_id q, qi_book_id = qt_book_id q,
                   qi_variant_id = variant_id, qi_description = description,
                   qi_quantity = nqi_quantity new, qi_unit_price_minor = price,
                   qi_tax_rate_bps = rate, qi_line_order = line_order, qi_created_at = now,
                   qi_updated_at = now\<rparr>
             in attempt (quote_item_insert item s2) (\<lambda>s3.
                attempt (emit_audit E (Some (qi_book_id item)) ''quote_item'' (Some i) ''create''
                  None (Some (Snap_quote_item item)) s3) (\<lambda>s4. Inr (item, s4)))))"

definition quote_items_list :: "db \<Rightarrow> string \<Rightarrow> quote_item list" where
  "quote_items_list s quote_id = quote_item_list s quote_id"

definition draft_quote_item :: "db \<Rightarrow> string \<Rightarrow> string \<Rightarrow> (quote_item \<times> quote) res" where
  "draft_quote_item s i refusal =
     attempt (ok_or (quote_item_get s i) (NotFound ''quote_item'' i)) (\<lambda>before.
     attempt (quote_get s (qi_quote_id before)) (\<lambda>q.
       if qt_status q \<noteq> QT_Draft then Inl (Validation refusal) else Inr (before, q)))"

definition patch_quote_item :: "quote_item \<Rightarrow> quote_item_patch \<Rightarrow> quote_item res" where
  "patch_quote_item before patch =
     attempt (if_some (pqi_description patch) (\<lambda>v after.
         if trim v = [] then Inl (Validation ''quote line description must not be empty'')
         else Inr (after\<lparr>qi_description := trim v\<rparr>)) before) (\<lambda>a1.
     attempt (if_some (pqi_quantity patch) (\<lambda>v after.
         if v \<le> 0 then Inl (Validation ''quote line quantity must be positive'')
         else Inr (after\<lparr>qi_quantity := v\<rparr>)) a1) (\<lambda>a2.
     attempt (if_some (pqi_unit_price_minor patch) (\<lambda>v after.
         if v < 0 then Inl (Validation ''quote line unit price must not be negative'')
         else Inr (after\<lparr>qi_unit_price_minor := v\<rparr>)) a2) (\<lambda>a3.
     if_some (pqi_tax_rate_bps patch) (\<lambda>v after.
         if \<not> rate_ok v
         then Inl (Validation ''quote line tax rate must be between 0 and 10000 basis points'')
         else Inr (after\<lparr>qi_tax_rate_bps := v\<rparr>)) a3)))"

definition quote_item_update ::
    "env \<Rightarrow> string \<Rightarrow> quote_item_patch \<Rightarrow> db \<Rightarrow> (quote_item \<times> db) res" where
  "quote_item_update E i patch s =
     attempt (draft_quote_item s i ''cannot edit a line on a non-draft quote'') (\<lambda>(before, q).
     attempt (patch_quote_item before patch) (\<lambda>patched.
       let (now, s1) = now_iso E s;
           after = patched\<lparr>qi_updated_at := now\<rparr>
       in attempt (repo_quote_item_update after s1) (\<lambda>s2.
          attempt (emit_audit E (Some (qi_book_id after)) ''quote_item'' (Some i) ''update''
            (Some (Snap_quote_item before)) (Some (Snap_quote_item after)) s2) (\<lambda>s3. Inr (after, s3)))))"

definition quote_item_remove :: "env \<Rightarrow> string \<Rightarrow> db \<Rightarrow> (unit \<times> db) res" where
  "quote_item_remove E i s =
     attempt (draft_quote_item s i ''cannot remove a line from a non-draft quote'') (\<lambda>(before, q).
     attempt (quote_item_delete i s) (\<lambda>(_, s1).
     attempt (emit_audit E (Some (qi_book_id before)) ''quote_item'' (Some i) ''delete''
       (Some (Snap_quote_item before)) None s1) (\<lambda>s2. Inr ((), s2))))"

section \<open>Sending, declining, expiring, accepting\<close>

definition quote_send :: "env \<Rightarrow> string \<Rightarrow> db \<Rightarrow> (quote \<times> db) res" where
  "quote_send E i s =
     attempt (quote_get s i) (\<lambda>before.
       if qt_status before \<noteq> QT_Draft
       then Inl (InvalidStatusTransition (quote_status_str (qt_status before)) (quote_status_str QT_Sent))
       else if quote_items_list s i = [] then Inl (Validation ''cannot send a quote with no line items'')
       else let (now, s1) = now_iso E s
         in store_quote E i ''send'' before
              (before\<lparr>qt_status := QT_Sent, qt_sent_at := Some now, qt_updated_at := now\<rparr>) s1)"

definition quote_decline :: "env \<Rightarrow> string \<Rightarrow> db \<Rightarrow> (quote \<times> db) res" where
  "quote_decline E i s =
     attempt (quote_get s i) (\<lambda>before.
       if qt_status before \<noteq> QT_Sent
       then Inl (InvalidStatusTransition (quote_status_str (qt_status before)) (quote_status_str QT_Declined))
       else let (now, s1) = now_iso E s
         in store_quote E i ''decline'' before
              (before\<lparr>qt_status := QT_Declined, qt_declined_at := Some now, qt_updated_at := now\<rparr>) s1)"

definition quote_expire :: "env \<Rightarrow> string \<Rightarrow> db \<Rightarrow> (quote \<times> db) res" where
  "quote_expire E i s =
     attempt (quote_get s i) (\<lambda>before.
       if qt_status before \<noteq> QT_Sent
       then Inl (InvalidStatusTransition (quote_status_str (qt_status before)) (quote_status_str QT_Expired))
       else let (now, s1) = now_iso E s
         in store_quote E i ''expire'' before
              (before\<lparr>qt_status := QT_Expired, qt_expired_at := Some now, qt_updated_at := now\<rparr>) s1)"

text \<open>One line of the quote becomes one line of the new order.\<close>

definition copied_line :: "string \<Rightarrow> sales_order \<Rightarrow> string \<Rightarrow> nat \<Rightarrow> quote_item \<Rightarrow> sales_order_item" where
  "copied_line i order now line_order item =
     \<lparr>soi_id = i, soi_sales_order_id = so_id order, soi_book_id = so_book_id order,
      soi_variant_id = qi_variant_id item, soi_description = qi_description item,
      soi_quantity = qi_quantity item, soi_unit_price_minor = qi_unit_price_minor item,
      soi_tax_rate_bps = qi_tax_rate_bps item, soi_line_order = int line_order, soi_created_at = now,
      soi_updated_at = now\<rparr>"

definition copy_line :: "env \<Rightarrow> sales_order \<Rightarrow> string \<Rightarrow> nat \<times> quote_item \<Rightarrow> db \<Rightarrow> db res" where
  "copy_line E order now l s =
     (let (i, s1) = new_id E s in order_item_insert (copied_line i order now (fst l) (snd l)) s1)"

definition quote_accept :: "env \<Rightarrow> string \<Rightarrow> db \<Rightarrow> (sales_order \<times> db) res" where
  "quote_accept E i s =
     attempt (quote_get s i) (\<lambda>before.
       if qt_status before \<noteq> QT_Sent
       then Inl (InvalidStatusTransition (quote_status_str (qt_status before)) (quote_status_str QT_Accepted))
       else
         let items = quote_items_list s i in
         if items = [] then Inl (Validation ''cannot accept a quote with no line items'')
         else
           let (now, s1) = now_iso E s in
           attempt (allocate_number (qt_book_id before) ''sales_order'' s1) (\<lambda>(number, s2).
             let (oid, s3) = new_id E s2;
                 (order_date, s4) = today E s3;
                 order = \<lparr>so_id = oid, so_book_id = qt_book_id before, so_contact_id = qt_contact_id before,
                   so_location_id = None, so_number = number, so_order_date = order_date,
                   so_status = SO_Draft, so_currency = qt_currency before, so_notes = qt_notes before,
                   so_confirmed_at = None, so_cancelled_at = None, so_paid_at = None,
                   so_created_at = now, so_updated_at = now\<rparr>
             in attempt (order_insert order s4) (\<lambda>s5.
                attempt (for_each (copy_line E order now) (enumerate 0 items) s5) (\<lambda>s6.
                  let after = before\<lparr>qt_status := QT_Accepted, qt_accepted_at := Some now,
                        qt_converted_sales_order_id := Some (so_id order), qt_updated_at := now\<rparr>
                  in attempt (store_quote E i ''accept'' before after s6) (\<lambda>(_, s7).
                     attempt (emit_audit E (Some (so_book_id order)) ''sales_order'' (Some (so_id order))
                       ''create'' None (Some (Snap_order order)) s7) (\<lambda>s8. Inr (order, s8)))))))"

section \<open>The invariant of quotes\<close>

text \<open>The time stamps of a quote tell its status; only an accepted quote names an order.\<close>

definition quote_stamps_ok :: "quote \<Rightarrow> bool" where
  "quote_stamps_ok q \<longleftrightarrow>
     (qt_sent_at q = None \<longleftrightarrow> qt_status q = QT_Draft)
     \<and> (qt_accepted_at q \<noteq> None \<longleftrightarrow> qt_status q = QT_Accepted)
     \<and> (qt_declined_at q \<noteq> None \<longleftrightarrow> qt_status q = QT_Declined)
     \<and> (qt_expired_at q \<noteq> None \<longleftrightarrow> qt_status q = QT_Expired)
     \<and> (qt_converted_sales_order_id q \<noteq> None \<longrightarrow> qt_status q = QT_Accepted)"

definition quote_line_ok :: "quote_item \<Rightarrow> bool" where
  "quote_line_ok i \<longleftrightarrow> line_row_ok (qi_quantity i) (qi_unit_price_minor i) (qi_tax_rate_bps i)"

text \<open>A quote that left the draft state has lines.\<close>

definition quote_ok :: "quote_item list \<Rightarrow> quote \<Rightarrow> bool" where
  "quote_ok items q \<longleftrightarrow> quote_stamps_ok q
     \<and> (qt_status q \<noteq> QT_Draft \<longrightarrow> filter (\<lambda>i. qi_quote_id i = qt_id q) items \<noteq> [])"

definition quotes_ok :: "db \<Rightarrow> bool" where
  "quotes_ok s \<longleftrightarrow> docs_ok qt_id qi_id qi_quote_id quote_line_ok quote_ok (db_quotes s) (db_quote_items s)"

interpretation quote_doc: document qt_id qi_id qi_quote_id quote_line_ok quote_ok "\<lambda>_. ()"
  "\<lambda>q. qt_status q = QT_Draft"
proof
  fix h :: quote and rows' rows :: "quote_item list"
  assume "map (\<lambda>_. ()) (filter (\<lambda>l. qi_quote_id l = qt_id h) rows') = map (\<lambda>_. ()) (filter (\<lambda>l. qi_quote_id l = qt_id h) rows)"
  then have "length (filter (\<lambda>l. qi_quote_id l = qt_id h) rows') = length (filter (\<lambda>l. qi_quote_id l = qt_id h) rows)"
    by (rule map_eq_imp_length_eq)
  then show "quote_ok rows' h = quote_ok rows h" by (auto simp: quote_ok_def)
qed (simp add: quote_ok_def)

lemma quotes_ok_distinct:
  assumes "quotes_ok s"
  shows "distinct (map qt_id (db_quotes s))" and "distinct (map qi_id (db_quote_items s))"
  using quote_doc.okD(1,2) assms by (auto simp: quotes_ok_def)

lemma quotes_ok_row: "quotes_ok s \<Longrightarrow> tab_find qt_id i (db_quotes s) = Some q \<Longrightarrow> quote_ok (db_quote_items s) q"
  unfolding quotes_ok_def by (drule quote_doc.okD(5)) (auto dest: tab_find_Some)

lemma quotes_ok_frame:
  "quotes_ok s \<Longrightarrow> db_quotes s' = db_quotes s \<Longrightarrow> db_quote_items s' = db_quote_items s \<Longrightarrow> quotes_ok s'"
  by (simp add: quotes_ok_def)

lemma quote_get_Inr: "quote_get s i = Inr q \<longleftrightarrow> tab_find qt_id i (db_quotes s) = Some q"
  by (simp add: quote_get_def repo_quote_get_def res_simps)

lemma set_quote_item_list: "set (quote_item_list s k) = {i \<in> set (db_quote_items s). qi_quote_id i = k}"
  by (auto simp: quote_item_list_def)

lemma quote_item_list_Nil: "quote_item_list s k = [] \<longleftrightarrow> filter (\<lambda>i. qi_quote_id i = k) (db_quote_items s) = []"
  by (auto simp: set_quote_item_list filter_empty_conv simp flip: set_empty)

section \<open>Every operation keeps it\<close>

definition same_quote :: "quote \<Rightarrow> quote \<Rightarrow> bool" where
  "same_quote a b \<longleftrightarrow> qt_id b = qt_id a \<and> qt_book_id b = qt_book_id a \<and> qt_number b = qt_number a
     \<and> qt_contact_id b = qt_contact_id a \<and> qt_currency b = qt_currency a \<and> qt_created_at b = qt_created_at a"

lemma same_quote_refl [simp]: "same_quote a a"
  by (simp add: same_quote_def)

lemma same_quote_updates [simp]:
  "same_quote a (b\<lparr>qt_quote_date := x1\<rparr>) = same_quote a b"
  "same_quote a (b\<lparr>qt_expiry_date := x2\<rparr>) = same_quote a b"
  "same_quote a (b\<lparr>qt_status := x3\<rparr>) = same_quote a b"
  "same_quote a (b\<lparr>qt_notes := x4\<rparr>) = same_quote a b"
  "same_quote a (b\<lparr>qt_sent_at := x5\<rparr>) = same_quote a b"
  "same_quote a (b\<lparr>qt_accepted_at := x6\<rparr>) = same_quote a b"
  "same_quote a (b\<lparr>qt_declined_at := x7\<rparr>) = same_quote a b"
  "same_quote a (b\<lparr>qt_expired_at := x8\<rparr>) = same_quote a b"
  "same_quote a (b\<lparr>qt_converted_sales_order_id := x9\<rparr>) = same_quote a b"
  "same_quote a (b\<lparr>qt_updated_at := x10\<rparr>) = same_quote a b"
  by (simp_all add: same_quote_def)

lemma store_quote_Inr:
  assumes "store_quote E i act before after s = Inr (q, s')"
    and before: "tab_find qt_id i (db_quotes s) = Some before" and d: "distinct (map qt_id (db_quotes s))"
    and same: "same_quote before after"
  obtains n e where "q = after" and "s' = s\<lparr>db_quotes := tab_put qt_id after (db_quotes s), db_draws := n, db_audit := e\<rparr>"
    and "tab_find qt_id i (db_quotes s') = Some after"
  using assms(1) unfolding store_quote_def
proof (elim attempt_InrE, goal_cases)
  case (1 s1 s2)
  have id: "qt_id after = i" using same tab_find_Some [OF before] by (simp add: same_quote_def)
  have "quote_columns after before = after"
    using same by (cases before; cases after) (simp add: quote_columns_def same_quote_def)
  then have "map (\<lambda>r. if qt_id r = qt_id after then quote_columns after r else r) (db_quotes s)
      = tab_put qt_id after (db_quotes s)"
    by (intro map_if_put [OF d, of _ before]) (simp_all add: id before)
  moreover have "has qt_id i (db_quotes s)" using before by (rule tab_find_has)
  ultimately have s1: "s1 = s\<lparr>db_quotes := tab_put qt_id after (db_quotes s)\<rparr>"
    using 1(2) id by (simp add: repo_quote_update_def constrain_Inr)
  from 1(3) obtain e where s2: "s2 = s1\<lparr>db_draws := Suc (Suc (db_draws s1)), db_audit := db_audit s1 @ [e]\<rparr>"
    by (rule emit_audit_Inr)
  have "i \<in> qt_id ` set (db_quotes s)" using tab_find_Some [OF before] by auto
  then have "tab_find qt_id i (tab_put qt_id after (db_quotes s)) = Some after" by (simp add: tab_find_put id)
  then show ?case
    using 1(4) by (intro 1(1) [of "db_audit s1 @ [e]" "Suc (Suc (db_draws s1))"]) (auto simp: s2 s1)
qed

text \<open>Every change of a quote's row that keeps the row's own condition keeps the invariant.\<close>

lemma store_quote_keeps:
  assumes "store_quote E i act before after (s\<lparr>db_draws := m\<rparr>) = Inr (q, s')" and ok: "quotes_ok s"
    and before: "tab_find qt_id i (db_quotes s) = Some before" and same: "same_quote before after"
    and row: "quote_ok (db_quote_items s) after"
  shows "q = after" and "quotes_ok s'" and "tab_find qt_id i (db_quotes s') = Some after"
    and "\<exists>n e. s' = s\<lparr>db_quotes := tab_put qt_id after (db_quotes s), db_draws := n, db_audit := e\<rparr>"
proof -
  have b: "tab_find qt_id i (db_quotes (s\<lparr>db_draws := m\<rparr>)) = Some before" using before by simp
  have d: "distinct (map qt_id (db_quotes (s\<lparr>db_draws := m\<rparr>)))" using quotes_ok_distinct(1) [OF ok] by simp
  from assms(1) b d same obtain n e where q: "q = after"
    and s': "s' = (s\<lparr>db_draws := m\<rparr>)\<lparr>db_quotes := tab_put qt_id after (db_quotes (s\<lparr>db_draws := m\<rparr>)), db_draws := n, db_audit := e\<rparr>"
    and found: "tab_find qt_id i (db_quotes s') = Some after"
    by (rule store_quote_Inr)
  show "q = after" by (rule q)
  show "tab_find qt_id i (db_quotes s') = Some after" by (rule found)
  show "quotes_ok s'" using ok row by (simp add: quotes_ok_def s' quote_doc.put_head)
  show "\<exists>n e. s' = s\<lparr>db_quotes := tab_put qt_id after (db_quotes s), db_draws := n, db_audit := e\<rparr>"
    using s' by auto
qed

lemma quote_create_Inr:
  assumes "quote_create E new s = Inr (q, s')"
  obtains s2 n0 n e where
    "allocate_number (qt_book_id q) ''quote'' (s\<lparr>db_draws := n0\<rparr>) = Inr (qt_number q, s2)"
    and "s' = s2\<lparr>db_quotes := db_quotes s2 @ [q], db_draws := n, db_audit := e\<rparr>"
    and "qt_id q \<notin> qt_id ` set (db_quotes s2)" and "qt_status q = QT_Draft" and "quote_stamps_ok q"
    and "qt_book_id q = nqt_book_id new" and "qt_contact_id q = nqt_contact_id new"
proof -
  obtain d n0 where d: "date_or_today E (nqt_quote_date new) s = (d, s\<lparr>db_draws := n0\<rparr>)"
    by (rule date_or_today_draws)
  show thesis
    using assms unfolding quote_create_def d Let_def prod.case now_iso_eq new_id_eq
  proof (elim attempt_pairE attempt_InrE guard_then, goal_cases)
    case (1 book contact u expiry currency number s2 s3 s4)
    from 1(8) have s3: "s3 = s2\<lparr>db_draws := Suc (db_draws s2), db_quotes := db_quotes s2 @ [q]\<rparr>"
      and fresh: "qt_id q \<notin> qt_id ` set (db_quotes s2)"
      using 1(10) by (auto simp: quote_insert_def constrain_Inr has_iff)
    from 1(9) obtain e where s4: "s4 = s3\<lparr>db_draws := Suc (Suc (db_draws s3)), db_audit := db_audit s3 @ [e]\<rparr>"
      by (rule emit_audit_Inr)
    show thesis
      using tab_find_Some [OF 1(1) [unfolded book_get_Inr]] tab_find_Some [OF 1(2) [unfolded contact_get_Inr]] 1(7,10)
      by (intro that [OF _ _ fresh, of "Suc n0" "db_audit s3 @ [e]" "Suc (Suc (db_draws s3))"])
        (auto simp: s4 s3 quote_stamps_ok_def)
  qed
qed

lemma quote_create_keeps:
  assumes "quote_create E new s = Inr (q, s')" and "quotes_ok s"
  shows "quotes_ok s'"
  using assms(1)
proof (rule quote_create_Inr)
  fix s2 n0 n e
  assume "allocate_number (qt_book_id q) ''quote'' (s\<lparr>db_draws := n0\<rparr>) = Inr (qt_number q, s2)"
    and s': "s' = s2\<lparr>db_quotes := db_quotes s2 @ [q], db_draws := n, db_audit := e\<rparr>"
    and fresh: "qt_id q \<notin> qt_id ` set (db_quotes s2)" and draft: "qt_status q = QT_Draft" "quote_stamps_ok q"
  from this(1) obtain seqs where s2: "s2 = s\<lparr>db_draws := n0, db_sequences := seqs\<rparr>"
    by (rule allocate_number_Inr)
  have "quote_ok (db_quote_items s) q" using draft by (simp add: quote_ok_def)
  then show ?thesis
    using assms(2) fresh unfolding quotes_ok_def s' s2 by (simp add: quote_doc.add_head)
qed

definition quote_edit :: "quote \<Rightarrow> quote \<Rightarrow> bool" where
  "quote_edit a b \<longleftrightarrow> same_quote a b \<and> qt_status b = qt_status a \<and> qt_sent_at b = qt_sent_at a
     \<and> qt_accepted_at b = qt_accepted_at a \<and> qt_declined_at b = qt_declined_at a
     \<and> qt_expired_at b = qt_expired_at a \<and> qt_converted_sales_order_id b = qt_converted_sales_order_id a"

lemma patch_quote_edit:
  assumes "patch_quote E before patch = Inr after"
  shows "quote_edit before after"
proof -
  have "quote_edit before before" by (simp add: quote_edit_def)
  with assms show ?thesis
    unfolding patch_quote_def
    by (elim if_some_then [where P = "quote_edit before"] if_some_end [where P = "quote_edit before"])
      (auto simp: attempt_eq_Inr quote_edit_def)
qed

lemma quote_update_keeps:
  assumes "quote_update E i patch s = Inr (q, s')" and "quotes_ok s"
  shows "quotes_ok s' \<and> (\<exists>before n e. tab_find qt_id i (db_quotes s) = Some before \<and> qt_status before = QT_Draft
    \<and> quote_edit before q \<and> s' = s\<lparr>db_quotes := tab_put qt_id q (db_quotes s), db_draws := n, db_audit := e\<rparr>)"
  using assms(1) unfolding quote_update_def Let_def now_iso_eq prod.case
proof (elim attempt_InrE guard_then, goal_cases)
  case (1 before patched)
  have before: "tab_find qt_id i (db_quotes s) = Some before" using 1(1) by (simp add: quote_get_Inr)
  have draft: "qt_status before = QT_Draft" using 1(2) by blast
  let ?after = "patched\<lparr>qt_updated_at := e_now E (db_draws s)\<rparr>"
  have edit: "quote_edit before ?after" using patch_quote_edit [OF 1(3)] by (simp add: quote_edit_def)
  have "quote_ok (db_quote_items s) ?after"
    using quotes_ok_row [OF assms(2) before] edit draft by (simp add: quote_ok_def quote_edit_def quote_stamps_ok_def)
  from store_quote_keeps [OF 1(4) assms(2) before _ this] edit show ?case
    using before draft by (auto simp: quote_edit_def)
qed

lemma quote_delete_Inr:
  assumes "quote_delete E i s = Inr (u, s')"
  obtains before n e where "tab_find qt_id i (db_quotes s) = Some before" and "qt_status before = QT_Draft"
    and "s' = s\<lparr>db_quotes := tab_del qt_id i (db_quotes s),
           db_quote_items := filter (\<lambda>x. qi_quote_id x \<noteq> i) (db_quote_items s), db_draws := n, db_audit := e\<rparr>"
  using assms unfolding quote_delete_def
proof (elim attempt_pairE attempt_InrE guard_then, goal_cases)
  case (1 before ok s1 s2)
  from 1(4) have s1: "s1 = s\<lparr>db_quotes := tab_del qt_id i (db_quotes s),
      db_quote_items := filter (\<lambda>x. qi_quote_id x \<noteq> i) (db_quote_items s)\<rparr>"
    by (simp add: repo_quote_delete_def)
  from 1(5) obtain e where "s2 = s1\<lparr>db_draws := Suc (Suc (db_draws s1)), db_audit := db_audit s1 @ [e]\<rparr>"
    by (rule emit_audit_Inr)
  then show ?case
    using 1(2,3,6) by (intro 1(1) [of before "db_audit s1 @ [e]" "Suc (Suc (db_draws s1))"]) (auto simp: s1 quote_get_Inr)
qed

lemma quote_delete_keeps: "quote_delete E i s = Inr (u, s') \<Longrightarrow> quotes_ok s \<Longrightarrow> quotes_ok s'"
  by (erule quote_delete_Inr) (simp add: quotes_ok_def quote_doc.del_head)

lemma quote_item_add_Inr:
  assumes "quote_item_add E new s = Inr (item, s')"
  obtains q n e where "tab_find qt_id (nqi_quote_id new) (db_quotes s) = Some q" and "qt_status q = QT_Draft"
    and "s' = s\<lparr>db_quote_items := db_quote_items s @ [item], db_draws := n, db_audit := e\<rparr>"
    and "qi_id item \<notin> qi_id ` set (db_quote_items s)" and "qi_quote_id item = nqi_quote_id new"
    and "quote_line_ok item"
  using assms unfolding quote_item_add_def Let_def now_iso_eq new_id_eq prod.case
proof (elim attempt_pairE case_pairE attempt_InrE guard_then, goal_cases)
  case (1 q v w d p s3 s4)
  from 1(9) have s3: "s3 = s\<lparr>db_draws := Suc (Suc (db_draws s)), db_quote_items := db_quote_items s @ [item]\<rparr>"
    and ok: "qi_id item \<notin> qi_id ` set (db_quote_items s)" "quote_line_ok item"
    using 1(11) by (auto simp: quote_item_insert_def constrain_Inr has_iff quote_line_ok_def)
  from 1(10) obtain e where "s4 = s3\<lparr>db_draws := Suc (Suc (db_draws s3)), db_audit := db_audit s3 @ [e]\<rparr>"
    by (rule emit_audit_Inr)
  moreover have q: "tab_find qt_id (nqi_quote_id new) (db_quotes s) = Some q" using 1(2) by (simp add: quote_get_Inr)
  ultimately show ?case
    using tab_find_Some [OF q] 1(3,11) by (intro 1(1) [OF q _ _ ok(1) _ ok(2), of "db_audit s3 @ [e]" "Suc (Suc (db_draws s3))"])
      (auto simp: s3)
qed

lemma quote_item_add_keeps: "quote_item_add E new s = Inr (item, s') \<Longrightarrow> quotes_ok s \<Longrightarrow> quotes_ok s'"
  by (erule quote_item_add_Inr) (simp add: quotes_ok_def quote_doc.add_line)

lemma draft_quote_item_Inr:
  "draft_quote_item s i refusal = Inr (before, q) \<longleftrightarrow> tab_find qi_id i (db_quote_items s) = Some before
     \<and> tab_find qt_id (qi_quote_id before) (db_quotes s) = Some q \<and> qt_status q = QT_Draft"
  by (auto simp: draft_quote_item_def quote_item_get_def quote_get_Inr res_simps)

definition same_quote_line :: "quote_item \<Rightarrow> quote_item \<Rightarrow> bool" where
  "same_quote_line a b \<longleftrightarrow> qi_id b = qi_id a \<and> qi_quote_id b = qi_quote_id a \<and> qi_book_id b = qi_book_id a
     \<and> qi_variant_id b = qi_variant_id a \<and> qi_line_order b = qi_line_order a \<and> qi_created_at b = qi_created_at a"

lemma patch_quote_item_same:
  assumes "patch_quote_item before patch = Inr after"
  shows "same_quote_line before after"
proof -
  have "same_quote_line before before" by (simp add: same_quote_line_def)
  with assms show ?thesis
    unfolding patch_quote_item_def
    by (elim if_some_then [where P = "same_quote_line before"] if_some_end [where P = "same_quote_line before"])
      (auto simp: guard_eq_Inr same_quote_line_def)
qed

lemma quote_item_update_Inr:
  assumes "quote_item_update E i patch s = Inr (after, s')" and d: "distinct (map qi_id (db_quote_items s))"
  obtains before q n e where "tab_find qi_id i (db_quote_items s) = Some before"
    and "tab_find qt_id (qi_quote_id before) (db_quotes s) = Some q" and "qt_status q = QT_Draft"
    and "same_quote_line before after" and "quote_line_ok after"
    and "s' = s\<lparr>db_quote_items := tab_put qi_id after (db_quote_items s), db_draws := n, db_audit := e\<rparr>"
  using assms(1) unfolding quote_item_update_def Let_def now_iso_eq prod.case
proof (elim attempt_pairE attempt_InrE, goal_cases)
  case (1 before q patched s2 s3)
  note draft = 1(2) [unfolded draft_quote_item_Inr]
  have same: "same_quote_line before after" using patch_quote_item_same [OF 1(3)] 1(6) by (auto simp: same_quote_line_def)
  have id: "qi_id after = i" using same draft by (auto simp: same_quote_line_def dest: tab_find_Some)
  have "has qi_id (qi_id after) (db_quote_items s)" using draft id by (auto intro: tab_find_has)
  moreover have "before\<lparr>qi_description := qi_description after, qi_quantity := qi_quantity after,
      qi_unit_price_minor := qi_unit_price_minor after, qi_tax_rate_bps := qi_tax_rate_bps after,
      qi_updated_at := qi_updated_at after\<rparr> = after"
    using same by (cases before; cases after) (simp add: same_quote_line_def)
  moreover have "tab_find qi_id (qi_id after) (db_quote_items s) = Some before" using draft id by simp
  ultimately have s2: "s2 = s\<lparr>db_draws := Suc (db_draws s), db_quote_items := tab_put qi_id after (db_quote_items s)\<rparr>"
    and ok: "quote_line_ok after"
    using 1(4,6) map_if_put [OF d, of after before "\<lambda>r. r\<lparr>qi_description := qi_description after,
        qi_quantity := qi_quantity after, qi_unit_price_minor := qi_unit_price_minor after,
        qi_tax_rate_bps := qi_tax_rate_bps after, qi_updated_at := qi_updated_at after\<rparr>"]
    by (auto simp: repo_quote_item_update_def constrain_Inr quote_line_ok_def)
  from 1(5) obtain e where "s3 = s2\<lparr>db_draws := Suc (Suc (db_draws s2)), db_audit := db_audit s2 @ [e]\<rparr>"
    by (rule emit_audit_Inr)
  then show ?case
    using draft 1(6) by (intro 1(1) [OF _ _ _ same ok, of q "db_audit s2 @ [e]" "Suc (Suc (db_draws s2))"])
      (auto simp: s2)
qed

lemma quote_item_update_keeps:
  assumes "quote_item_update E i patch s = Inr (after, s')" and "quotes_ok s"
  shows "quotes_ok s'"
  using assms(1) quotes_ok_distinct(2) [OF assms(2)]
proof (rule quote_item_update_Inr)
  fix before q n e
  assume before: "tab_find qi_id i (db_quote_items s) = Some before"
    and q: "tab_find qt_id (qi_quote_id before) (db_quotes s) = Some q" "qt_status q = QT_Draft"
    and same: "same_quote_line before after" and row: "quote_line_ok after"
    and s': "s' = s\<lparr>db_quote_items := tab_put qi_id after (db_quote_items s), db_draws := n, db_audit := e\<rparr>"
  have "tab_find qi_id (qi_id after) (db_quote_items s) = Some before" and "qi_quote_id after = qi_quote_id before"
    using before same tab_find_Some [OF before] by (simp_all add: same_quote_line_def)
  from quote_doc.put_line [OF assms(2) [unfolded quotes_ok_def] this q row] show ?thesis
    by (simp add: quotes_ok_def s')
qed

lemma quote_item_remove_Inr:
  assumes "quote_item_remove E i s = Inr (u, s')"
  obtains before q n e where "tab_find qi_id i (db_quote_items s) = Some before"
    and "tab_find qt_id (qi_quote_id before) (db_quotes s) = Some q" and "qt_status q = QT_Draft"
    and "s' = s\<lparr>db_quote_items := tab_del qi_id i (db_quote_items s), db_draws := n, db_audit := e\<rparr>"
  using assms unfolding quote_item_remove_def
proof (elim attempt_pairE attempt_InrE, goal_cases)
  case (1 before q b s1 s2)
  from 1(3) have s1: "s1 = s\<lparr>db_quote_items := tab_del qi_id i (db_quote_items s)\<rparr>"
    by (simp add: quote_item_delete_def)
  from 1(4) obtain e where "s2 = s1\<lparr>db_draws := Suc (Suc (db_draws s1)), db_audit := db_audit s1 @ [e]\<rparr>"
    by (rule emit_audit_Inr)
  then show ?case
    using 1(2) [unfolded draft_quote_item_Inr] 1(5)
    by (intro 1(1) [of before q "db_audit s1 @ [e]" "Suc (Suc (db_draws s1))"]) (auto simp: s1)
qed

lemma quote_item_remove_keeps:
  assumes "quote_item_remove E i s = Inr (u, s')" and "quotes_ok s"
  shows "quotes_ok s'"
  using assms(1)
  by (rule quote_item_remove_Inr)
    (use quote_doc.del_line [OF assms(2) [unfolded quotes_ok_def]] in \<open>auto simp: quotes_ok_def\<close>)

text \<open>The three changes of status that touch the quote alone.\<close>

lemma quote_send_keeps:
  assumes "quote_send E i s = Inr (q, s')" and "quotes_ok s"
  shows "quotes_ok s' \<and> qt_status q = QT_Sent \<and> tab_find qt_id i (db_quotes s') = Some q
    \<and> (\<exists>before n e. tab_find qt_id i (db_quotes s) = Some before \<and> qt_status before = QT_Draft \<and> same_quote before q
        \<and> quote_item_list s i \<noteq> [] \<and> s' = s\<lparr>db_quotes := tab_put qt_id q (db_quotes s), db_draws := n, db_audit := e\<rparr>)"
  using assms(1) unfolding quote_send_def Let_def now_iso_eq prod.case quote_items_list_def
proof (elim attempt_InrE guard_then, goal_cases)
  case (1 before)
  have before: "tab_find qt_id i (db_quotes s) = Some before" using 1(1) by (simp add: quote_get_Inr)
  let ?after = "before\<lparr>qt_status := QT_Sent, qt_sent_at := Some (e_now E (db_draws s)), qt_updated_at := e_now E (db_draws s)\<rparr>"
  have "filter (\<lambda>x. qi_quote_id x = qt_id before) (db_quote_items s) \<noteq> []"
    using 1(3) tab_find_Some [OF before] quote_item_list_Nil [of s i] by simp
  then have "quote_ok (db_quote_items s) ?after"
    using quotes_ok_row [OF assms(2) before] 1(2) by (simp add: quote_ok_def quote_stamps_ok_def)
  from store_quote_keeps [OF 1(4) assms(2) before _ this] show ?case using 1(2,3) before by auto
qed

lemma quote_decline_keeps:
  assumes "quote_decline E i s = Inr (q, s')" and "quotes_ok s"
  shows "quotes_ok s' \<and> qt_status q = QT_Declined \<and> tab_find qt_id i (db_quotes s') = Some q
    \<and> (\<exists>before n e. tab_find qt_id i (db_quotes s) = Some before \<and> qt_status before = QT_Sent \<and> same_quote before q
        \<and> s' = s\<lparr>db_quotes := tab_put qt_id q (db_quotes s), db_draws := n, db_audit := e\<rparr>)"
  using assms(1) unfolding quote_decline_def Let_def now_iso_eq prod.case
proof (elim attempt_InrE guard_then, goal_cases)
  case (1 before)
  have before: "tab_find qt_id i (db_quotes s) = Some before" using 1(1) by (simp add: quote_get_Inr)
  let ?after = "before\<lparr>qt_status := QT_Declined, qt_declined_at := Some (e_now E (db_draws s)), qt_updated_at := e_now E (db_draws s)\<rparr>"
  have "quote_ok (db_quote_items s) ?after"
    using quotes_ok_row [OF assms(2) before] 1(2) by (simp add: quote_ok_def quote_stamps_ok_def)
  from store_quote_keeps [OF 1(3) assms(2) before _ this] show ?case using 1(2) before by auto
qed

lemma quote_expire_keeps:
  assumes "quote_expire E i s = Inr (q, s')" and "quotes_ok s"
  shows "quotes_ok s' \<and> qt_status q = QT_Expired \<and> tab_find qt_id i (db_quotes s') = Some q
    \<and> (\<exists>before n e. tab_find qt_id i (db_quotes s) = Some before \<and> qt_status before = QT_Sent \<and> same_quote before q
        \<and> s' = s\<lparr>db_quotes := tab_put qt_id q (db_quotes s), db_draws := n, db_audit := e\<rparr>)"
  using assms(1) unfolding quote_expire_def Let_def now_iso_eq prod.case
proof (elim attempt_InrE guard_then, goal_cases)
  case (1 before)
  have before: "tab_find qt_id i (db_quotes s) = Some before" using 1(1) by (simp add: quote_get_Inr)
  let ?after = "before\<lparr>qt_status := QT_Expired, qt_expired_at := Some (e_now E (db_draws s)), qt_updated_at := e_now E (db_draws s)\<rparr>"
  have "quote_ok (db_quote_items s) ?after"
    using quotes_ok_row [OF assms(2) before] 1(2) by (simp add: quote_ok_def quote_stamps_ok_def)
  from store_quote_keeps [OF 1(3) assms(2) before _ this] show ?case using 1(2) before by auto
qed

section \<open>Accepting\<close>

definition copied_as :: "sales_order \<Rightarrow> string \<Rightarrow> nat \<times> quote_item \<Rightarrow> sales_order_item \<Rightarrow> bool" where
  "copied_as order now l x \<longleftrightarrow> x = copied_line (soi_id x) order now (fst l) (snd l)"

lemma copy_lines_Inr:
  "for_each (copy_line E order now) (enumerate k items) s = Inr s' \<Longrightarrow> orders_ok s \<Longrightarrow>
     tab_find so_id (so_id order) (db_orders s) = Some order \<Longrightarrow> so_status order = SO_Draft \<Longrightarrow>
     orders_ok s' \<and> (\<exists>new n. s' = s\<lparr>db_order_items := db_order_items s @ new, db_draws := n\<rparr>
       \<and> list_all2 (copied_as order now) (enumerate k items) new)"
proof (induction items arbitrary: k s)
  case Nil
  then have "s' = s" by simp
  with Nil.prems show ?case by (intro conjI exI [of _ "[]"] exI [of _ "db_draws s"]) simp_all
next
  case (Cons item items)
  let ?x = "copied_line (e_id E (db_draws s)) order now k item"
  from Cons.prems(1) obtain t where step: "copy_line E order now (k, item) s = Inr t"
    and rest: "for_each (copy_line E order now) (enumerate (Suc k) items) t = Inr s'"
    by (auto simp: attempt_eq_Inr)
  have t: "t = s\<lparr>db_order_items := db_order_items s @ [?x], db_draws := Suc (db_draws s)\<rparr>"
    and x: "soi_id ?x \<notin> soi_id ` set (db_order_items s)" "order_line_ok ?x"
    using step by (auto simp: copy_line_def order_item_insert_def constrain_Inr has_iff order_line_ok_def)
  have "soi_sales_order_id ?x = so_id order" by (simp add: copied_line_def)
  then have ok: "orders_ok t"
    using Cons.prems(2-4) x unfolding orders_ok_def t by (simp add: order_doc.add_line)
  have "tab_find so_id (so_id order) (db_orders t) = Some order" using Cons.prems(3) by (simp add: t)
  from Cons.IH [OF rest ok this Cons.prems(4)] obtain new n where ok': "orders_ok s'"
    and s': "s' = t\<lparr>db_order_items := db_order_items t @ new, db_draws := n\<rparr>"
    and new: "list_all2 (copied_as order now) (enumerate (Suc k) items) new"
    by blast
  have "s' = s\<lparr>db_order_items := db_order_items s @ (?x # new), db_draws := n\<rparr>" by (simp add: s' t)
  moreover have "list_all2 (copied_as order now) (enumerate k (item # items)) (?x # new)"
    using new by (simp add: copied_as_def copied_line_def)
  ultimately show ?case using ok' by blast
qed

text \<open>What a line offers, on a quote and on an order.\<close>

definition offers :: "quote_item \<Rightarrow> string option \<times> string \<times> int \<times> int \<times> int" where
  "offers i = (qi_variant_id i, qi_description i, qi_quantity i, qi_unit_price_minor i, qi_tax_rate_bps i)"

definition orders_line :: "sales_order_item \<Rightarrow> string option \<times> string \<times> int \<times> int \<times> int" where
  "orders_line i = (soi_variant_id i, soi_description i, soi_quantity i, soi_unit_price_minor i, soi_tax_rate_bps i)"

lemma copied_lines:
  "list_all2 (copied_as order now) (enumerate k items) new \<Longrightarrow>
     map orders_line new = map offers items
     \<and> (\<forall>x \<in> set new. soi_sales_order_id x = so_id order \<and> int k \<le> soi_line_order x)
     \<and> sorted (map (\<lambda>i. (soi_line_order i, soi_created_at i, soi_id i)) new)"
proof (induction items arbitrary: k new)
  case Nil
  then show ?case by simp
next
  case (Cons item items)
  then obtain x rest where new: "new = x # rest" and x: "copied_as order now (k, item) x"
    and rest: "list_all2 (copied_as order now) (enumerate (Suc k) items) rest"
    by (auto simp: list_all2_Cons1)
  from x have fields: "soi_line_order x = int k" "soi_sales_order_id x = so_id order" "orders_line x = offers item"
    by (cases x; simp add: copied_as_def copied_line_def orders_line_def offers_def)+
  show ?case using Cons.IH [OF rest] fields by (fastforce simp: new less_eq_prod_def)
qed

lemma order_lines_of_new:
  assumes "list_all2 (copied_as order now) (enumerate 0 items) new"
    and "\<forall>x \<in> set (db_order_items s). soi_sales_order_id x \<noteq> so_id order"
    and "db_order_items s' = db_order_items s @ new"
  shows "map orders_line (order_item_list s' (so_id order)) = map offers items"
    and "j \<noteq> so_id order \<Longrightarrow> order_item_list s' j = order_item_list s j"
proof -
  note c = copied_lines [OF assms(1)]
  have "filter (\<lambda>i. soi_sales_order_id i = so_id order) (db_order_items s') = new"
    using assms(2) c by (simp add: assms(3) filter_id_conv filter_empty_conv)
  then have "order_item_list s' (so_id order) = new"
    using c by (simp add: order_item_list_def sort_key_id_if_sorted)
  then show "map orders_line (order_item_list s' (so_id order)) = map offers items" using c by simp
  have "filter (\<lambda>i. soi_sales_order_id i = j) new = []" if "j \<noteq> so_id order"
    using that c by (auto simp: filter_empty_conv)
  then show "j \<noteq> so_id order \<Longrightarrow> order_item_list s' j = order_item_list s j"
    by (simp add: order_item_list_def assms(3))
qed

lemma totals_of_lines:
  "map orders_line (order_item_list s' k) = map offers (quote_item_list s i) \<Longrightarrow> order_totals s' k = repo_quote_totals s i"
proof -
  assume eq: "map orders_line (order_item_list s' k) = map offers (quote_item_list s i)"
  let ?t = "\<lambda>(v :: string option, d :: string, q :: int, p :: int, r :: int). (q, p, r)"
  have "map ?t (map orders_line (order_item_list s' k)) = map ?t (map offers (quote_item_list s i))" by (simp only: eq)
  then show "order_totals s' k = repo_quote_totals s i"
    by (simp add: order_totals_def repo_quote_totals_def orders_line_def offers_def comp_def)
qed

lemma quote_accept_effect:
  assumes "quote_accept E i s = Inr (order, s')" and "orders_ok s" and "quotes_ok s"
  obtains before after new s2 n0 n e where "tab_find qt_id i (db_quotes s) = Some before" and "qt_status before = QT_Sent"
    and "allocate_number (qt_book_id before) ''sales_order'' (s\<lparr>db_draws := n0\<rparr>) = Inr (so_number order, s2)"
    and "so_status order = SO_Draft" and "so_book_id order = qt_book_id before"
    and "so_contact_id order = qt_contact_id before" and "so_currency order = qt_currency before"
    and "so_id order \<notin> so_id ` set (db_orders s)"
    and "after = before\<lparr>qt_status := QT_Accepted, qt_accepted_at := Some (e_now E (db_draws s)),
           qt_converted_sales_order_id := Some (so_id order), qt_updated_at := e_now E (db_draws s)\<rparr>"
    and "s' = s2\<lparr>db_orders := db_orders s @ [order], db_order_items := db_order_items s @ new,
           db_quotes := tab_put qt_id after (db_quotes s), db_draws := n, db_audit := e\<rparr>"
    and "list_all2 (copied_as order (e_now E (db_draws s))) (enumerate 0 (quote_item_list s i)) new"
    and "tab_find qt_id i (db_quotes s') = Some after" and "orders_ok s'" and "quotes_ok s'"
  using assms(1) unfolding quote_accept_def Let_def now_iso_eq new_id_eq today_eq prod.case quote_items_list_def
proof (elim attempt_pairE attempt_InrE guard_then, goal_cases)
  case (1 before number s2 s5 s6 q s7 s8)
  have before: "tab_find qt_id i (db_quotes s) = Some before" using 1(2) by (simp add: quote_get_Inr)
  have sent: "qt_status before = QT_Sent" using 1(3) by blast
  have order: "so_number order = number" "so_status order = SO_Draft" "so_book_id order = qt_book_id before"
    "so_contact_id order = qt_contact_id before" "so_currency order = qt_currency before" "stamps_ok order"
    using 1(10) by (auto simp: stamps_ok_def)
  have oid: "so_id order = e_id E (db_draws s2)" using 1(10) by auto
  from 1(5) obtain seqs where s2: "s2 = s\<lparr>db_draws := Suc (db_draws s), db_sequences := seqs\<rparr>"
    by (rule allocate_number_Inr)
  have s5: "s5 = s2\<lparr>db_draws := Suc (Suc (db_draws s2)), db_orders := db_orders s @ [order]\<rparr>"
    and fresh: "so_id order \<notin> so_id ` set (db_orders s)"
    using 1(6,10) by (auto simp: order_insert_def constrain_Inr has_iff s2)
  have "order_ok (db_order_items s) order" using order by (simp add: order_ok_def settled_def)
  then have ok5: "orders_ok s5" using assms(2) fresh unfolding orders_ok_def s5 s2 by (simp add: order_doc.add_head)
  have found: "tab_find so_id (so_id order) (db_orders s5) = Some order" using fresh by (simp add: s5)
  have loop: "for_each (copy_line E order (e_now E (db_draws s))) (enumerate 0 (quote_item_list s i)) s5 = Inr s6"
    using 1(7,10) by auto
  from copy_lines_Inr [OF loop ok5 found order(2)] obtain new n1 where ok6: "orders_ok s6"
    and s6: "s6 = s5\<lparr>db_order_items := db_order_items s @ new, db_draws := n1\<rparr>"
    and new: "list_all2 (copied_as order (e_now E (db_draws s))) (enumerate 0 (quote_item_list s i)) new"
    by (auto simp: s5 s2)
  let ?after = "before\<lparr>qt_status := QT_Accepted, qt_accepted_at := Some (e_now E (db_draws s)),
      qt_converted_sales_order_id := Some (so_id order), qt_updated_at := e_now E (db_draws s)\<rparr>"
  have quotes6: "db_quotes s6 = db_quotes s" "db_quote_items s6 = db_quote_items s" by (simp_all add: s6 s5 s2)
  have qok6: "quotes_ok s6" using assms(3) quotes6 by (rule quotes_ok_frame)
  have b6: "tab_find qt_id i (db_quotes s6) = Some before" by (simp add: quotes6 before)
  have "quote_ok (db_quote_items s6) ?after"
    using quotes_ok_row [OF qok6 b6] sent by (simp add: quote_ok_def quote_stamps_ok_def)
  note row = this
  have call: "store_quote E i ''accept'' before ?after (s6\<lparr>db_draws := db_draws s6\<rparr>) = Inr (q, s7)"
    using 1(8) oid by simp
  have same: "same_quote before ?after" by (simp add: same_quote_def)
  note stored = store_quote_keeps [OF call qok6 b6 same row]
  have qok7: "quotes_ok s7" and found7: "tab_find qt_id i (db_quotes s7) = Some ?after"
    by (rule stored(2), rule stored(3))
  from stored(4) obtain n e where s7: "s7 = s6\<lparr>db_quotes := tab_put qt_id ?after (db_quotes s6), db_draws := n, db_audit := e\<rparr>"
    by metis
  from 1(9) obtain en where s8: "s8 = s7\<lparr>db_draws := Suc (Suc (db_draws s7)), db_audit := db_audit s7 @ [en]\<rparr>"
    by (rule emit_audit_Inr)
  have s'_eq: "s' = s2\<lparr>db_orders := db_orders s @ [order], db_order_items := db_order_items s @ new,
      db_quotes := tab_put qt_id ?after (db_quotes s), db_draws := Suc (Suc n), db_audit := e @ [en]\<rparr>"
    using 1(10) by (simp add: s8 s7 s6 s5 s2)
  have "orders_ok s'" using ok6 by (rule orders_ok_frame) (simp_all add: s'_eq s6 s5)
  moreover have "quotes_ok s'" using qok7 by (rule quotes_ok_frame) (simp_all add: s'_eq s7 quotes6 s2)
  moreover have "tab_find qt_id i (db_quotes s') = Some ?after" using found7 by (simp add: s'_eq s7 quotes6)
  ultimately show ?case
    using 1(1) [OF before sent _ order(2-5) fresh refl s'_eq new] 1(5) order(1) by simp
qed

text \<open>
  \<^bold>\<open>C29.\<close> Accepting a quote creates one draft order that is the quote: the same customer, currency
  and lines in the same order, so the same totals to the cent. The quote keeps its lines, is
  marked accepted with the order it became, and cannot be accepted, declined or expired again;
  no other order changes.
\<close>

theorem accept_copies_quote:
  assumes "orders_ok s" and "quotes_ok s" and "quote_accept E i s = Inr (order, s')"
  shows "\<exists>before after. quote_get s i = Inr before \<and> qt_status before = QT_Sent
    \<and> sales_order_get s' (so_id order) = Inr order \<and> so_status order = SO_Draft
    \<and> so_book_id order = qt_book_id before \<and> so_contact_id order = qt_contact_id before
    \<and> so_currency order = qt_currency before
    \<and> map orders_line (sales_order_items_list s' (so_id order)) = map offers (quote_items_list s i)
    \<and> sales_order_totals_of s' (so_id order) = quote_totals s i
    \<and> quote_get s' i = Inr after \<and> qt_converted_sales_order_id after = Some (so_id order)
    \<and> quote_items_list s' i = quote_items_list s i
    \<and> (\<forall>r \<in> set (db_orders s). sales_order_get s' (so_id r) = Inr r
         \<and> sales_order_items_list s' (so_id r) = sales_order_items_list s (so_id r))
    \<and> orders_ok s' \<and> quotes_ok s'
    \<and> (\<forall>E'. quote_accept E' i s' = Inl (InvalidStatusTransition ''accepted'' ''accepted'')
         \<and> quote_decline E' i s' = Inl (InvalidStatusTransition ''accepted'' ''declined'')
         \<and> quote_expire E' i s' = Inl (InvalidStatusTransition ''accepted'' ''expired''))"
  using assms(3,1,2)
proof (rule quote_accept_effect)
  fix before after new s2 n0 n e
  assume before: "tab_find qt_id i (db_quotes s) = Some before" "qt_status before = QT_Sent"
    and alloc: "allocate_number (qt_book_id before) ''sales_order'' (s\<lparr>db_draws := n0\<rparr>) = Inr (so_number order, s2)"
    and order: "so_status order = SO_Draft" "so_book_id order = qt_book_id before"
      "so_contact_id order = qt_contact_id before" "so_currency order = qt_currency before"
    and fresh: "so_id order \<notin> so_id ` set (db_orders s)"
    and after: "after = before\<lparr>qt_status := QT_Accepted, qt_accepted_at := Some (e_now E (db_draws s)),
           qt_converted_sales_order_id := Some (so_id order), qt_updated_at := e_now E (db_draws s)\<rparr>"
    and s': "s' = s2\<lparr>db_orders := db_orders s @ [order], db_order_items := db_order_items s @ new,
           db_quotes := tab_put qt_id after (db_quotes s), db_draws := n, db_audit := e\<rparr>"
    and new: "list_all2 (copied_as order (e_now E (db_draws s))) (enumerate 0 (quote_item_list s i)) new"
    and found: "tab_find qt_id i (db_quotes s') = Some after" and ok: "orders_ok s'" "quotes_ok s'"
  from alloc obtain seqs where s2: "s2 = s\<lparr>db_draws := n0, db_sequences := seqs\<rparr>"
    by (rule allocate_number_Inr)
  have old: "\<forall>x \<in> set (db_order_items s). soi_sales_order_id x \<noteq> so_id order"
    using order_doc.okD(3) [OF assms(1) [unfolded orders_ok_def]] fresh by metis
  have "db_order_items s' = db_order_items s @ new" by (simp add: s')
  note lines = order_lines_of_new [OF new old this]
  have get: "sales_order_get s' (so_id order) = Inr order" using fresh by (simp add: sales_order_get_Inr s')
  have others: "sales_order_get s' (so_id r) = Inr r \<and> sales_order_items_list s' (so_id r) = sales_order_items_list s (so_id r)"
    if r: "r \<in> set (db_orders s)" for r
  proof -
    have "so_id r \<noteq> so_id order" using r fresh by (metis image_eqI)
    moreover have "tab_find so_id (so_id r) (db_orders s) = Some r"
      using orders_ok_distinct(1) [OF assms(1)] r by (rule tab_find_distinct)
    ultimately show ?thesis using lines(2) by (simp add: sales_order_get_Inr s' sales_order_items_list_def)
  qed
  have "sales_order_totals_of s' (so_id order) = quote_totals s i"
    using get before totals_of_lines [OF lines(1)] by (simp add: sales_order_totals_of_def quote_totals_def quote_get_Inr
        quote_get_def repo_quote_get_def)
  moreover have "quote_items_list s' i = quote_items_list s i" by (simp add: quote_items_list_def quote_item_list_def s' s2)
  moreover have q: "quote_get s' i = Inr after" using found by (simp add: quote_get_Inr)
  have "quote_accept E' i s' = Inl (InvalidStatusTransition ''accepted'' ''accepted'')
      \<and> quote_decline E' i s' = Inl (InvalidStatusTransition ''accepted'' ''declined'')
      \<and> quote_expire E' i s' = Inl (InvalidStatusTransition ''accepted'' ''expired'')" for E'
    by (simp add: quote_accept_def quote_decline_def quote_expire_def q after)
  ultimately show ?thesis
    using before order get lines(1) q others ok
    by (simp add: quote_get_Inr sales_order_items_list_def quote_items_list_def after)
qed

text \<open>A sent quote of two lines.\<close>

definition sample_quote :: quote where
  "sample_quote = \<lparr>qt_id = ''q'', qt_book_id = ''b'', qt_contact_id = ''k'', qt_number = 1,
     qt_quote_date = ''2026-02-20'', qt_expiry_date = Some ''2026-03-20'', qt_status = QT_Sent,
     qt_currency = ''ZAR'', qt_notes = None, qt_sent_at = Some ''2026'', qt_accepted_at = None,
     qt_declined_at = None, qt_expired_at = None, qt_converted_sales_order_id = None,
     qt_created_at = ''2026'', qt_updated_at = ''2026''\<rparr>"

definition sample_quote_line :: "string \<Rightarrow> string option \<Rightarrow> int \<Rightarrow> int \<Rightarrow> int \<Rightarrow> quote_item" where
  "sample_quote_line i v q p n = \<lparr>qi_id = i, qi_quote_id = ''q'', qi_book_id = ''b'', qi_variant_id = v,
     qi_description = i, qi_quantity = q, qi_unit_price_minor = p, qi_tax_rate_bps = 1500,
     qi_line_order = n, qi_created_at = ''2026'', qi_updated_at = ''2026''\<rparr>"

definition sample_quoted :: db where
  "sample_quoted = sample_db\<lparr>db_quotes := [sample_quote],
     db_quote_items := [sample_quote_line ''x2'' None 1 500 1, sample_quote_line ''x1'' (Some ''v1'') 3 1000 0]\<rparr>"

definition sample_accepted :: "(sales_order \<times> db) res" where
  "sample_accepted = quote_accept sample_env ''q'' sample_quoted"

lemma accept_copies_quote_witness:
  "map orders_line (sales_order_items_list (db_of sample_accepted) (so_id (out_of sample_accepted)))
     = [(Some ''v1'', ''x1'', 3, 1000, 1500), (None, ''x2'', 1, 500, 1500)]"
proof -
  have "ran sample_accepted \<noteq> None" by code_simp
  note accepted = run_witness [OF this, unfolded sample_accepted_def]
  have ok: "orders_ok sample_quoted" "quotes_ok sample_quoted" by code_simp+
  have "map offers (quote_items_list sample_quoted ''q'') = [(Some ''v1'', ''x1'', 3, 1000, 1500), (None, ''x2'', 1, 500, 1500)]"
    by code_simp
  then show ?thesis
    using accept_copies_quote [OF ok accepted] by (auto simp: sample_accepted_def)
qed

end
