(* ===== verification/Invoicing.thy ===== *)
theory Invoicing
  imports Order_Lifecycle
begin

text \<open>
  Invoices (the section ``Invoices'' of \<^verbatim>\<open>service.rs\<close>): an invoice is issued whole, from a confirmed
  or paid order or on its own, takes the next number of its series and is never changed; payments
  are facts recorded against it, and its status is derived from them.
\<close>

section \<open>What an invoice will say\<close>

type_synonym billed_line = "string option \<times> string \<times> int \<times> int \<times> int"

record resolved_invoice =
  rsi_issue_date :: string
  rsi_due_date :: string
  rsi_series :: string
  rsi_contact_id :: string
  rsi_currency :: string
  rsi_sales_order_id :: "string option"
  rsi_notes :: "string option"
  rsi_lines :: "billed_line list"

definition bills :: "sales_order_item \<Rightarrow> billed_line" where
  "bills i = (soi_variant_id i, soi_description i, soi_quantity i, soi_unit_price_minor i, soi_tax_rate_bps i)"

definition bill_order ::
    "db \<Rightarrow> book \<Rightarrow> string \<Rightarrow> (string \<times> string \<times> string option \<times> billed_line list) res" where
  "bill_order s book order_id =
     attempt (sales_order_get s order_id) (\<lambda>order.
       if so_book_id order \<noteq> bk_id book
       then Inl (Validation ''invoice sales order belongs to a different book'')
       else if \<not> (so_status order = SO_Confirmed \<or> so_status order = SO_Paid)
       then Inl (Validation
              ''cannot issue an invoice from a sales order that is not confirmed or paid'')
       else
         let items = sales_order_items_list s order_id in
         if items = [] then Inl (Validation ''cannot issue an invoice with no line items'')
         else Inr (so_contact_id order, so_currency order, Some (so_id order), map bills items))"

definition bill_item :: "db \<Rightarrow> book \<Rightarrow> new_invoice_item_input \<Rightarrow> billed_line res" where
  "bill_item s book item =
     attempt (resolve_sales_order_line s (bk_id book) (nii_variant_id item)
         (Some (nii_description item)) (Some (nii_unit_price_minor item)))
       (\<lambda>(variant_id, description, unit_price_minor).
       if nii_quantity item \<le> 0 then Inl (Validation ''invoice line quantity must be positive'')
       else if unit_price_minor < 0
       then Inl (Validation ''invoice line unit price must not be negative'')
       else
         let tax_rate_bps = (case nii_tax_rate_bps item of None \<Rightarrow> 0 | Some r \<Rightarrow> r) in
         if \<not> rate_ok tax_rate_bps
         then Inl (Validation ''invoice line tax rate must be between 0 and 10000 basis points'')
         else Inr (variant_id, description, nii_quantity item, unit_price_minor, tax_rate_bps))"

definition bill_standalone ::
    "db \<Rightarrow> book \<Rightarrow> new_invoice \<Rightarrow> (string \<times> string \<times> string option \<times> billed_line list) res" where
  "bill_standalone s book new =
     attempt (ok_or (niv_contact_id new) (Validation ''a standalone invoice needs a contact_id'')) (\<lambda>contact_id.
     attempt (contact_get s contact_id) (\<lambda>contact.
       if ct_book_id contact \<noteq> bk_id book
       then Inl (Validation ''invoice contact belongs to a different book'')
       else attempt (currency_or (niv_currency new) (bk_currency book)) (\<lambda>currency.
         if niv_items new = []
         then Inl (Validation ''a standalone invoice needs at least one line item'')
         else attempt (map_res (bill_item s book) (niv_items new)) (\<lambda>lines.
           Inr (ct_id contact, currency, None, lines)))))"

text \<open>Everything that is read before the transaction is opened.\<close>

definition resolve_invoice :: "env \<Rightarrow> book \<Rightarrow> new_invoice \<Rightarrow> db \<Rightarrow> (resolved_invoice \<times> db) res" where
  "resolve_invoice E book new s =
     (let (issue_date, s1) = date_or_today E (niv_issue_date new) s in
      attempt (parse_date (e_time E) issue_date) (\<lambda>_.
      attempt (parse_date (e_time E) (niv_due_date new)) (\<lambda>_.
        if niv_due_date new < issue_date
        then Inl (Validation ''invoice due date must not be before its issue date'')
        else
          let series = trim (case niv_series new of None \<Rightarrow> ''invoice'' | Some t \<Rightarrow> t) in
          if series = [] then Inl (Validation ''invoice numbering series must not be empty'')
          else attempt (case niv_sales_order_id new of
                 Some order_id \<Rightarrow> bill_order s1 book order_id
               | None \<Rightarrow> bill_standalone s1 book new) (\<lambda>(contact_id, currency, sales_order_id, lines).
            Inr (\<lparr>rsi_issue_date = issue_date, rsi_due_date = niv_due_date new, rsi_series = series,
                  rsi_contact_id = contact_id, rsi_currency = currency,
                  rsi_sales_order_id = sales_order_id, rsi_notes = normalize_optional (niv_notes new),
                  rsi_lines = lines\<rparr>, s1)))))"

section \<open>Issuing\<close>

definition billed_row :: "string \<Rightarrow> invoice \<Rightarrow> string \<Rightarrow> nat \<Rightarrow> billed_line \<Rightarrow> invoice_item" where
  "billed_row i v now line_order l = (case l of
     (variant_id, description, quantity, unit_price_minor, tax_rate_bps) \<Rightarrow>
       \<lparr>ivi_id = i, ivi_invoice_id = iv_id v, ivi_book_id = iv_book_id v, ivi_variant_id = variant_id,
        ivi_description = description, ivi_quantity = quantity, ivi_unit_price_minor = unit_price_minor,
        ivi_tax_rate_bps = tax_rate_bps, ivi_line_order = int line_order, ivi_created_at = now\<rparr>)"

definition store_billed_line :: "env \<Rightarrow> invoice \<Rightarrow> string \<Rightarrow> nat \<times> billed_line \<Rightarrow> db \<Rightarrow> db res" where
  "store_billed_line E v now l s =
     (let (i, s1) = new_id E s in invoice_item_insert (billed_row i v now (fst l) (snd l)) s1)"

definition posted_line :: "billed_line \<Rightarrow> int \<times> int \<times> int" where
  "posted_line l = (case l of (_, _, quantity, unit_price_minor, tax_rate_bps) \<Rightarrow>
     (quantity, unit_price_minor, tax_rate_bps))"

text \<open>An order's revenue was posted when the order was confirmed; a standalone sale's is posted here.\<close>

definition recognise_sale ::
    "env \<Rightarrow> book \<Rightarrow> invoice \<Rightarrow> billed_line list \<Rightarrow> db \<Rightarrow> (posted_journal option \<times> db) res" where
  "recognise_sale E book v lines s =
     (if iv_sales_order_id v \<noteq> None then Inr (None, s)
      else post_revenue_ar_journal E book (iv_currency v) (map posted_line lines) (iv_issue_date v)
             (''Invoice '' @ iv_series v @ ''-'' @ show_int (iv_number v)) (iv_id v) JS_SalesRevenue (iv_id v) s)"

definition issue_invoice_in_tx ::
    "env \<Rightarrow> book \<Rightarrow> resolved_invoice \<Rightarrow> db \<Rightarrow> (invoice \<times> db) res" where
  "issue_invoice_in_tx E book r s =
     (let (now, s1) = now_iso E s in
      attempt (allocate_number (bk_id book) (rsi_series r) s1) (\<lambda>(number, s2).
        let (i, s3) = new_id E s2;
            v = \<lparr>iv_id = i, iv_book_id = bk_id book, iv_contact_id = rsi_contact_id r,
              iv_sales_order_id = rsi_sales_order_id r, iv_series = rsi_series r, iv_number = number,
              iv_issue_date = rsi_issue_date r, iv_due_date = rsi_due_date r,
              iv_currency = rsi_currency r, iv_notes = rsi_notes r, iv_created_at = now\<rparr>
        in attempt (invoice_insert v s3) (\<lambda>s4.
           attempt (for_each (store_billed_line E v now) (enumerate 0 (rsi_lines r)) s4) (\<lambda>s5.
           attempt (recognise_sale E book v (rsi_lines r) s5) (\<lambda>(_, s6).
           attempt (emit_audit E (Some (iv_book_id v)) ''invoice'' (Some (iv_id v)) ''issue'' None
             (Some (Snap_invoice v)) s6) (\<lambda>s7. Inr (v, s7)))))))"

definition invoice_issue :: "env \<Rightarrow> new_invoice \<Rightarrow> db \<Rightarrow> (invoice \<times> db) res" where
  "invoice_issue E new s =
     attempt (book_get s (niv_book_id new)) (\<lambda>book.
     attempt (resolve_invoice E book new s) (\<lambda>(r, s1). issue_invoice_in_tx E book r s1))"

section \<open>Reading, paying and ageing\<close>

definition invoice_get :: "db \<Rightarrow> string \<Rightarrow> invoice res" where
  "invoice_get s i = ok_or (repo_invoice_get s i) (NotFound ''invoice'' i)"

definition invoice_list :: "db \<Rightarrow> string \<Rightarrow> invoice list" where
  "invoice_list s book_id = repo_invoice_list s book_id"

definition invoice_items_list :: "db \<Rightarrow> string \<Rightarrow> invoice_item list" where
  "invoice_items_list s invoice_id = invoice_item_list s invoice_id"

definition invoice_totals_of :: "db \<Rightarrow> string \<Rightarrow> invoice_totals res" where
  "invoice_totals_of s i = attempt (invoice_get s i) (\<lambda>_. repo_invoice_totals s i)"

definition invoice_payment_record ::
    "env \<Rightarrow> new_invoice_payment \<Rightarrow> db \<Rightarrow> (invoice_payment \<times> db) res" where
  "invoice_payment_record E new s =
     attempt (invoice_get s (nip_invoice_id new)) (\<lambda>v.
       if nip_amount_minor new \<le> 0 then Inl (Validation ''invoice payment amount must be positive'')
       else attempt (book_get s (iv_book_id v)) (\<lambda>book.
         let (paid_at, s1) = date_or_today E (nip_paid_at new) s in
         attempt (parse_date (e_time E) paid_at) (\<lambda>_.
           let (i, s2) = new_id E s1;
               (created_at, s3) = now_iso E s2;
               payment = \<lparr>ip_id = i, ip_invoice_id = iv_id v, ip_book_id = iv_book_id v,
                 ip_amount_minor = nip_amount_minor new, ip_paid_at = paid_at,
                 ip_method = normalize_optional (nip_method new),
                 ip_note = normalize_optional (nip_note new), ip_created_at = created_at\<rparr>
           in attempt (invoice_payment_insert payment s3) (\<lambda>s4.
              attempt (emit_audit E (Some (ip_book_id payment)) ''invoice_payment'' (Some i) ''record''
                None (Some (Snap_payment payment)) s4) (\<lambda>s5.
              attempt (post_invoice_payment_journal E book v payment s5) (\<lambda>(_, s6).
                Inr (payment, s6)))))))"

definition invoice_payments_list :: "db \<Rightarrow> string \<Rightarrow> invoice_payment list" where
  "invoice_payments_list s invoice_id = invoice_payment_list s invoice_id"

definition report_aged_receivables ::
    "env \<Rightarrow> string \<Rightarrow> string option \<Rightarrow> db \<Rightarrow> (aged_receivables \<times> db) res" where
  "report_aged_receivables E book_id as_of s =
     attempt (book_get s book_id) (\<lambda>_.
     attempt (case as_of of
         Some d \<Rightarrow> attempt (parse_date (e_time E) d) (\<lambda>_. Inr (d, s))
       | None \<Rightarrow> Inr (today E s)) (\<lambda>(d, s1).
     attempt (aged_receivables_of E s1 book_id d) (\<lambda>report. Inr (report, s1))))"

section \<open>The invariant of invoices\<close>

definition billed_row_ok :: "invoice_item \<Rightarrow> bool" where
  "billed_row_ok i \<longleftrightarrow> line_row_ok (ivi_quantity i) (ivi_unit_price_minor i) (ivi_tax_rate_bps i)"

text \<open>Every invoice has lines.\<close>

definition billed_ok :: "invoice_item list \<Rightarrow> invoice \<Rightarrow> bool" where
  "billed_ok rows v \<longleftrightarrow> filter (\<lambda>i. ivi_invoice_id i = iv_id v) rows \<noteq> []"

definition payments_ok :: "db \<Rightarrow> bool" where
  "payments_ok s \<longleftrightarrow> distinct (map ip_id (db_payments s))
     \<and> list_all (\<lambda>p. has iv_id (ip_invoice_id p) (db_invoices s) \<and> 0 < ip_amount_minor p) (db_payments s)"

definition invoices_ok :: "db \<Rightarrow> bool" where
  "invoices_ok s \<longleftrightarrow> docs_ok iv_id ivi_id ivi_invoice_id billed_row_ok billed_ok (db_invoices s) (db_invoice_items s)
     \<and> payments_ok s"

interpretation invoice_doc: document iv_id ivi_id ivi_invoice_id billed_row_ok billed_ok "\<lambda>_. ()" "\<lambda>_. False"
proof
  fix h :: invoice and rows' rows :: "invoice_item list"
  assume "map (\<lambda>_. ()) (filter (\<lambda>l. ivi_invoice_id l = iv_id h) rows') = map (\<lambda>_. ()) (filter (\<lambda>l. ivi_invoice_id l = iv_id h) rows)"
  then have "length (filter (\<lambda>l. ivi_invoice_id l = iv_id h) rows') = length (filter (\<lambda>l. ivi_invoice_id l = iv_id h) rows)"
    by (rule map_eq_imp_length_eq)
  then show "billed_ok rows' h = billed_ok rows h" by (auto simp: billed_ok_def)
qed simp

text \<open>A document and its lines are written together.\<close>

context document
begin

lemma add_doc:
  assumes ok: "ok heads rows" and fresh: "hid h \<notin> hid ` set heads" and "distinct (map lid (rows @ new))"
    and new: "\<forall>l \<in> set new. parent l = hid h \<and> good l" and "head_ok (rows @ new) h"
  shows "ok (heads @ [h]) (rows @ new)"
proof -
  have "head_ok (rows @ new) g" if g: "g \<in> set heads" for g
  proof -
    have "filter (\<lambda>l. parent l = hid g) new = []" using new g fresh by (auto simp: filter_empty_conv)
    then have "map view (filter (\<lambda>l. parent l = hid g) (rows @ new)) = map view (filter (\<lambda>l. parent l = hid g) rows)"
      by simp
    from own_lines [OF this] show ?thesis using okD(5) [OF ok g] by blast
  qed
  then show ?thesis
    using assms okD(1,3,4) [OF ok] by (auto simp: docs_ok_def list_all_iff has_iff)
qed

end

lemma invoices_ok_frame:
  "invoices_ok s \<Longrightarrow> db_invoices s' = db_invoices s \<Longrightarrow> db_invoice_items s' = db_invoice_items s
    \<Longrightarrow> db_payments s' = db_payments s \<Longrightarrow> invoices_ok s'"
  by (simp add: invoices_ok_def payments_ok_def)

lemma invoice_get_Inr [res_simps]: "invoice_get s i = Inr v \<longleftrightarrow> tab_find iv_id i (db_invoices s) = Some v"
  by (simp add: invoice_get_def repo_invoice_get_def ok_or_eq_Inr)

section \<open>What issuing does\<close>

text \<open>The lines a request asks for, and what a billed line charges: its variant, quantity, price and rate.\<close>

definition requested :: "new_invoice_item_input \<Rightarrow> string option \<times> int \<times> int \<times> int" where
  "requested i = (nii_variant_id i, nii_quantity i, nii_unit_price_minor i,
     case nii_tax_rate_bps i of None \<Rightarrow> 0 | Some r \<Rightarrow> r)"

definition charged :: "billed_line \<Rightarrow> string option \<times> int \<times> int \<times> int" where
  "charged l = (case l of (variant, _, quantity, price, rate) \<Rightarrow> (variant, quantity, price, rate))"

lemma posted_charged: "posted_line l = snd (charged l)"
  by (simp add: posted_line_def charged_def split: prod.split)

lemma bill_item_charges: "bill_item s book i = Inr l \<Longrightarrow> charged l = requested i"
  by (auto simp: bill_item_def resolve_sales_order_line_def attempt_eq_Inr guard_eq_Inr ok_or_eq_Inr Let_def
      charged_def requested_def product_variant_get_Inr dest: tab_find_Some split: option.splits if_splits)

lemma bill_standalone_Inr:
  assumes "bill_standalone s book new = Inr (contact, currency, order_id, ls)"
  shows "order_id = None" and "ls \<noteq> []" and "niv_contact_id new = Some contact"
    and "map charged ls = map requested (niv_items new)"
proof -
  from assms obtain c lines where c: "niv_contact_id new = Some c"
    and ct: "tab_find ct_id c (db_contacts s) = Some (the (tab_find ct_id c (db_contacts s)))"
      "contact = ct_id (the (tab_find ct_id c (db_contacts s)))"
    and some: "niv_items new \<noteq> []" and lines: "map_res (bill_item s book) (niv_items new) = Inr ls"
    and "order_id = None"
    by (auto simp: bill_standalone_def attempt_eq_Inr guard_eq_Inr ok_or_eq_Inr contact_get_Inr)
  show "order_id = None" by fact
  have all2: "list_all2 (\<lambda>i l. charged l = requested i) (niv_items new) ls"
    using map_res_Inr [OF lines] by (rule list_all2_mono) (rule bill_item_charges)
  then show "map charged ls = map requested (niv_items new)" by (induction rule: list_all2_induct) simp_all
  then show "ls \<noteq> []" using some by auto
  show "niv_contact_id new = Some contact" using c ct tab_find_Some [OF ct(1)] by simp
qed

lemma resolve_invoice_Inr:
  assumes "resolve_invoice E book new s = Inr (r, s')"
  obtains n where "s' = s\<lparr>db_draws := n\<rparr>"
    and "\<And>k. niv_sales_order_id new = Some k \<Longrightarrow> \<exists>order. sales_order_get s k = Inr order
         \<and> so_book_id order = bk_id book \<and> (so_status order = SO_Confirmed \<or> so_status order = SO_Paid)
         \<and> rsi_contact_id r = so_contact_id order \<and> rsi_currency r = so_currency order
         \<and> rsi_sales_order_id r = Some k \<and> rsi_lines r = map bills (sales_order_items_list s k)"
    and "niv_sales_order_id new = None \<Longrightarrow> rsi_sales_order_id r = None
         \<and> niv_contact_id new = Some (rsi_contact_id r) \<and> map charged (rsi_lines r) = map requested (niv_items new)"
    and "rsi_lines r \<noteq> []" and "rsi_series r = trim (case niv_series new of None \<Rightarrow> ''invoice'' | Some t \<Rightarrow> t)"
proof -
  obtain d n where d: "date_or_today E (niv_issue_date new) s = (d, s\<lparr>db_draws := n\<rparr>)"
    by (rule date_or_today_draws)
  have frame: "sales_order_get (s\<lparr>db_draws := n\<rparr>) k = sales_order_get s k"
    "sales_order_items_list (s\<lparr>db_draws := n\<rparr>) k = sales_order_items_list s k" for k
    by (simp_all add: sales_order_get_def order_get_def sales_order_items_list_def order_item_list_def)
  show thesis
    using assms unfolding resolve_invoice_def d Let_def prod.case
  proof (elim attempt_InrE attempt_pairE case_pairE guard_then, goal_cases)
    case (1 u w x)
    obtain contact currency order_id ls where x: "x = (contact, currency, order_id, ls)" by (cases x)
    have r: "s' = s\<lparr>db_draws := n\<rparr>" "rsi_contact_id r = contact" "rsi_currency r = currency"
      "rsi_sales_order_id r = order_id" "rsi_lines r = ls"
      "rsi_series r = trim (case niv_series new of None \<Rightarrow> ''invoice'' | Some t \<Rightarrow> t)"
      using 1 by (auto simp: x)
    show ?case
    proof (cases "niv_sales_order_id new")
      case None
      with 1(5) have "bill_standalone (s\<lparr>db_draws := n\<rparr>) book new = Inr (contact, currency, order_id, ls)" by (simp add: x)
      from bill_standalone_Inr [OF this] show ?thesis using None r by (intro that) auto
    next
      case (Some k)
      with 1(5) have "bill_order (s\<lparr>db_draws := n\<rparr>) book k = Inr (contact, currency, order_id, ls)" by (simp add: x)
      then obtain order where order: "sales_order_get s k = Inr order" "so_book_id order = bk_id book"
          "so_status order = SO_Confirmed \<or> so_status order = SO_Paid"
        and same: "contact = so_contact_id order" "currency = so_currency order" "order_id = Some (so_id order)"
          "ls = map bills (sales_order_items_list s k)" "sales_order_items_list s k \<noteq> []"
        by (auto simp: bill_order_def attempt_eq_Inr guard_eq_Inr frame Let_def)
      have "so_id order = k" using tab_find_Some [OF order(1) [unfolded sales_order_get_Inr]] by simp
      then show ?thesis using Some r same order by (intro that) auto
    qed
  qed
qed

definition billed_as :: "invoice \<Rightarrow> string \<Rightarrow> nat \<times> billed_line \<Rightarrow> invoice_item \<Rightarrow> bool" where
  "billed_as v now l x \<longleftrightarrow> x = billed_row (ivi_id x) v now (fst l) (snd l) \<and> billed_row_ok x"

lemma store_billed_lines_Inr:
  "for_each (store_billed_line E v now) (enumerate k ls) s = Inr s' \<Longrightarrow> distinct (map ivi_id (db_invoice_items s)) \<Longrightarrow>
     \<exists>new n. s' = s\<lparr>db_invoice_items := db_invoice_items s @ new, db_draws := n\<rparr>
       \<and> distinct (map ivi_id (db_invoice_items s @ new)) \<and> list_all2 (billed_as v now) (enumerate k ls) new"
proof (induction ls arbitrary: k s)
  case Nil
  then have "s' = s" by simp
  with Nil.prems show ?case by (intro exI [of _ "[]"] exI [of _ "db_draws s"] conjI) simp_all
next
  case (Cons l ls)
  let ?x = "billed_row (e_id E (db_draws s)) v now k l"
  from Cons.prems(1) obtain t where step: "store_billed_line E v now (k, l) s = Inr t"
    and rest: "for_each (store_billed_line E v now) (enumerate (Suc k) ls) t = Inr s'"
    by (auto simp: attempt_eq_Inr)
  have t: "t = s\<lparr>db_invoice_items := db_invoice_items s @ [?x], db_draws := Suc (db_draws s)\<rparr>"
    and x: "ivi_id ?x \<notin> ivi_id ` set (db_invoice_items s)" "billed_row_ok ?x"
    using step by (auto simp: store_billed_line_def invoice_item_insert_def constrain_Inr has_iff billed_row_ok_def)
  have "distinct (map ivi_id (db_invoice_items t))" using Cons.prems(2) x(1) by (simp add: t)
  from Cons.IH [OF rest this] obtain new n where
    s': "s' = t\<lparr>db_invoice_items := db_invoice_items t @ new, db_draws := n\<rparr>"
    and d: "distinct (map ivi_id (db_invoice_items t @ new))"
    and new: "list_all2 (billed_as v now) (enumerate (Suc k) ls) new"
    by blast
  have "s' = s\<lparr>db_invoice_items := db_invoice_items s @ (?x # new), db_draws := n\<rparr>" by (simp add: s' t)
  moreover have "billed_as v now (k, l) ?x"
    using x(2) by (simp add: billed_as_def) (simp add: billed_row_def split: prod.splits)
  then have "list_all2 (billed_as v now) (enumerate k (l # ls)) (?x # new)" using new by simp
  moreover have "distinct (map ivi_id (db_invoice_items s @ (?x # new)))" using d by (simp add: t)
  ultimately show ?case by blast
qed

text \<open>What a stored line bills, and the stored lines of one invoice.\<close>

definition bill_of :: "invoice_item \<Rightarrow> billed_line" where
  "bill_of i = (ivi_variant_id i, ivi_description i, ivi_quantity i, ivi_unit_price_minor i, ivi_tax_rate_bps i)"

lemma billed_lines:
  "list_all2 (billed_as v now) (enumerate k ls) new \<Longrightarrow>
     map bill_of new = ls \<and> length new = length ls
     \<and> (\<forall>x \<in> set new. ivi_invoice_id x = iv_id v \<and> billed_row_ok x \<and> int k \<le> ivi_line_order x)
     \<and> sorted (map (\<lambda>i. (ivi_line_order i, ivi_created_at i, ivi_id i)) new)"
proof (induction ls arbitrary: k new)
  case Nil
  then show ?case by simp
next
  case (Cons l ls)
  then obtain x rest where new: "new = x # rest" and x: "billed_as v now (k, l) x"
    and rest: "list_all2 (billed_as v now) (enumerate (Suc k) ls) rest"
    by (auto simp: list_all2_Cons1)
  from x have fields: "ivi_line_order x = int k" "ivi_invoice_id x = iv_id v" "bill_of x = l" "billed_row_ok x"
    by (cases x; cases l; simp add: billed_as_def billed_row_def bill_of_def)+
  show ?case using Cons.IH [OF rest] fields by (fastforce simp: new less_eq_prod_def)
qed

lemma invoice_lines_of_new:
  assumes new: "list_all2 (billed_as v now) (enumerate 0 ls) new" and ok: "invoices_ok s"
    and fresh: "iv_id v \<notin> iv_id ` set (db_invoices s)" and s': "db_invoice_items s' = db_invoice_items s @ new"
  shows "map bill_of (invoice_item_list s' (iv_id v)) = ls"
    and "j \<noteq> iv_id v \<Longrightarrow> invoice_item_list s' j = invoice_item_list s j"
proof -
  note b = billed_lines [OF new]
  have "\<forall>x \<in> set (db_invoice_items s). ivi_invoice_id x \<noteq> iv_id v"
    using invoice_doc.okD(3) ok fresh unfolding invoices_ok_def by metis
  then have "filter (\<lambda>i. ivi_invoice_id i = iv_id v) (db_invoice_items s') = new"
    using b by (simp add: s' filter_id_conv filter_empty_conv)
  then have "invoice_item_list s' (iv_id v) = new"
    using b by (simp add: invoice_item_list_def sort_key_id_if_sorted)
  then show "map bill_of (invoice_item_list s' (iv_id v)) = ls" using b by simp
  have "filter (\<lambda>i. ivi_invoice_id i = j) new = []" if "j \<noteq> iv_id v"
    using that b by (auto simp: filter_empty_conv)
  then show "j \<noteq> iv_id v \<Longrightarrow> invoice_item_list s' j = invoice_item_list s j"
    by (simp add: invoice_item_list_def s')
qed

interpretation sale_recognition:
  trade_posting "\<lambda>E book. recognise_sale E book v ls" JS_SalesRevenue "iv_id v"
  for v ls
  by unfold_locales (auto simp: recognise_sale_def split: if_splits dest: revenue_posting.outcome)

lemma invoice_issue_Inr:
  assumes "invoice_issue E new s = Inr (v, s')" and "invoices_ok s"
  obtains book r n0 n1 s1 now rows n po s5 m e where
    "tab_find bk_id (niv_book_id new) (db_books s) = Some book"
    and "resolve_invoice E book new s = Inr (r, s\<lparr>db_draws := n0\<rparr>)"
    and "allocate_number (iv_book_id v) (iv_series v) (s\<lparr>db_draws := n1\<rparr>) = Inr (iv_number v, s1)"
    and "iv_book_id v = niv_book_id new" and "iv_series v = rsi_series r" and "iv_sales_order_id v = rsi_sales_order_id r"
    and "iv_contact_id v = rsi_contact_id r" and "iv_currency v = rsi_currency r"
    and "iv_id v \<notin> iv_id ` set (db_invoices s)"
    and "list_all2 (billed_as v now) (enumerate 0 (rsi_lines r)) rows"
    and "recognise_sale E book v (rsi_lines r) (s1\<lparr>db_invoices := db_invoices s @ [v],
           db_invoice_items := db_invoice_items s @ rows, db_draws := n\<rparr>) = Inr (po, s5)"
    and "s' = s5\<lparr>db_draws := m, db_audit := e\<rparr>"
    and "docs_ok iv_id ivi_id ivi_invoice_id billed_row_ok billed_ok (db_invoices s @ [v]) (db_invoice_items s @ rows)"
  using assms(1) unfolding invoice_issue_def issue_invoice_in_tx_def Let_def now_iso_eq new_id_eq prod.case
proof (elim attempt_pairE attempt_InrE, goal_cases)
  case (1 book r s0 number s1 s4 s5 po s6 s7)
  have book: "tab_find bk_id (niv_book_id new) (db_books s) = Some book" using 1(2) by (simp add: book_get_Inr)
  from 1(3) obtain n0 where s0: "s0 = s\<lparr>db_draws := n0\<rparr>" and some: "rsi_lines r \<noteq> []"
    by (rule resolve_invoice_Inr)
  let ?v = "\<lparr>iv_id = e_id E (db_draws s1), iv_book_id = bk_id book, iv_contact_id = rsi_contact_id r,
      iv_sales_order_id = rsi_sales_order_id r, iv_series = rsi_series r, iv_number = number,
      iv_issue_date = rsi_issue_date r, iv_due_date = rsi_due_date r,
      iv_currency = rsi_currency r, iv_notes = rsi_notes r, iv_created_at = e_now E (db_draws s0)\<rparr>"
  have v: "v = ?v" using 1(9) by simp
  from 1(4) obtain seqs where s1: "s1 = s0\<lparr>db_draws := Suc (db_draws s0), db_sequences := seqs\<rparr>"
    by (rule allocate_number_Inr)
  have s4: "s4 = s1\<lparr>db_draws := Suc (db_draws s1), db_invoices := db_invoices s @ [v]\<rparr>"
    and fresh: "iv_id v \<notin> iv_id ` set (db_invoices s)"
    using 1(5) by (auto simp: invoice_insert_def constrain_Inr has_iff s1 s0 v)
  have docs: "docs_ok iv_id ivi_id ivi_invoice_id billed_row_ok billed_ok (db_invoices s) (db_invoice_items s)"
    using assms(2) by (simp add: invoices_ok_def)
  have d: "distinct (map ivi_id (db_invoice_items s4))"
    using invoice_doc.okD(2) [OF docs] by (simp add: s4 s1 s0)
  have loop: "for_each (store_billed_line E v (e_now E (db_draws s0))) (enumerate 0 (rsi_lines r)) s4 = Inr s5"
    using 1(6) unfolding v .
  from store_billed_lines_Inr [OF loop d] obtain rows n where
    s5: "s5 = s4\<lparr>db_invoice_items := db_invoice_items s @ rows, db_draws := n\<rparr>"
    and dist: "distinct (map ivi_id (db_invoice_items s @ rows))"
    and rows: "list_all2 (billed_as v (e_now E (db_draws s0))) (enumerate 0 (rsi_lines r)) rows"
    by (auto simp: s4 s1 s0)
  have s5': "s5 = s1\<lparr>db_invoices := db_invoices s @ [v], db_invoice_items := db_invoice_items s @ rows, db_draws := n\<rparr>"
    by (simp add: s5 s4)
  from billed_lines [OF rows] some have "rows \<noteq> []" and "\<forall>x \<in> set rows. ivi_invoice_id x = iv_id v \<and> billed_row_ok x"
    by auto
  then have "billed_ok (db_invoice_items s @ rows) v" by (cases rows) (auto simp: billed_ok_def)
  from invoice_doc.add_doc [OF docs fresh dist \<open>\<forall>x \<in> set rows. _ x\<close> this]
  have docs': "docs_ok iv_id ivi_id ivi_invoice_id billed_row_ok billed_ok (db_invoices s @ [v]) (db_invoice_items s @ rows)" .
  have alloc: "allocate_number (iv_book_id v) (iv_series v) (s\<lparr>db_draws := Suc n0\<rparr>) = Inr (iv_number v, s1)"
    using 1(4) by (simp add: v s0)
  have sale: "recognise_sale E book v (rsi_lines r) (s1\<lparr>db_invoices := db_invoices s @ [v],
      db_invoice_items := db_invoice_items s @ rows, db_draws := n\<rparr>) = Inr (po, s6)"
    using 1(7) unfolding v s5' .
  from 1(8) obtain e where s7: "s7 = s6\<lparr>db_draws := Suc (Suc (db_draws s6)), db_audit := db_audit s6 @ [e]\<rparr>"
    by (rule emit_audit_Inr)
  have s': "s' = s6\<lparr>db_draws := Suc (Suc (db_draws s6)), db_audit := db_audit s6 @ [e]\<rparr>" using 1(9) s7 by simp
  have fields: "iv_book_id v = niv_book_id new" "iv_series v = rsi_series r" "iv_sales_order_id v = rsi_sales_order_id r"
    "iv_contact_id v = rsi_contact_id r" "iv_currency v = rsi_currency r"
    using tab_find_Some [OF book] by (simp_all add: v)
  from 1(1) [OF book 1(3) [unfolded s0] alloc fields fresh rows sale s' docs'] show ?case .
qed

definition billing_totals :: "billed_line list \<Rightarrow> sales_order_totals" where
  "billing_totals ls = line_totals (map posted_line ls)"

lemma repo_invoice_totals_of_lines:
  assumes "map bill_of (invoice_item_list s i) = ls"
  shows "repo_invoice_totals s i = attempt (invoice_paid_minor s i) (\<lambda>paid.
    let due = wrap64 (sot_total_minor (billing_totals ls) - paid)
    in Inr \<lparr>ivt_subtotal_minor = sot_subtotal_minor (billing_totals ls), ivt_tax_minor = sot_tax_minor (billing_totals ls),
         ivt_total_minor = sot_total_minor (billing_totals ls), ivt_paid_minor = paid, ivt_due_minor = due,
         ivt_status = payment_status paid due\<rparr>)"
  unfolding repo_invoice_totals_def billing_totals_def assms [symmetric]
  by (simp add: bill_of_def posted_line_def comp_def Let_def)

lemma order_totals_billed: "order_totals s k = billing_totals (map bills (sales_order_items_list s k))"
  by (simp add: order_totals_def billing_totals_def sales_order_items_list_def bills_def posted_line_def comp_def)

lemma repo_invoice_totals_cong:
  assumes "invoice_item_list s' i = invoice_item_list s i"
    and "filter (\<lambda>p. ip_invoice_id p = i) (db_payments s') = filter (\<lambda>p. ip_invoice_id p = i) (db_payments s)"
  shows "repo_invoice_totals s' i = repo_invoice_totals s i"
  by (simp add: repo_invoice_totals_def invoice_paid_minor_def assms)

lemma invoice_issue_effect:
  assumes issue: "invoice_issue E new s = Inr (v, s')" and ok: "invoices_ok s" and ledger: "ledger_ok s"
  obtains book r n0 n1 s1 rows and po :: "posted_journal option" where
    "resolve_invoice E book new s = Inr (r, s\<lparr>db_draws := n0\<rparr>)" and "bk_id book = iv_book_id v"
    and "allocate_number (iv_book_id v) (iv_series v) (s\<lparr>db_draws := n1\<rparr>) = Inr (iv_number v, s1)"
    and "iv_book_id v = niv_book_id new" and "iv_series v = rsi_series r" and "iv_sales_order_id v = rsi_sales_order_id r"
    and "iv_contact_id v = rsi_contact_id r" and "iv_currency v = rsi_currency r"
    and "iv_id v \<notin> iv_id ` set (db_invoices s)"
    and "same_but_ledger (s\<lparr>db_sequences := db_sequences s1, db_invoices := db_invoices s @ [v],
           db_invoice_items := db_invoice_items s @ rows\<rparr>) s'"
    and "map bill_of (invoice_item_list s' (iv_id v)) = rsi_lines r"
    and "\<And>j. j \<noteq> iv_id v \<Longrightarrow> invoice_item_list s' j = invoice_item_list s j"
    and "db_journals s' = db_journals s @ (case po of None \<Rightarrow> [] | Some p \<Rightarrow> [pj_journal p])"
    and "db_lines s' = db_lines s @ (case po of None \<Rightarrow> [] | Some p \<Rightarrow> pj_lines p)"
    and "iv_sales_order_id v \<noteq> None \<Longrightarrow> po = None"
    and "iv_sales_order_id v = None \<Longrightarrow>
           revenue_posts s (iv_book_id v) (billing_totals (rsi_lines r)) (iv_currency v) (iv_id v) (iv_issue_date v) s'"
    and "invoices_ok s'" and "ledger_ok s'"
  using issue ok
proof (rule invoice_issue_Inr)
  fix book :: book and r n0 n1 now rows n po m e and s1 s5 :: db
  let ?s2 = "s1\<lparr>db_invoices := db_invoices s @ [v], db_invoice_items := db_invoice_items s @ rows, db_draws := n\<rparr>"
  assume book: "tab_find bk_id (niv_book_id new) (db_books s) = Some book"
    and res: "resolve_invoice E book new s = Inr (r, s\<lparr>db_draws := n0\<rparr>)"
    and alloc: "allocate_number (iv_book_id v) (iv_series v) (s\<lparr>db_draws := n1\<rparr>) = Inr (iv_number v, s1)"
    and fields: "iv_book_id v = niv_book_id new" "iv_series v = rsi_series r" "iv_sales_order_id v = rsi_sales_order_id r"
      "iv_contact_id v = rsi_contact_id r" "iv_currency v = rsi_currency r"
    and fresh: "iv_id v \<notin> iv_id ` set (db_invoices s)"
    and rows: "list_all2 (billed_as v now) (enumerate 0 (rsi_lines r)) rows"
    and sale: "recognise_sale E book v (rsi_lines r) ?s2 = Inr (po, s5)"
    and s': "s' = s5\<lparr>db_draws := m, db_audit := e\<rparr>"
    and docs: "docs_ok iv_id ivi_id ivi_invoice_id billed_row_ok billed_ok (db_invoices s @ [v]) (db_invoice_items s @ rows)"
  have b: "bk_id book = iv_book_id v" using tab_find_Some [OF book] fields by simp
  from alloc obtain seqs where s1: "s1 = s\<lparr>db_draws := n1, db_sequences := seqs\<rparr>"
    by (rule allocate_number_Inr)
  have ledger2: "ledger_ok ?s2" using ledger ledger_ok_cong [of ?s2 s] by (simp add: s1)
  note tables = sale_recognition.keeps_tables [OF sale]
  have same: "same_but_ledger (s\<lparr>db_sequences := db_sequences s1, db_invoices := db_invoices s @ [v],
      db_invoice_items := db_invoice_items s @ rows\<rparr>) s'"
    using tables unfolding s' s1 by (cases s; cases s5) (simp add: same_but_ledger_def)
  have items: "db_invoice_items s' = db_invoice_items s @ rows" and vs: "db_invoices s' = db_invoices s @ [v]"
    and pays: "db_payments s' = db_payments s"
    using same_but_ledger_tables(18,19,20) [OF same] by simp_all
  have journals: "db_journals s' = db_journals s @ (case po of None \<Rightarrow> [] | Some p \<Rightarrow> [pj_journal p])"
    "db_lines s' = db_lines s @ (case po of None \<Rightarrow> [] | Some p \<Rightarrow> pj_lines p)"
    using sale_recognition.appends [OF sale] by (simp_all add: s' s1)
  have "ledger_ok s5" using sale_recognition.keeps_ledger [OF sale ledger2] .
  then have ledger': "ledger_ok s'" using ledger_ok_cong [of s' s5] by (simp add: s')
  have "payments_ok s'" using ok by (auto simp: invoices_ok_def payments_ok_def pays vs list_all_iff has_iff)
  then have ok': "invoices_ok s'" using docs by (simp add: invoices_ok_def items vs)
  have none: "po = None" if "iv_sales_order_id v \<noteq> None" using sale that by (simp add: recognise_sale_def)
  have posts: "revenue_posts s (iv_book_id v) (billing_totals (rsi_lines r)) (iv_currency v) (iv_id v) (iv_issue_date v) s'"
    if "iv_sales_order_id v = None"
  proof -
    from sale that have "post_revenue_ar_journal E book (iv_currency v) (map posted_line (rsi_lines r)) (iv_issue_date v)
        (''Invoice '' @ iv_series v @ ''-'' @ show_int (iv_number v)) (iv_id v) JS_SalesRevenue (iv_id v) ?s2 = Inr (po, s5)"
      by (simp add: recognise_sale_def)
    from post_revenue_posts [OF this b, of s]
    have "revenue_posts s (iv_book_id v) (line_totals (map posted_line (rsi_lines r))) (iv_currency v) (iv_id v)
        (iv_issue_date v) s5"
      by (simp add: s1)
    then show ?thesis
      using revenue_posts_cong [of s' s5] by (simp add: billing_totals_def s')
  qed
  note lines = invoice_lines_of_new [OF rows ok fresh items]
  show thesis
    by (rule that [OF res b alloc fields fresh same lines journals _ _ ok' ledger']) (blast intro: none posts)+
qed

section \<open>A sale is billed once\<close>

text \<open>What an invoice bills: the totals of its order, or those of the lines the request asks for.\<close>

definition amount_to_bill :: "db \<Rightarrow> new_invoice \<Rightarrow> sales_order_totals" where
  "amount_to_bill s new =
     (case niv_sales_order_id new of
        Some k \<Rightarrow> order_totals s k
      | None \<Rightarrow> line_totals (map (\<lambda>i. snd (requested i)) (niv_items new)))"

definition unpaid :: "sales_order_totals \<Rightarrow> invoice_totals" where
  "unpaid t = \<lparr>ivt_subtotal_minor = sot_subtotal_minor t, ivt_tax_minor = sot_tax_minor t,
     ivt_total_minor = sot_total_minor t, ivt_paid_minor = 0, ivt_due_minor = sot_total_minor t,
     ivt_status = IP_Unpaid\<rparr>"

text \<open>
  \<^bold>\<open>C35.\<close> Issuing an invoice bills a sale exactly once. An invoice from an order carries the order's
  customer, currency and lines, so it bills the order's totals, and the ledger does not move: the
  order's confirmation already posted its revenue. A standalone invoice carries the customer of the
  request and its lines, with their variants, quantities, prices and rates, and bills their totals;
  one journal of the invoice, dated its issue date, moves exactly its total onto receivables, its
  subtotal off revenue and its tax off the VAT control account, and the ledger stays as it is only
  when the total is zero or the book lacks one of the accounts that needs. Either way the new
  invoice is wholly unpaid, the earlier ones are what they were, and the ledger and the invoices
  keep their invariants.
\<close>

theorem invoice_bills_once:
  assumes "invoices_ok s" and "ledger_ok s" and "invoice_issue E new s = Inr (v, s')"
  shows "invoice_get s' (iv_id v) = Inr v \<and> iv_id v \<notin> iv_id ` set (db_invoices s)
    \<and> iv_book_id v = niv_book_id new \<and> iv_sales_order_id v = niv_sales_order_id new
    \<and> invoice_totals_of s' (iv_id v) = Inr (unpaid (amount_to_bill s new))
    \<and> (case niv_sales_order_id new of
         Some k \<Rightarrow> sales_order_totals_of s k = Inr (amount_to_bill s new)
           \<and> db_journals s' = db_journals s \<and> db_lines s' = db_lines s
           \<and> map bill_of (invoice_items_list s' (iv_id v)) = map bills (sales_order_items_list s k)
           \<and> (\<exists>order. sales_order_get s k = Inr order \<and> (so_status order = SO_Confirmed \<or> so_status order = SO_Paid)
                \<and> iv_contact_id v = so_contact_id order \<and> iv_currency v = so_currency order)
       | None \<Rightarrow> niv_contact_id new = Some (iv_contact_id v)
           \<and> map (\<lambda>i. charged (bill_of i)) (invoice_items_list s' (iv_id v)) = map requested (niv_items new)
           \<and> revenue_posts s (iv_book_id v) (amount_to_bill s new) (iv_currency v) (iv_id v) (iv_issue_date v) s')
    \<and> (\<forall>u \<in> set (db_invoices s). invoice_get s' (iv_id u) = Inr u
         \<and> invoice_totals_of s' (iv_id u) = invoice_totals_of s (iv_id u))
    \<and> invoices_ok s' \<and> ledger_ok s'"
  using assms(3,1,2)
proof (rule invoice_issue_effect)
  fix book :: book and r :: resolved_invoice and n0 n1 rows and po :: "posted_journal option" and s1 :: db
  let ?t = "billing_totals (rsi_lines r)"
  assume res: "resolve_invoice E book new s = Inr (r, s\<lparr>db_draws := n0\<rparr>)" and b: "bk_id book = iv_book_id v"
    and bk: "iv_book_id v = niv_book_id new"
    and fields: "iv_sales_order_id v = rsi_sales_order_id r" "iv_contact_id v = rsi_contact_id r"
      "iv_currency v = rsi_currency r"
    and fresh: "iv_id v \<notin> iv_id ` set (db_invoices s)"
    and same: "same_but_ledger (s\<lparr>db_sequences := db_sequences s1, db_invoices := db_invoices s @ [v],
           db_invoice_items := db_invoice_items s @ rows\<rparr>) s'"
    and own: "map bill_of (invoice_item_list s' (iv_id v)) = rsi_lines r"
    and other: "\<And>j. j \<noteq> iv_id v \<Longrightarrow> invoice_item_list s' j = invoice_item_list s j"
    and journals: "db_journals s' = db_journals s @ (case po of None \<Rightarrow> [] | Some p \<Rightarrow> [pj_journal p])"
      "db_lines s' = db_lines s @ (case po of None \<Rightarrow> [] | Some p \<Rightarrow> pj_lines p)"
    and none: "iv_sales_order_id v \<noteq> None \<Longrightarrow> po = None"
    and posts: "iv_sales_order_id v = None \<Longrightarrow>
           revenue_posts s (iv_book_id v) ?t (iv_currency v) (iv_id v) (iv_issue_date v) s'"
    and ok: "invoices_ok s'" "ledger_ok s'"
  have vs: "db_invoices s' = db_invoices s @ [v]" and pays: "db_payments s' = db_payments s"
    using same_but_ledger_tables(18,20) [OF same] by simp_all
  have get: "invoice_get s' (iv_id v) = Inr v" using fresh by (simp add: invoice_get_Inr vs)
  have "filter (\<lambda>p. ip_invoice_id p = iv_id v) (db_payments s') = []"
    using assms(1) fresh unfolding pays filter_empty_conv invoices_ok_def payments_ok_def list_all_iff has_iff by metis
  then have "invoice_paid_minor s' (iv_id v) = Inr 0" by (simp add: invoice_paid_minor_def sql_sum_def)
  then have totals: "invoice_totals_of s' (iv_id v) = Inr (unpaid ?t)"
    using get repo_invoice_totals_of_lines [OF own]
    by (simp add: invoice_totals_of_def Let_def payment_status_def billing_totals_def line_totals_eq unpaid_def)
  have earlier: "invoice_get s' (iv_id u) = Inr u \<and> invoice_totals_of s' (iv_id u) = invoice_totals_of s (iv_id u)"
    if u: "u \<in> set (db_invoices s)" for u
  proof -
    have "iv_id u \<noteq> iv_id v" using u fresh by (metis image_eqI)
    moreover have "tab_find iv_id (iv_id u) (db_invoices s) = Some u"
      using invoice_doc.okD(1) assms(1) u unfolding invoices_ok_def by (metis tab_find_distinct)
    ultimately show ?thesis
      using repo_invoice_totals_cong [of s' "iv_id u" s] other [of "iv_id u"]
      by (simp add: invoice_totals_of_def invoice_get_def repo_invoice_get_def vs pays)
  qed
  show ?thesis
  proof (cases "niv_sales_order_id new")
    case None
    from res have "rsi_sales_order_id r = None \<and> niv_contact_id new = Some (rsi_contact_id r)
        \<and> map charged (rsi_lines r) = map requested (niv_items new)"
      by (rule resolve_invoice_Inr) (use None in blast)
    moreover have "map (\<lambda>i. charged (bill_of i)) (invoice_item_list s' (iv_id v)) = map charged (rsi_lines r)"
      unfolding own [symmetric] by simp
    moreover have t: "amount_to_bill s new = ?t"
    proof -
      have "map posted_line (rsi_lines r) = map snd (map charged (rsi_lines r))" by (simp add: posted_charged)
      with calculation(1) show ?thesis by (simp add: amount_to_bill_def None billing_totals_def comp_def)
    qed
    ultimately show ?thesis
      using get fresh totals earlier ok bk posts fields by (simp add: None invoice_items_list_def)
  next
    case (Some k)
    from res obtain order where "sales_order_get s k = Inr order" "so_status order = SO_Confirmed \<or> so_status order = SO_Paid"
        "rsi_contact_id r = so_contact_id order" "rsi_currency r = so_currency order"
        "rsi_sales_order_id r = Some k" and lines: "rsi_lines r = map bills (sales_order_items_list s k)"
      by (rule resolve_invoice_Inr) (use Some in blast)
    moreover have "po = None" using none calculation(5) fields(1) by simp
    moreover have "amount_to_bill s new = ?t" by (simp add: amount_to_bill_def Some lines order_totals_billed)
    ultimately show ?thesis
      using get fresh totals earlier ok bk fields own journals
      by (simp add: Some sales_order_totals_of_def invoice_items_list_def amount_to_bill_def)
  qed
qed

section \<open>Payments\<close>

lemma invoice_payment_record_Inr:
  assumes "invoice_payment_record E new s = Inr (p, s')"
  obtains v book n e po where "tab_find iv_id (ip_invoice_id p) (db_invoices s) = Some v"
    and "ip_invoice_id p = nip_invoice_id new"
    and "ip_amount_minor p = nip_amount_minor new" and "0 < ip_amount_minor p"
    and "tab_find bk_id (iv_book_id v) (db_books s) = Some book"
    and "ip_id p \<notin> ip_id ` set (db_payments s)"
    and "post_invoice_payment_journal E book v p
           (s\<lparr>db_payments := db_payments s @ [p], db_draws := n, db_audit := e\<rparr>) = Inr (po, s')"
proof -
  obtain d n0 where d: "date_or_today E (nip_paid_at new) s = (d, s\<lparr>db_draws := n0\<rparr>)"
    by (rule date_or_today_draws)
  show thesis
    using assms unfolding invoice_payment_record_def d Let_def prod.case now_iso_eq new_id_eq
  proof (elim attempt_pairE attempt_InrE guard_then, goal_cases)
    case (1 v book u s4 s5 po s6)
    let ?p = "\<lparr>ip_id = e_id E (db_draws (s\<lparr>db_draws := n0\<rparr>)), ip_invoice_id = iv_id v, ip_book_id = iv_book_id v,
        ip_amount_minor = nip_amount_minor new, ip_paid_at = d, ip_method = normalize_optional (nip_method new),
        ip_note = normalize_optional (nip_note new), ip_created_at = e_now E (Suc n0)\<rparr>"
    have p: "p = ?p" using 1(8) by simp
    have v: "tab_find iv_id (nip_invoice_id new) (db_invoices s) = Some v" using 1(1) by (simp add: invoice_get_Inr)
    have id: "iv_id v = nip_invoice_id new" using tab_find_Some [OF v] by simp
    have s4: "s4 = s\<lparr>db_payments := db_payments s @ [p], db_draws := Suc (Suc n0)\<rparr>"
      and fresh: "ip_id p \<notin> ip_id ` set (db_payments s)"
      using 1(5) by (auto simp: invoice_payment_insert_def constrain_Inr has_iff p)
    from 1(6) obtain e where s5: "s5 = s4\<lparr>db_draws := Suc (Suc (db_draws s4)), db_audit := db_audit s4 @ [e]\<rparr>"
      by (rule emit_audit_Inr)
    have post: "post_invoice_payment_journal E book v p (s\<lparr>db_payments := db_payments s @ [p],
        db_draws := Suc (Suc (db_draws s4)), db_audit := db_audit s4 @ [e]\<rparr>) = Inr (po, s')"
      using 1(7,8) by (simp add: p s5 s4)
    show thesis
      using 1(2,3) v id by (intro that [OF _ _ _ _ _ fresh post]) (auto simp: p book_get_Inr)
  qed
qed

text \<open>The posting of a payment: none, or one that moves the amount from receivables to the bank.\<close>

definition settles :: "db \<Rightarrow> invoice \<Rightarrow> invoice_payment \<Rightarrow> db \<Rightarrow> bool" where
  "settles s v p s' \<longleftrightarrow>
     (case two_accounts s (iv_book_id v) COA_CODE_BANK COA_CODE_AR of
        None \<Rightarrow> db_journals s' = db_journals s \<and> db_lines s' = db_lines s
      | Some (bank, ar) \<Rightarrow> \<exists>(q :: posted_journal) c. db_journals s' = db_journals s @ [pj_journal q] \<and> db_lines s' = db_lines s @ pj_lines q
          \<and> jn_source_type (pj_journal q) = JS_InvoicePayment \<and> jn_source_id (pj_journal q) = Some (ip_id p)
          \<and> normalize_currency_code (iv_currency v) = Inr c
          \<and> (\<forall>a c'. account_net s' a c' = account_net s a c' + moves (ca_id bank) (ca_id ar) (ip_amount_minor p) c a c'))"

lemma post_invoice_payment_settles:
  assumes post: "post_invoice_payment_journal E book v p t = Inr (po, s')" and "bk_id book = iv_book_id v"
    and "0 < ip_amount_minor p" and t: "t = s\<lparr>db_payments := ps, db_draws := n, db_audit := e\<rparr>"
  shows "settles s v p s'"
proof -
  have acc: "two_accounts t (bk_id book) c1 c2 = two_accounts s (iv_book_id v) c1 c2" for c1 c2
    by (simp add: two_accounts_def coa_by_code_opt_def get_coa_by_code_def t assms(2))
  show ?thesis
  proof (cases "two_accounts s (iv_book_id v) COA_CODE_BANK COA_CODE_AR")
    case None
    with post assms(3) have "s' = t" by (simp add: post_invoice_payment_journal_def acc)
    then show ?thesis by (simp add: settles_def None t)
  next
    case (Some pair)
    obtain bank ar where pair: "pair = (bank, ar)" by (cases pair)
    from post Some assms(3) obtain c where code: "normalize_currency_code (iv_currency v) = Inr c"
      and some: "post_some E book \<lparr>nj_book_id = bk_id book, nj_posted_date = ip_paid_at p,
           nj_narrative = Some (''Payment received: invoice #'' @ show_int (iv_number v)),
           nj_reference = Some (ip_id p), nj_source_type = JS_InvoicePayment, nj_source_id = Some (ip_id p),
           nj_lines = [trade_line bank (ip_amount_minor p) 0 c (ip_method p),
                       trade_line ar 0 (ip_amount_minor p) c (ip_method p)]\<rparr> t = Inr (po, s')"
      by (auto simp: post_invoice_payment_journal_def acc pair attempt_eq_Inr split: if_splits)
    then obtain q where po: "po = Some q" and journal: "post_journal_in_tx E book \<lparr>nj_book_id = bk_id book,
           nj_posted_date = ip_paid_at p, nj_narrative = Some (''Payment received: invoice #'' @ show_int (iv_number v)),
           nj_reference = Some (ip_id p), nj_source_type = JS_InvoicePayment, nj_source_id = Some (ip_id p),
           nj_lines = [trade_line bank (ip_amount_minor p) 0 c (ip_method p),
                       trade_line ar 0 (ip_amount_minor p) c (ip_method p)]\<rparr> None t = Inr (q, s')"
      by (auto simp: post_some_Inr)
    have net: "net_in a c' (pj_lines q) = moves (ca_id bank) (ca_id ar) (ip_amount_minor p) c a c'" for a c'
      by (rule two_lines_move [OF journal _ code]) simp
    show ?thesis
      using payment_posting.appends [OF post] payment_posting.posted [OF post [unfolded po]] net code
      by (auto simp: settles_def Some pair po account_net_def t)
  qed
qed

lemma paid_after:
  assumes ok: "invoices_ok s" and paid: "invoice_paid_minor s i = Inr paid" and "0 < ip_amount_minor p"
    and "ip_invoice_id p = i" and "paid + ip_amount_minor p \<le> i64_max" and "db_payments s' = db_payments s @ [p]"
  shows "invoice_paid_minor s' i = Inr (paid + ip_amount_minor p)" and "0 \<le> paid"
proof -
  let ?xs = "map ip_amount_minor (filter (\<lambda>p. ip_invoice_id p = i) (db_payments s))"
  have paid: "paid = sum_list ?xs" using paid sql_sum_Inr unfolding invoice_paid_minor_def by blast
  have pos: "\<forall>x \<in> set ?xs. 0 \<le> x" using ok by (force simp: invoices_ok_def payments_ok_def list_all_iff)
  then show "0 \<le> paid" unfolding paid by (intro sum_list_nonneg) auto
  show "invoice_paid_minor s' i = Inr (paid + ip_amount_minor p)"
    using pos assms(3-6) sql_sum_nonneg [of "?xs @ [ip_amount_minor p]"] by (simp add: invoice_paid_minor_def paid)
qed

lemma repo_invoice_totals_Inr:
  "repo_invoice_totals s i = Inr t \<longleftrightarrow> (\<exists>paid. invoice_paid_minor s i = Inr paid \<and>
     (let g = billing_totals (map bill_of (invoice_item_list s i)); due = wrap64 (sot_total_minor g - paid)
      in t = \<lparr>ivt_subtotal_minor = sot_subtotal_minor g, ivt_tax_minor = sot_tax_minor g,
         ivt_total_minor = sot_total_minor g, ivt_paid_minor = paid, ivt_due_minor = due,
         ivt_status = payment_status paid due\<rparr>))"
  by (auto simp: repo_invoice_totals_of_lines [OF refl] attempt_eq_Inr Let_def)

text \<open>
  \<^bold>\<open>C36.\<close> A payment settles what it pays and nothing else: the invoice's paid amount rises by it, what
  is due falls by it, an invoice is paid once nothing is due, and its lines and total stay; every
  other invoice keeps its totals. The books follow: with a bank and a receivables account the
  amount moves from one to the other in one journal of the payment, without them nothing is posted.
\<close>

theorem payment_settles_invoice:
  assumes "invoices_ok s" and "ledger_ok s" and "invoice_payment_record E new s = Inr (p, s')"
    and "invoice_totals_of s (ip_invoice_id p) = Inr t" and "ivt_paid_minor t + ip_amount_minor p \<le> i64_max"
  shows "\<exists>v t'. invoice_get s (ip_invoice_id p) = Inr v \<and> ip_amount_minor p = nip_amount_minor new \<and> settles s v p s'
    \<and> invoice_totals_of s' (ip_invoice_id p) = Inr t'
    \<and> ivt_paid_minor t' = ivt_paid_minor t + ip_amount_minor p
    \<and> ivt_due_minor t' = wrap64 (ivt_due_minor t - ip_amount_minor p)
    \<and> ivt_total_minor t' = ivt_total_minor t \<and> ivt_subtotal_minor t' = ivt_subtotal_minor t
    \<and> ivt_tax_minor t' = ivt_tax_minor t
    \<and> ivt_status t' = (if ivt_due_minor t' \<le> 0 then IP_Paid else IP_PartlyPaid)
    \<and> db_invoices s' = db_invoices s
    \<and> (\<forall>i. i \<noteq> ip_invoice_id p \<longrightarrow> invoice_totals_of s' i = invoice_totals_of s i)
    \<and> invoices_ok s' \<and> ledger_ok s'"
  using assms(3)
proof (rule invoice_payment_record_Inr)
  fix v book n e po
  let ?s1 = "s\<lparr>db_payments := db_payments s @ [p], db_draws := n, db_audit := e\<rparr>"
  assume v: "tab_find iv_id (ip_invoice_id p) (db_invoices s) = Some v"
    and amount: "ip_amount_minor p = nip_amount_minor new" "0 < ip_amount_minor p"
    and book: "tab_find bk_id (iv_book_id v) (db_books s) = Some book"
    and fresh: "ip_id p \<notin> ip_id ` set (db_payments s)"
    and post: "post_invoice_payment_journal E book v p ?s1 = Inr (po, s')"
  note same = same_but_ledger_tables [OF payment_posting.keeps_tables [OF post]]
  have tables: "db_invoices s' = db_invoices s" "db_invoice_items s' = db_invoice_items s" "db_payments s' = db_payments s @ [p]"
    using same(18-20) by simp_all
  have "ledger_ok ?s1" using assms(2) ledger_ok_cong [of ?s1 s] by simp
  then have ledger: "ledger_ok s'" by (rule payment_posting.keeps_ledger [OF post])
  have ok: "invoices_ok s'"
    using assms(1) amount(2) fresh tab_find_has [OF v] by (simp add: invoices_ok_def payments_ok_def tables)
  have items: "invoice_item_list s' i = invoice_item_list s i" for i by (simp add: invoice_item_list_def tables)
  have settled: "settles s v p s'"
    using post conjunct2 [OF tab_find_Some [OF book]] amount(2) refl by (rule post_invoice_payment_settles)
  let ?g = "billing_totals (map bill_of (invoice_item_list s (ip_invoice_id p)))"
  have "repo_invoice_totals s (ip_invoice_id p) = Inr t"
    using assms(4) by (auto simp: invoice_totals_of_def attempt_eq_Inr)
  then obtain paid where paid: "invoice_paid_minor s (ip_invoice_id p) = Inr paid"
    and t: "t = \<lparr>ivt_subtotal_minor = sot_subtotal_minor ?g, ivt_tax_minor = sot_tax_minor ?g,
         ivt_total_minor = sot_total_minor ?g, ivt_paid_minor = paid, ivt_due_minor = wrap64 (sot_total_minor ?g - paid),
         ivt_status = payment_status paid (wrap64 (sot_total_minor ?g - paid))\<rparr>"
    unfolding repo_invoice_totals_Inr Let_def by blast
  have "paid + ip_amount_minor p \<le> i64_max" using assms(5) by (simp add: t)
  note paid' = paid_after [OF assms(1) paid amount(2) refl this tables(3)]
  let ?due = "wrap64 (sot_total_minor ?g - (paid + ip_amount_minor p))"
  have totals: "invoice_totals_of s' (ip_invoice_id p) = Inr \<lparr>ivt_subtotal_minor = sot_subtotal_minor ?g,
      ivt_tax_minor = sot_tax_minor ?g, ivt_total_minor = sot_total_minor ?g, ivt_paid_minor = paid + ip_amount_minor p,
      ivt_due_minor = ?due, ivt_status = payment_status (paid + ip_amount_minor p) ?due\<rparr>"
    using v paid'(1) by (simp add: invoice_totals_of_def invoice_get_def repo_invoice_get_def tables
        repo_invoice_totals_of_lines [OF refl] items Let_def)
  have due: "?due = wrap64 (wrap64 (sot_total_minor ?g - paid) - ip_amount_minor p)"
    using wrap64_add_left [of "sot_total_minor ?g - paid" "- ip_amount_minor p"] by (simp add: algebra_simps)
  have others: "invoice_totals_of s' i = invoice_totals_of s i" if "i \<noteq> ip_invoice_id p" for i
    using repo_invoice_totals_cong [of s' i s] that
    by (simp add: invoice_totals_of_def invoice_get_def repo_invoice_get_def tables items)
  have "payment_status (paid + ip_amount_minor p) ?due = (if ?due \<le> 0 then IP_Paid else IP_PartlyPaid)"
    using paid'(2) amount(2) by (simp add: payment_status_def)
  then show ?thesis
    using v amount(1) settled totals due others ok ledger by (auto simp: invoice_get_Inr tables(1) t)
qed

section \<open>A concrete sale\<close>

definition sample_bill :: new_invoice where
  "sample_bill = \<lparr>niv_book_id = ''b'', niv_contact_id = None, niv_sales_order_id = Some ''o'', niv_series = None,
     niv_issue_date = Some ''2026-02-10'', niv_due_date = ''2026-03-10'', niv_currency = None, niv_notes = None,
     niv_items = []\<rparr>"

definition sample_issued :: "(invoice \<times> db) res" where
  "sample_issued = invoice_issue sample_env sample_bill sample_shop_confirmed"

lemma sample_issued_ran: "sample_issued = Inr (out_of sample_issued, db_of sample_issued)"
  by (rule run_witness) code_simp

lemma sample_confirmed_ok: "invoices_ok sample_shop_confirmed" "ledger_ok sample_shop_confirmed"
proof -
  show "invoices_ok sample_shop_confirmed" by code_simp
  show "ledger_ok sample_shop_confirmed"
    using sample_shop_ok(2) ledger_ok_cong [of sample_shop_confirmed sample_shop] by (simp add: sample_shop_confirmed_def)
qed

text \<open>A sale over the counter: two hours at a price, with tax.\<close>

definition sample_direct_bill :: new_invoice where
  "sample_direct_bill = sample_bill\<lparr>niv_sales_order_id := None, niv_contact_id := Some ''k'',
     niv_items := [\<lparr>nii_variant_id = None, nii_description = ''Repair'', nii_quantity = 2,
       nii_unit_price_minor = 1000, nii_tax_rate_bps = Some 1500\<rparr>]\<rparr>"

definition sample_direct :: "(invoice \<times> db) res" where
  "sample_direct = invoice_issue sample_env sample_direct_bill sample_shop_confirmed"

lemma invoice_bills_once_witness:
  "invoice_totals_of (db_of sample_direct) (iv_id (out_of sample_direct))
     = Inr \<lparr>ivt_subtotal_minor = 2000, ivt_tax_minor = 300, ivt_total_minor = 2300, ivt_paid_minor = 0,
         ivt_due_minor = 2300, ivt_status = IP_Unpaid\<rparr>
   \<and> account_net (db_of sample_direct) ''c1100'' ''ZAR'' = 2300
   \<and> account_net (db_of sample_direct) ''c4000'' ''ZAR'' = - 2000
   \<and> account_net (db_of sample_direct) ''c2100'' ''ZAR'' = - 300"
proof -
  have "ran sample_direct \<noteq> None" by code_simp
  then have run: "sample_direct = Inr (out_of sample_direct, db_of sample_direct)" by (rule run_witness)
  let ?t = "\<lparr>sot_subtotal_minor = 2000, sot_tax_minor = 300, sot_total_minor = 2300\<rparr>"
  have t: "amount_to_bill sample_shop_confirmed sample_direct_bill = ?t" by code_simp
  have new: "niv_sales_order_id sample_direct_bill = None" "niv_book_id sample_direct_bill = ''b''" by code_simp+
  have accounts: "sale_accounts sample_shop_confirmed ''b'' ?t = Some (sample_account ''1100'' CK_Asset,
      sample_account ''4000'' CK_Income, Some (sample_account ''2100'' CK_Liability))" by code_simp
  have cur: "normalize_currency_code (iv_currency (out_of sample_direct)) = Inr ''ZAR''" by code_simp
  have zero: "account_net sample_shop_confirmed a ''ZAR'' = 0" for a
    by (simp add: account_net_def net_in_def sample_shop_confirmed_def sample_shop_def sample_db_def empty_db_def)
  note it = invoice_bills_once [OF sample_confirmed_ok run [unfolded sample_direct_def], folded sample_direct_def,
      unfolded new t option.case]
  then have "iv_book_id (out_of sample_direct) = ''b''" and totals: "invoice_totals_of (db_of sample_direct)
      (iv_id (out_of sample_direct)) = Inr (unpaid ?t)"
    and "revenue_posts sample_shop_confirmed (iv_book_id (out_of sample_direct)) ?t (iv_currency (out_of sample_direct))
      (iv_id (out_of sample_direct)) (iv_issue_date (out_of sample_direct)) (db_of sample_direct)"
    by blast+
  then have "account_net (db_of sample_direct) a ''ZAR'' = sale_moves (sample_account ''1100'' CK_Asset)
      (sample_account ''4000'' CK_Income) (Some (sample_account ''2100'' CK_Liability)) ?t ''ZAR'' a ''ZAR''" for a
    by (auto simp: revenue_posts_def accounts cur zero)
  then show ?thesis
    using totals by (simp add: unpaid_def sale_moves_def tax_account_def sample_account_def)
qed

definition sample_payment :: new_invoice_payment where
  "sample_payment = \<lparr>nip_invoice_id = iv_id (out_of sample_issued), nip_amount_minor = 1000,
     nip_paid_at = Some ''2026-02-20'', nip_method = None, nip_note = None\<rparr>"

definition sample_part_paid :: "(invoice_payment \<times> db) res" where
  "sample_part_paid = invoice_payment_record sample_env sample_payment (db_of sample_issued)"

lemma sample_part_paid_ran: "sample_part_paid = Inr (out_of sample_part_paid, db_of sample_part_paid)"
  by (rule run_witness) code_simp

lemma sample_issued_ok: "invoices_ok (db_of sample_issued)" "ledger_ok (db_of sample_issued)"
  using sample_issued_ran [unfolded sample_issued_def] sample_confirmed_ok
  by (rule invoice_issue_effect, simp add: sample_issued_def)+

lemma payment_settles_invoice_witness:
  "\<exists>t'. invoice_totals_of (db_of sample_part_paid) (iv_id (out_of sample_issued)) = Inr t'
    \<and> ivt_due_minor t' = 3025 \<and> ivt_status t' = IP_PartlyPaid"
proof -
  have totals: "invoice_totals_of (db_of sample_issued) (ip_invoice_id (out_of sample_part_paid))
      = Inr \<lparr>ivt_subtotal_minor = 3500, ivt_tax_minor = 525, ivt_total_minor = 4025, ivt_paid_minor = 0,
         ivt_due_minor = 4025, ivt_status = IP_Unpaid\<rparr>"
    by code_simp
  have p: "ip_amount_minor (out_of sample_part_paid) = 1000"
    "ip_invoice_id (out_of sample_part_paid) = iv_id (out_of sample_issued)"
    by code_simp+
  have bound: "(0::int) + 1000 \<le> i64_max" "wrap64 (4025 - 1000) = 3025" by code_simp+
  show ?thesis
    using payment_settles_invoice [OF sample_issued_ok sample_part_paid_ran [unfolded sample_part_paid_def]
        totals [unfolded sample_part_paid_def]] p bound
    by (auto simp: sample_part_paid_def)
qed

end
