(* ===== verification/Sales_Flow.thy ===== *)
theory Sales_Flow
  imports Quotes Invoicing
begin

text \<open>
  The sales side as one system: quotes become orders, orders are invoiced, invoices are paid. The
  step relation has every operation that changes one of their tables; its invariant puts the
  invariants of the parts together and adds the numbering of documents.
\<close>

section \<open>Numbering\<close>

definition issued :: "db \<Rightarrow> string \<Rightarrow> string \<Rightarrow> int list" where
  "issued s b t = map iv_number (filter (\<lambda>v. iv_book_id v = b \<and> iv_series v = t) (db_invoices s))"

text \<open>
  In a series of invoices the numbers are 1, 2, 3 and so on, in the order of issue, and the
  sequence stands at the next one. The two series of orders and quotes are left out.
\<close>

definition own_series :: "string \<Rightarrow> bool" where
  "own_series t \<longleftrightarrow> t \<noteq> ''sales_order'' \<and> t \<noteq> ''quote''"

definition upcoming :: "db \<Rightarrow> string \<Rightarrow> string \<Rightarrow> int" where
  "upcoming s b t = (case next_number s b t of None \<Rightarrow> 1 | Some n \<Rightarrow> n)"

definition counting :: "int list \<Rightarrow> int \<Rightarrow> bool" where
  "counting ns next_one \<longleftrightarrow> (\<forall>k < length ns. ns ! k = int k + 1) \<and> next_one = int (length ns) + 1"

lemma counting_snoc: "counting ns n \<Longrightarrow> counting (ns @ [n]) (n + 1)"
  by (auto simp: counting_def nth_append less_Suc_eq)

definition numbered_ok :: "db \<Rightarrow> bool" where
  "numbered_ok s \<longleftrightarrow> (\<forall>b t. own_series t \<longrightarrow> counting (issued s b t) (upcoming s b t))"

definition numbers_kept :: "db \<Rightarrow> db \<Rightarrow> bool" where
  "numbers_kept s s' \<longleftrightarrow> db_invoices s' = db_invoices s \<and> (\<forall>b t. own_series t \<longrightarrow> next_number s' b t = next_number s b t)"

lemma numbered_ok_frame:
  assumes "numbers_kept s s'" and "numbered_ok s"
  shows "numbered_ok s'"
proof -
  have "issued s' b t = issued s b t" "own_series t \<Longrightarrow> upcoming s' b t = upcoming s b t" for b t
    using assms(1) by (simp_all add: numbers_kept_def issued_def upcoming_def)
  then show ?thesis using assms(2) unfolding numbered_ok_def by metis
qed

lemma next_number_cong: "db_sequences s' = db_sequences s \<Longrightarrow> next_number s' = next_number s"
  unfolding next_number_def by simp

lemma numbers_kept_same: "db_invoices s' = db_invoices s \<Longrightarrow> db_sequences s' = db_sequences s \<Longrightarrow> numbers_kept s s'"
  using next_number_cong [of s' s] by (simp add: numbers_kept_def)

lemma allocation_keeps_numbers:
  assumes alloc: "allocate_number b series (s\<lparr>db_draws := n\<rparr>) = Inr (k, s2)" and "\<not> own_series series"
    and s': "db_invoices s' = db_invoices s" "db_sequences s' = db_sequences s2"
  shows "numbers_kept s s'"
  using alloc
proof (rule allocate_number_Inr)
  assume other: "\<And>b' t. (b', t) \<noteq> (b, series) \<Longrightarrow> next_number s2 b' t = next_number (s\<lparr>db_draws := n\<rparr>) b' t"
  have "next_number s' b' t = next_number s b' t" if "own_series t" for b' t
    using that assms(2) other [of b' t] next_number_cong [OF s'(2)] next_number_cong [of "s\<lparr>db_draws := n\<rparr>" s] by auto
  then show ?thesis using s'(1) by (simp add: numbers_kept_def)
qed

text \<open>An issued invoice takes the upcoming number of its series and moves it on.\<close>

lemma issue_numbers:
  assumes ok: "numbered_ok s"
    and alloc: "allocate_number (iv_book_id v) (iv_series v) (s\<lparr>db_draws := n\<rparr>) = Inr (iv_number v, s1)"
    and s': "db_invoices s' = db_invoices s @ [v]" "db_sequences s' = db_sequences s1"
  shows "numbered_ok s'" and "iv_number v = upcoming s (iv_book_id v) (iv_series v)"
    and "upcoming s' (iv_book_id v) (iv_series v) = iv_number v + 1"
proof -
  have seq: "next_number s' = next_number s1" using s'(2) by (rule next_number_cong)
  have draw: "next_number (s\<lparr>db_draws := n\<rparr>) = next_number s" by (rule next_number_cong) simp
  from alloc have nxt: "next_number s1 (iv_book_id v) (iv_series v) = Some (iv_number v + 1)"
    and num: "iv_number v = upcoming s (iv_book_id v) (iv_series v)"
    and other: "\<And>b' t. (b', t) \<noteq> (iv_book_id v, iv_series v) \<Longrightarrow> next_number s1 b' t = next_number s b' t"
    by (auto elim!: allocate_number_Inr simp: draw upcoming_def)
  show "iv_number v = upcoming s (iv_book_id v) (iv_series v)" by (rule num)
  show up: "upcoming s' (iv_book_id v) (iv_series v) = iv_number v + 1" by (simp add: upcoming_def seq nxt)
  have "counting (issued s' b t) (upcoming s' b t)" if t: "own_series t" for b t
  proof (cases "(b, t) = (iv_book_id v, iv_series v)")
    case True
    have "counting (issued s b t) (iv_number v)" using ok t num True by (simp add: numbered_ok_def)
    moreover have "issued s' b t = issued s b t @ [iv_number v]" using True by (simp add: issued_def s'(1))
    ultimately show ?thesis using up True counting_snoc by simp
  next
    case False
    then have "issued s' b t = issued s b t" by (auto simp: issued_def s'(1))
    moreover have "upcoming s' b t = upcoming s b t" using other [OF False] by (simp add: upcoming_def seq)
    ultimately show ?thesis using ok t by (simp add: numbered_ok_def)
  qed
  then show "numbered_ok s'" by (simp add: numbered_ok_def)
qed

section \<open>What the steps leave alone\<close>

text \<open>The tables of purchasing and of assets are untouched; stock movements and journals only grow.\<close>

definition apart :: "db \<Rightarrow> db \<Rightarrow> bool" where
  "apart s s' \<longleftrightarrow> db_pos s' = db_pos s \<and> db_po_items s' = db_po_items s \<and> db_receipts s' = db_receipts s
     \<and> db_assets s' = db_assets s \<and> db_runs s' = db_runs s
     \<and> (\<exists>ms. db_movements s' = db_movements s @ ms) \<and> (\<exists>js. db_journals s' = db_journals s @ js)"

text \<open>The tables of invoices are untouched, and no series of theirs moves.\<close>

definition unbilled :: "db \<Rightarrow> db \<Rightarrow> bool" where
  "unbilled s s' \<longleftrightarrow> numbers_kept s s' \<and> db_invoice_items s' = db_invoice_items s \<and> db_payments s' = db_payments s"

lemma unbilled_invoices_ok: "unbilled s s' \<Longrightarrow> invoices_ok s \<Longrightarrow> invoices_ok s'"
  by (rule invoices_ok_frame) (simp_all add: unbilled_def numbers_kept_def)

lemma unbilled_same:
  "db_invoices s' = db_invoices s \<Longrightarrow> db_invoice_items s' = db_invoice_items s \<Longrightarrow> db_payments s' = db_payments s
    \<Longrightarrow> db_sequences s' = db_sequences s \<Longrightarrow> unbilled s s'"
  by (simp add: unbilled_def numbers_kept_same)

lemma unquoted_quotes_ok:
  assumes "quotes_ok s"
    and "db_quotes s' = map (\<lambda>q. if qt_converted_sales_order_id q = Some i
           then q\<lparr>qt_converted_sales_order_id := None\<rparr> else q) (db_quotes s)"
    and "db_quote_items s' = db_quote_items s"
  shows "quotes_ok s'"
proof -
  let ?f = "\<lambda>q. if qt_converted_sales_order_id q = Some i then q\<lparr>qt_converted_sales_order_id := None\<rparr> else q"
  have ids: "map qt_id (map ?f qs) = map qt_id qs" for qs by (induction qs) auto
  then have has: "has qt_id k (map ?f (db_quotes s)) = has qt_id k (db_quotes s)" for k
    unfolding has_iff by (metis set_map)
  have row: "quote_ok items (?f q)" if "quote_ok items q" for items q
    using that by (auto simp: quote_ok_def quote_stamps_ok_def)
  then have "list_all (quote_ok (db_quote_items s)) (map ?f (db_quotes s))"
    using assms(1) unfolding quotes_ok_def docs_ok_def list_all_iff by (metis (no_types, lifting) imageE set_map)
  then show ?thesis
    using assms(1) unfolding quotes_ok_def docs_ok_def assms(2,3) ids has by blast
qed

definition order_apart :: "db \<Rightarrow> db \<Rightarrow> bool" where
  "order_apart s s' \<longleftrightarrow> unbilled s s' \<and> apart s s' \<and> (quotes_ok s \<longrightarrow> quotes_ok s')"

lemma order_step_apart:
  assumes "order_step E s s'" and "orders_ok s" and "ledger_ok s"
  shows "order_apart s s'"
  using assms(1)
proof cases
  case (create new r)
  from create obtain s2 n0 n e where
    alloc: "allocate_number (so_book_id r) ''sales_order'' (s\<lparr>db_draws := n0\<rparr>) = Inr (so_number r, s2)"
    and s': "s' = s2\<lparr>db_orders := db_orders s2 @ [r], db_draws := n, db_audit := e\<rparr>"
    by (rule sales_order_create_Inr)
  from alloc obtain seqs where s2: "s2 = s\<lparr>db_draws := n0, db_sequences := seqs\<rparr>"
    by (rule allocate_number_Inr)
  have "numbers_kept s s'" by (rule allocation_keeps_numbers [OF alloc]) (simp_all add: own_series_def s' s2)
  moreover have "quotes_ok s \<longrightarrow> quotes_ok s'" using quotes_ok_frame [of s s'] by (simp add: s' s2)
  ultimately show ?thesis by (simp add: order_apart_def unbilled_def apart_def s' s2)
next
  case (update i patch r)
  from sales_order_update_keeps(2) [OF this assms(2)] obtain before n e where
    s': "s' = s\<lparr>db_orders := tab_put so_id r (db_orders s), db_draws := n, db_audit := e\<rparr>"
    by blast
  have "quotes_ok s \<longrightarrow> quotes_ok s'" using quotes_ok_frame [of s s'] by (simp add: s')
  then show ?thesis by (simp add: order_apart_def apart_def unbilled_same s')
next
  case (delete i u)
  from delete show ?thesis
  proof (rule sales_order_delete_Inr)
    fix n e qs
    assume s': "s' = s\<lparr>db_orders := tab_del so_id i (db_orders s),
           db_order_items := filter (\<lambda>x. soi_sales_order_id x \<noteq> i) (db_order_items s), db_quotes := qs,
           db_draws := n, db_audit := e\<rparr>"
      and qs: "qs = map (\<lambda>q. if qt_converted_sales_order_id q = Some i
           then q\<lparr>qt_converted_sales_order_id := None\<rparr> else q) (db_quotes s)"
    have "quotes_ok s \<longrightarrow> quotes_ok s'" using unquoted_quotes_ok [of s s' i] by (simp add: s' qs)
    then show ?thesis by (simp add: order_apart_def apart_def unbilled_same s')
  qed
next
  case (item_add new_item x)
  from item_add show ?thesis
  proof (rule sales_order_item_add_Inr)
    fix n e
    assume s': "s' = s\<lparr>db_order_items := db_order_items s @ [x], db_draws := n, db_audit := e\<rparr>"
    have "quotes_ok s \<longrightarrow> quotes_ok s'" using quotes_ok_frame [of s s'] by (simp add: s')
    then show ?thesis by (simp add: order_apart_def apart_def unbilled_same s')
  qed
next
  case (item_update i item_patch x)
  from item_update orders_ok_distinct(2) [OF assms(2)] show ?thesis
  proof (rule sales_order_item_update_Inr)
    fix n e
    assume s': "s' = s\<lparr>db_order_items := tab_put soi_id x (db_order_items s), db_draws := n, db_audit := e\<rparr>"
    have "quotes_ok s \<longrightarrow> quotes_ok s'" using quotes_ok_frame [of s s'] by (simp add: s')
    then show ?thesis by (simp add: order_apart_def apart_def unbilled_same s')
  qed
next
  case (item_remove i u)
  from item_remove show ?thesis
  proof (rule sales_order_item_remove_Inr)
    fix n e
    assume s': "s' = s\<lparr>db_order_items := tab_del soi_id i (db_order_items s), db_draws := n, db_audit := e\<rparr>"
    have "quotes_ok s \<longrightarrow> quotes_ok s'" using quotes_ok_frame [of s s'] by (simp add: s')
    then show ?thesis by (simp add: order_apart_def apart_def unbilled_same s')
  qed
next
  case (confirm i r)
  from this assms(2,3) show ?thesis
  proof (rule sales_order_confirm_effect)
    fix before ms js
    assume same: "same_but_ledger (s\<lparr>db_movements := db_movements s @ ms, db_orders := tab_put so_id r (db_orders s)\<rparr>) s'"
      and "db_journals s' = db_journals s @ js"
    moreover note same_but_ledger_tables [OF same]
    moreover from this have "quotes_ok s \<longrightarrow> quotes_ok s'" using quotes_ok_frame [of s s'] by simp
    ultimately show ?thesis by (simp add: order_apart_def apart_def unbilled_same)
  qed
next
  case (cancel i r)
  from this assms(2,3) show ?thesis
  proof (rule sales_order_cancel_effect)
    fix before ms
    assume same: "same_but_ledger (s\<lparr>db_movements := db_movements s @ ms, db_orders := tab_put so_id r (db_orders s)\<rparr>) s'"
      and "\<exists>js. db_journals s' = db_journals s @ js"
    moreover note same_but_ledger_tables [OF same]
    moreover from this have "quotes_ok s \<longrightarrow> quotes_ok s'" using quotes_ok_frame [of s s'] by simp
    ultimately show ?thesis by (simp add: order_apart_def apart_def unbilled_same)
  qed
next
  case (mark_paid i r)
  from this assms(2) show ?thesis
  proof (rule sales_order_mark_paid_effect)
    fix n e
    assume s': "s' = s\<lparr>db_orders := tab_put so_id r (db_orders s), db_draws := n, db_audit := e\<rparr>"
    have "quotes_ok s \<longrightarrow> quotes_ok s'" using quotes_ok_frame [of s s'] by (simp add: s')
    then show ?thesis by (simp add: order_apart_def apart_def unbilled_same s')
  qed
qed

section \<open>The steps of the sales side\<close>

inductive sales_step :: "env \<Rightarrow> db \<Rightarrow> db \<Rightarrow> bool" for E where
  order: "order_step E s s' \<Longrightarrow> sales_step E s s'"
| quote_create: "quote_create E new_quote s = Inr (q, s') \<Longrightarrow> sales_step E s s'"
| quote_update: "quote_update E i quote_patch s = Inr (q, s') \<Longrightarrow> sales_step E s s'"
| quote_delete: "quote_delete E i s = Inr (u, s') \<Longrightarrow> sales_step E s s'"
| quote_item_add: "quote_item_add E new_item s = Inr (x, s') \<Longrightarrow> sales_step E s s'"
| quote_item_update: "quote_item_update E i item_patch s = Inr (x, s') \<Longrightarrow> sales_step E s s'"
| quote_item_remove: "quote_item_remove E i s = Inr (u, s') \<Longrightarrow> sales_step E s s'"
| quote_send: "quote_send E i s = Inr (q, s') \<Longrightarrow> sales_step E s s'"
| quote_decline: "quote_decline E i s = Inr (q, s') \<Longrightarrow> sales_step E s s'"
| quote_expire: "quote_expire E i s = Inr (q, s') \<Longrightarrow> sales_step E s s'"
| quote_accept: "quote_accept E i s = Inr (r, s') \<Longrightarrow> sales_step E s s'"
| issue: "invoice_issue E new_invoice s = Inr (v, s') \<Longrightarrow> sales_step E s s'"
| payment: "invoice_payment_record E new_payment s = Inr (p, s') \<Longrightarrow> sales_step E s s'"

definition sales_ok :: "db \<Rightarrow> bool" where
  "sales_ok s \<longleftrightarrow> ledger_ok s \<and> orders_ok s \<and> quotes_ok s \<and> invoices_ok s \<and> numbered_ok s"

text \<open>Invoices, their lines and payments are only added.\<close>

definition billing_grows :: "db \<Rightarrow> db \<Rightarrow> bool" where
  "billing_grows s s' \<longleftrightarrow> (\<exists>vs. db_invoices s' = db_invoices s @ vs) \<and> (\<exists>ps. db_payments s' = db_payments s @ ps)
     \<and> (\<forall>v \<in> set (db_invoices s). invoice_item_list s' (iv_id v) = invoice_item_list s (iv_id v))"

lemma billing_grows_trans: "billing_grows s t \<Longrightarrow> billing_grows t u \<Longrightarrow> billing_grows s u"
  by (auto simp: billing_grows_def)

lemma unbilled_grows: "unbilled s s' \<Longrightarrow> billing_grows s s'"
  by (simp add: unbilled_def numbers_kept_def billing_grows_def invoice_item_list_def)

definition kept :: "db \<Rightarrow> db \<Rightarrow> bool" where
  "kept s s' \<longleftrightarrow> sales_ok s' \<and> apart s s' \<and> billing_grows s s'"

lemma quotes_only:
  assumes "s' = s\<lparr>db_quotes := qs, db_quote_items := rows, db_draws := n, db_audit := e\<rparr>"
    and "quotes_ok s'" and "sales_ok s"
  shows "kept s s'"
proof -
  have unbilled: "unbilled s s'" by (rule unbilled_same) (simp_all add: assms(1))
  have "ledger_ok s'" "orders_ok s'" "invoices_ok s'" "numbered_ok s'"
    using assms(3) ledger_ok_cong [of s' s] orders_ok_frame [of s s'] unbilled_invoices_ok [OF unbilled]
      numbered_ok_frame [of s s'] numbers_kept_same [of s' s]
    by (simp_all add: sales_ok_def assms(1))
  moreover have "apart s s'" by (simp add: apart_def assms(1))
  ultimately show ?thesis using assms(2) unbilled_grows [OF unbilled] by (simp add: kept_def sales_ok_def)
qed

lemma quote_row_only:
  assumes "\<exists>n e. s' = s\<lparr>db_quotes := tab_put qt_id q (db_quotes s), db_draws := n, db_audit := e\<rparr>"
    and "quotes_ok s'" and "sales_ok s"
  shows "kept s s'"
proof -
  from assms(1) obtain n e where "s' = s\<lparr>db_quotes := tab_put qt_id q (db_quotes s), db_draws := n, db_audit := e\<rparr>"
    by blast
  then have "s' = s\<lparr>db_quotes := tab_put qt_id q (db_quotes s), db_quote_items := db_quote_items s, db_draws := n, db_audit := e\<rparr>"
    by (cases s) simp
  from quotes_only [OF this assms(2,3)] show ?thesis .
qed

lemma quote_lines_only:
  assumes "s' = s\<lparr>db_quote_items := rows, db_draws := n, db_audit := e\<rparr>" and "quotes_ok s'" and "sales_ok s"
  shows "kept s s'"
proof -
  have "s' = s\<lparr>db_quotes := db_quotes s, db_quote_items := rows, db_draws := n, db_audit := e\<rparr>"
    by (cases s) (simp add: assms(1))
  from quotes_only [OF this assms(2,3)] show ?thesis .
qed

lemma quote_create_kept:
  assumes "quote_create E new s = Inr (q, s')" and "sales_ok s"
  shows "kept s s'"
  using assms(1)
proof (rule quote_create_Inr)
  fix s2 n0 n e
  assume alloc: "allocate_number (qt_book_id q) ''quote'' (s\<lparr>db_draws := n0\<rparr>) = Inr (qt_number q, s2)"
    and s': "s' = s2\<lparr>db_quotes := db_quotes s2 @ [q], db_draws := n, db_audit := e\<rparr>"
  from alloc obtain seqs where s2: "s2 = s\<lparr>db_draws := n0, db_sequences := seqs\<rparr>"
    by (rule allocate_number_Inr)
  have numbers: "numbers_kept s s'"
    by (rule allocation_keeps_numbers [OF alloc]) (simp_all add: own_series_def s' s2)
  then have unbilled: "unbilled s s'" by (simp add: unbilled_def s' s2)
  have "ledger_ok s'" "orders_ok s'" "invoices_ok s'" "numbered_ok s'"
    using assms(2) ledger_ok_cong [of s' s] orders_ok_frame [of s s'] unbilled_invoices_ok [OF unbilled]
      numbered_ok_frame [OF numbers]
    by (simp_all add: sales_ok_def s' s2)
  moreover have "apart s s'" by (simp add: apart_def s' s2)
  ultimately show ?thesis
    using quote_create_keeps [OF assms(1)] assms(2) unbilled_grows [OF unbilled] by (simp add: kept_def sales_ok_def)
qed

lemma quote_accept_kept:
  assumes "quote_accept E i s = Inr (r, s')" and "sales_ok s"
  shows "kept s s'"
proof -
  have ok: "orders_ok s" "quotes_ok s" using assms(2) by (simp_all add: sales_ok_def)
  from assms(1) ok show ?thesis
  proof (rule quote_accept_effect)
    fix before :: quote and after new n0 n e and s2 :: db
    assume alloc: "allocate_number (qt_book_id before) ''sales_order'' (s\<lparr>db_draws := n0\<rparr>) = Inr (so_number r, s2)"
      and s': "s' = s2\<lparr>db_orders := db_orders s @ [r], db_order_items := db_order_items s @ new,
           db_quotes := tab_put qt_id after (db_quotes s), db_draws := n, db_audit := e\<rparr>"
      and ok': "orders_ok s'" "quotes_ok s'"
    from alloc obtain seqs where s2: "s2 = s\<lparr>db_draws := n0, db_sequences := seqs\<rparr>"
      by (rule allocate_number_Inr)
    have numbers: "numbers_kept s s'"
      by (rule allocation_keeps_numbers [OF alloc]) (simp_all add: own_series_def s' s2)
    then have unbilled: "unbilled s s'" by (simp add: unbilled_def s' s2)
    have "ledger_ok s'" "invoices_ok s'" "numbered_ok s'"
      using assms(2) ledger_ok_cong [of s' s] unbilled_invoices_ok [OF unbilled] numbered_ok_frame [OF numbers]
      by (simp_all add: sales_ok_def s' s2)
    moreover have "apart s s'" by (simp add: apart_def s' s2)
    ultimately show ?thesis using ok' unbilled_grows [OF unbilled] by (simp add: kept_def sales_ok_def)
  qed
qed

lemma invoice_issue_kept:
  assumes "invoice_issue E new s = Inr (v, s')" and "sales_ok s"
  shows "kept s s'"
proof -
  have ok: "invoices_ok s" "ledger_ok s" "numbered_ok s" using assms(2) by (simp_all add: sales_ok_def)
  from assms(1) ok(1,2) show ?thesis
  proof (rule invoice_issue_effect)
    fix n1 rows and po :: "posted_journal option" and s1 :: db
    assume alloc: "allocate_number (iv_book_id v) (iv_series v) (s\<lparr>db_draws := n1\<rparr>) = Inr (iv_number v, s1)"
      and same: "same_but_ledger (s\<lparr>db_sequences := db_sequences s1, db_invoices := db_invoices s @ [v],
           db_invoice_items := db_invoice_items s @ rows\<rparr>) s'"
      and js: "db_journals s' = db_journals s @ (case po of None \<Rightarrow> [] | Some p \<Rightarrow> [pj_journal p])"
      and ok': "invoices_ok s'" "ledger_ok s'"
      and fresh: "iv_id v \<notin> iv_id ` set (db_invoices s)"
      and other: "\<And>j. j \<noteq> iv_id v \<Longrightarrow> invoice_item_list s' j = invoice_item_list s j"
    note tables = same_but_ledger_tables [OF same, simplified]
    have "numbered_ok s'" by (rule issue_numbers(1) [OF ok(3) alloc]) (simp_all add: tables)
    moreover have "orders_ok s'" "quotes_ok s'"
      using assms(2) orders_ok_frame [of s s'] quotes_ok_frame [of s s'] by (simp_all add: sales_ok_def tables)
    moreover have "invoice_item_list s' (iv_id u) = invoice_item_list s (iv_id u)" if "u \<in> set (db_invoices s)" for u
      using fresh that other [of "iv_id u"] by (metis image_eqI)
    then have "billing_grows s s'" by (simp add: billing_grows_def tables)
    ultimately show ?thesis using ok' js by (simp add: kept_def sales_ok_def apart_def tables)
  qed
qed

lemma invoice_payment_kept:
  assumes "invoice_payment_record E new s = Inr (p, s')" and "sales_ok s"
  shows "kept s s'"
  using assms(1)
proof (rule invoice_payment_record_Inr)
  fix v book n e po
  let ?s1 = "s\<lparr>db_payments := db_payments s @ [p], db_draws := n, db_audit := e\<rparr>"
  assume v: "tab_find iv_id (ip_invoice_id p) (db_invoices s) = Some v" and amount: "0 < ip_amount_minor p"
    and fresh: "ip_id p \<notin> ip_id ` set (db_payments s)"
    and post: "post_invoice_payment_journal E book v p ?s1 = Inr (po, s')"
  note tables = same_but_ledger_tables [OF payment_posting.keeps_tables [OF post], simplified]
  have "ledger_ok ?s1" using assms(2) ledger_ok_cong [of ?s1 s] by (simp add: sales_ok_def)
  then have "ledger_ok s'" by (rule payment_posting.keeps_ledger [OF post])
  moreover have "invoices_ok s'"
    using assms(2) amount fresh tab_find_has [OF v] by (simp add: sales_ok_def invoices_ok_def payments_ok_def tables)
  moreover have "orders_ok s'" "quotes_ok s'" "numbered_ok s'"
    using assms(2) orders_ok_frame [of s s'] quotes_ok_frame [of s s'] numbered_ok_frame [of s s'] numbers_kept_same [of s' s]
    by (simp_all add: sales_ok_def tables)
  moreover have "db_journals s' = db_journals s @ (case po of None \<Rightarrow> [] | Some q \<Rightarrow> [pj_journal q])"
    using payment_posting.appends [OF post] by simp
  moreover have "billing_grows s s'" by (simp add: billing_grows_def invoice_item_list_def tables)
  ultimately show ?thesis by (simp add: kept_def sales_ok_def apart_def tables)
qed

lemma sales_step_kept:
  assumes "sales_step E s s'" and ok: "sales_ok s"
  shows "kept s s'"
  using assms(1)
proof cases
  case order
  have "orders_ok s" "ledger_ok s" using ok by (simp_all add: sales_ok_def)
  note facts = order_step_keeps [OF order this] order_step_apart [OF order this]
  then show ?thesis
    using ok unbilled_invoices_ok [of s s'] numbered_ok_frame [of s s']
    by (simp add: kept_def sales_ok_def order_apart_def unbilled_grows) (simp add: unbilled_def)
next
  case (quote_create new_quote q)
  then show ?thesis using ok by (rule quote_create_kept)
next
  case (quote_update i quote_patch q)
  have "quotes_ok s" using ok by (simp add: sales_ok_def)
  from quote_update_keeps [OF quote_update this] show ?thesis by (intro quote_row_only [OF _ _ ok]) blast+
next
  case (quote_delete i u)
  have "quotes_ok s'" using quote_delete_keeps [OF quote_delete] ok by (simp add: sales_ok_def)
  from quote_delete show ?thesis by (rule quote_delete_Inr) (rule quotes_only [OF _ \<open>quotes_ok s'\<close> ok])
next
  case (quote_item_add new_item x)
  have "quotes_ok s'" using quote_item_add_keeps [OF quote_item_add] ok by (simp add: sales_ok_def)
  from quote_item_add show ?thesis by (rule quote_item_add_Inr) (rule quote_lines_only [OF _ \<open>quotes_ok s'\<close> ok])
next
  case (quote_item_update i item_patch x)
  have q: "quotes_ok s" using ok by (simp add: sales_ok_def)
  note ok' = quote_item_update_keeps [OF quote_item_update q]
  from quote_item_update quotes_ok_distinct(2) [OF q] show ?thesis
    by (rule quote_item_update_Inr) (rule quote_lines_only [OF _ ok' ok])
next
  case (quote_item_remove i u)
  have "quotes_ok s'" using quote_item_remove_keeps [OF quote_item_remove] ok by (simp add: sales_ok_def)
  from quote_item_remove show ?thesis by (rule quote_item_remove_Inr) (rule quote_lines_only [OF _ \<open>quotes_ok s'\<close> ok])
next
  case (quote_send i q)
  have "quotes_ok s" using ok by (simp add: sales_ok_def)
  from quote_send_keeps [OF quote_send this] show ?thesis by (intro quote_row_only [OF _ _ ok]) blast+
next
  case (quote_decline i q)
  have "quotes_ok s" using ok by (simp add: sales_ok_def)
  from quote_decline_keeps [OF quote_decline this] show ?thesis by (intro quote_row_only [OF _ _ ok]) blast+
next
  case (quote_expire i q)
  have "quotes_ok s" using ok by (simp add: sales_ok_def)
  from quote_expire_keeps [OF quote_expire this] show ?thesis by (intro quote_row_only [OF _ _ ok]) blast+
next
  case (quote_accept i r)
  then show ?thesis using ok by (rule quote_accept_kept)
next
  case (issue new_invoice v)
  then show ?thesis using ok by (rule invoice_issue_kept)
next
  case (payment new_payment p)
  then show ?thesis using ok by (rule invoice_payment_kept)
qed

lemma sales_steps_kept:
  "(sales_step E)\<^sup>*\<^sup>* s s' \<Longrightarrow> sales_ok s \<Longrightarrow> sales_ok s' \<and> billing_grows s s'"
proof (induction rule: rtranclp_induct)
  case base
  then show ?case by (auto simp: billing_grows_def)
next
  case (step t u)
  then show ?case using sales_step_kept [of E t u] billing_grows_trans by (auto simp: kept_def)
qed

section \<open>Numbers and invoices are for good\<close>

text \<open>
  \<^bold>\<open>C37.\<close> In every series that belongs to invoices alone, that is any series but the ones orders and
  quotes take their numbers from, invoice numbers have no gap and no repetition: whatever sequence
  of quotes, orders, invoices and payments, failed attempts included, leads to a store, the numbers
  of the series in a book are 1, 2, 3 and so on in the order of issue, and the next invoice of the
  series takes the next number. (An invoice may name the series of orders or quotes; then it shares
  their counter, as \<^verbatim>\<open>invoices_share_the_order_series\<close> shows, and this does not hold.)
\<close>

theorem invoice_numbers_gapless:
  assumes "(sales_step E)\<^sup>*\<^sup>* s s'" and "sales_ok s" and "own_series t"
  shows "sales_ok s'
    \<and> (\<forall>k < length (issued s' b t). issued s' b t ! k = int k + 1)
    \<and> (\<forall>F new v s''. invoice_issue F new s' = Inr (v, s'') \<and> iv_book_id v = b \<and> iv_series v = t
         \<longrightarrow> iv_number v = int (length (issued s' b t)) + 1 \<and> issued s'' b t = issued s' b t @ [iv_number v])"
proof -
  have ok: "sales_ok s'" using sales_steps_kept [OF assms(1,2)] by blast
  then have numbers: "numbered_ok s'" by (simp add: sales_ok_def)
  then have count: "counting (issued s' b t) (upcoming s' b t)" using assms(3) by (simp add: numbered_ok_def)
  have "iv_number v = int (length (issued s' b t)) + 1 \<and> issued s'' b t = issued s' b t @ [iv_number v]"
    if issue: "invoice_issue F new s' = Inr (v, s'')" and v: "iv_book_id v = b" "iv_series v = t" for F new v s''
  proof -
    have "invoices_ok s'" "ledger_ok s'" using ok by (simp_all add: sales_ok_def)
    from issue this show ?thesis
    proof (rule invoice_issue_effect)
      fix n1 rows and s1 :: db
      assume alloc: "allocate_number (iv_book_id v) (iv_series v) (s'\<lparr>db_draws := n1\<rparr>) = Inr (iv_number v, s1)"
        and same: "same_but_ledger (s'\<lparr>db_sequences := db_sequences s1, db_invoices := db_invoices s' @ [v],
             db_invoice_items := db_invoice_items s' @ rows\<rparr>) s''"
      note tables = same_but_ledger_tables [OF same, simplified]
      have "iv_number v = upcoming s' b t"
        using issue_numbers(2) [OF numbers alloc tables(18,13)] v by simp
      then show ?thesis using count v by (simp add: counting_def issued_def tables)
    qed
  qed
  moreover have "\<forall>k < length (issued s' b t). issued s' b t ! k = int k + 1" using count by (simp add: counting_def)
  ultimately show ?thesis using ok by blast
qed

lemma repo_invoice_totals_fields:
  assumes "repo_invoice_totals s i = Inr t"
  shows "invoice_paid_minor s i = Inr (ivt_paid_minor t)"
    and "ivt_subtotal_minor t = sot_subtotal_minor (billing_totals (map bill_of (invoice_item_list s i)))"
    and "ivt_tax_minor t = sot_tax_minor (billing_totals (map bill_of (invoice_item_list s i)))"
    and "ivt_total_minor t = sot_total_minor (billing_totals (map bill_of (invoice_item_list s i)))"
  using assms [unfolded repo_invoice_totals_Inr Let_def] by (elim exE conjE; simp)+

text \<open>
  \<^bold>\<open>C38.\<close> An issued invoice is final: whatever operations of the sales side follow, it can be read
  back as it was issued, with the lines it had, and no payment recorded against it disappears; its
  paid amount never falls.
\<close>

theorem issued_invoices_are_final:
  assumes "(sales_step E)\<^sup>*\<^sup>* s s'" and "sales_ok s" and "invoice_get s i = Inr v"
  shows "invoice_get s' i = Inr v \<and> invoice_items_list s' i = invoice_items_list s i
    \<and> set (invoice_payments_list s i) \<subseteq> set (invoice_payments_list s' i)
    \<and> (\<forall>t t'. invoice_totals_of s i = Inr t \<and> invoice_totals_of s' i = Inr t'
         \<longrightarrow> ivt_subtotal_minor t' = ivt_subtotal_minor t \<and> ivt_tax_minor t' = ivt_tax_minor t
           \<and> ivt_total_minor t' = ivt_total_minor t \<and> ivt_paid_minor t \<le> ivt_paid_minor t')"
proof -
  have grows: "billing_grows s s'" and ok: "invoices_ok s'"
    using sales_steps_kept [OF assms(1,2)] by (simp_all add: sales_ok_def)
  have v: "tab_find iv_id i (db_invoices s) = Some v" using assms(3) by (simp add: invoice_get_Inr)
  then have mem: "v \<in> set (db_invoices s)" "iv_id v = i" using tab_find_Some by fast+
  have get: "tab_find iv_id i (db_invoices s') = Some v"
    using grows v by (auto simp: billing_grows_def tab_find_append)
  have items: "invoice_item_list s' i = invoice_item_list s i" using grows mem by (auto simp: billing_grows_def)
  obtain ps where ps: "db_payments s' = db_payments s @ ps" using grows by (auto simp: billing_grows_def)
  have payments: "set (invoice_payments_list s i) \<subseteq> set (invoice_payments_list s' i)"
    by (auto simp: invoice_payments_list_def invoice_payment_list_def ps)
  have paid: "p \<le> p'" if "invoice_paid_minor s i = Inr p" "invoice_paid_minor s' i = Inr p'" for p p'
  proof -
    let ?more = "map ip_amount_minor (filter (\<lambda>p. ip_invoice_id p = i) ps)"
    have "p' = p + sum_list ?more"
      using that [unfolded invoice_paid_minor_def ps] by (auto dest!: sql_sum_Inr)
    moreover have "\<forall>p \<in> set ps. 0 < ip_amount_minor p"
      using ok by (simp add: invoices_ok_def payments_ok_def list_all_iff ps)
    then have "0 \<le> x" if "x \<in> set ?more" for x using that by auto
    then have "0 \<le> sum_list ?more" by (rule sum_list_nonneg)
    ultimately show ?thesis by simp
  qed
  have "ivt_subtotal_minor t' = ivt_subtotal_minor t \<and> ivt_tax_minor t' = ivt_tax_minor t
      \<and> ivt_total_minor t' = ivt_total_minor t \<and> ivt_paid_minor t \<le> ivt_paid_minor t'"
    if "invoice_totals_of s i = Inr t" "invoice_totals_of s' i = Inr t'" for t t'
  proof -
    have eqs: "repo_invoice_totals s i = Inr t" "repo_invoice_totals s' i = Inr t'"
      using that v get by (simp_all add: invoice_totals_of_def invoice_get_def repo_invoice_get_def)
    note old = repo_invoice_totals_fields [OF eqs(1)] and new = repo_invoice_totals_fields [OF eqs(2), unfolded items]
    have "ivt_paid_minor t \<le> ivt_paid_minor t'" using old(1) new(1) by (rule paid)
    then show ?thesis by (simp only: old(2-4) new(2-4))
  qed
  then show ?thesis using get items payments unfolding invoice_get_Inr invoice_items_list_def by blast
qed

text \<open>
  A caller may name the series of an invoice, and the name of the orders' own series is taken:
  an invoice of the series sales\_order takes the number after the last order's, so the series of
  invoices does not start at 1, and the next order's number leaves a gap.
\<close>

theorem invoices_share_the_order_series:
  assumes "sales_order_create E new s = Inr (r, s1)" and "invoice_issue E' new_invoice s1 = Inr (v, s2)"
    and "invoices_ok s1" and "ledger_ok s1"
    and "iv_book_id v = so_book_id r" and "iv_series v = ''sales_order''"
    and "sales_order_create E'' new' s2 = Inr (r', s3)" and "so_book_id r' = so_book_id r"
  shows "iv_number v = so_number r + 1 \<and> so_number r' = so_number r + 2"
proof -
  have create: "so_number q = upcoming a (so_book_id q) ''sales_order''
      \<and> upcoming a' (so_book_id q) ''sales_order'' = so_number q + 1"
    if "sales_order_create F n a = Inr (q, a')" for F n a q a'
    using that
  proof (rule sales_order_create_Inr)
    fix a2 n0 m e
    assume alloc: "allocate_number (so_book_id q) ''sales_order'' (a\<lparr>db_draws := n0\<rparr>) = Inr (so_number q, a2)"
      and a': "a' = a2\<lparr>db_orders := db_orders a2 @ [q], db_draws := m, db_audit := e\<rparr>"
    have "next_number a' = next_number a2" "next_number (a\<lparr>db_draws := n0\<rparr>) = next_number a"
      by (rule next_number_cong, simp add: a')+
    then show ?thesis using alloc by (auto elim!: allocate_number_Inr simp: upcoming_def)
  qed
  from assms(2-4) have issue: "iv_number v = upcoming s1 (iv_book_id v) (iv_series v)
      \<and> upcoming s2 (iv_book_id v) (iv_series v) = iv_number v + 1"
  proof (rule invoice_issue_effect)
    fix n1 rows and t :: db
    assume alloc: "allocate_number (iv_book_id v) (iv_series v) (s1\<lparr>db_draws := n1\<rparr>) = Inr (iv_number v, t)"
      and same: "same_but_ledger (s1\<lparr>db_sequences := db_sequences t, db_invoices := db_invoices s1 @ [v],
           db_invoice_items := db_invoice_items s1 @ rows\<rparr>) s2"
    have "next_number s2 = next_number t" "next_number (s1\<lparr>db_draws := n1\<rparr>) = next_number s1"
      by (rule next_number_cong, simp add: same_but_ledger_tables [OF same])+
    then show ?thesis using alloc by (auto elim!: allocate_number_Inr simp: upcoming_def)
  qed
  show ?thesis using create [OF assms(1)] create [OF assms(7)] issue assms(5,6,8) by simp
qed

section \<open>Concrete runs\<close>

lemma sample_confirmed_sales_ok: "sales_ok sample_shop_confirmed"
proof -
  have "orders_ok sample_shop_confirmed" "quotes_ok sample_shop_confirmed" by code_simp+
  moreover have "numbered_ok sample_shop_confirmed"
    by (simp add: numbered_ok_def counting_def issued_def upcoming_def next_number_def sample_shop_confirmed_def
        sample_shop_def sample_db_def empty_db_def)
  ultimately show ?thesis using sample_confirmed_ok by (simp add: sales_ok_def)
qed

definition sample_reissued :: "(invoice \<times> db) res" where
  "sample_reissued = invoice_issue sample_env sample_bill (db_of sample_issued)"

lemma sample_reissued_ran: "sample_reissued = Inr (out_of sample_reissued, db_of sample_reissued)"
  by (rule run_witness) code_simp

lemma sample_issues_step:
  "sales_step sample_env sample_shop_confirmed (db_of sample_issued)"
  "sales_step sample_env (db_of sample_issued) (db_of sample_reissued)"
  using sales_step.issue [OF sample_issued_ran [unfolded sample_issued_def], folded sample_issued_def]
    sales_step.issue [OF sample_reissued_ran [unfolded sample_reissued_def], folded sample_reissued_def]
  by simp_all

lemma sample_issued_sales_ok: "sales_ok (db_of sample_issued)"
  using sales_step_kept [OF sample_issues_step(1) sample_confirmed_sales_ok] by (simp add: kept_def)

lemma invoice_numbers_gapless_witness:
  "issued (db_of sample_issued) ''b'' ''invoice'' = [1] \<and> iv_number (out_of sample_reissued) = 2"
proof -
  have "own_series ''invoice''" by code_simp
  note gapless = invoice_numbers_gapless [OF r_into_rtranclp [of "sales_step sample_env", OF sample_issues_step(1)] sample_confirmed_sales_ok this]
  have one: "issued (db_of sample_issued) ''b'' ''invoice'' = [1]" by code_simp
  have "iv_book_id (out_of sample_reissued) = ''b''" "iv_series (out_of sample_reissued) = ''invoice''" by code_simp+
  then have "iv_number (out_of sample_reissued) = int (length (issued (db_of sample_issued) ''b'' ''invoice'')) + 1"
    using gapless [of "''b''"] sample_reissued_ran [unfolded sample_reissued_def] by (metis sample_reissued_def)
  then show ?thesis using one by simp
qed

lemma issued_invoices_are_final_witness:
  "invoice_get (db_of sample_reissued) (iv_id (out_of sample_issued)) = Inr (out_of sample_issued)"
proof -
  have "invoice_get (db_of sample_issued) (iv_id (out_of sample_issued)) = Inr (out_of sample_issued)" by code_simp
  from issued_invoices_are_final [OF r_into_rtranclp [of "sales_step sample_env", OF sample_issues_step(2)] sample_issued_sales_ok this]
  show ?thesis by blast
qed

definition sample_new_order :: new_sales_order where
  "sample_new_order = \<lparr>nso_book_id = ''b'', nso_contact_id = ''k'', nso_location_id = None,
     nso_order_date = Some ''2026-02-01'', nso_currency = None, nso_notes = None\<rparr>"

definition sample_numbered :: db where
  "sample_numbered = sample_shop_confirmed\<lparr>db_sequences := [((''b'', ''sales_order''), 2)]\<rparr>"

lemma sample_numbered_sales_ok: "sales_ok sample_numbered"
proof -
  have "orders_ok sample_numbered" "quotes_ok sample_numbered" "invoices_ok sample_numbered" by code_simp+
  moreover have "ledger_ok sample_numbered"
    using sample_confirmed_ok(2) ledger_ok_cong [of sample_numbered sample_shop_confirmed] by (simp add: sample_numbered_def)
  moreover have "numbered_ok sample_numbered"
    by (simp add: numbered_ok_def counting_def issued_def upcoming_def next_number_def sample_numbered_def
        sample_shop_confirmed_def sample_shop_def sample_db_def empty_db_def own_series_def)
  ultimately show ?thesis by (simp add: sales_ok_def)
qed

definition sample_created :: "(sales_order \<times> db) res" where
  "sample_created = sales_order_create sample_env sample_new_order sample_numbered"

definition sample_misnamed :: "(invoice \<times> db) res" where
  "sample_misnamed = invoice_issue sample_env (sample_bill\<lparr>niv_series := Some ''sales_order''\<rparr>) (db_of sample_created)"

definition sample_created_next :: "(sales_order \<times> db) res" where
  "sample_created_next = sales_order_create sample_env sample_new_order (db_of sample_misnamed)"

lemma sample_created_runs:
  "sample_created = Inr (out_of sample_created, db_of sample_created)"
  "sample_misnamed = Inr (out_of sample_misnamed, db_of sample_misnamed)"
  "sample_created_next = Inr (out_of sample_created_next, db_of sample_created_next)"
  by (rule run_witness, code_simp)+

lemma invoices_share_the_order_series_witness:
  "so_number (out_of sample_created) = 2 \<and> iv_number (out_of sample_misnamed) = 3
    \<and> so_number (out_of sample_created_next) = 4"
proof -
  have "sales_step sample_env sample_numbered (db_of sample_created)"
    using order_step.create [OF sample_created_runs(1) [unfolded sample_created_def]]
    by (auto intro: sales_step.order simp: sample_created_def)
  then have "sales_ok (db_of sample_created)"
    using sales_step_kept sample_numbered_sales_ok by (auto simp: kept_def)
  then have ok: "invoices_ok (db_of sample_created)" "ledger_ok (db_of sample_created)" by (simp_all add: sales_ok_def)
  have "so_number (out_of sample_created) = 2" by code_simp
  moreover have facts: "iv_book_id (out_of sample_misnamed) = so_book_id (out_of sample_created)"
    "iv_series (out_of sample_misnamed) = ''sales_order''"
    "so_book_id (out_of sample_created_next) = so_book_id (out_of sample_created)"
    by code_simp+
  have "iv_number (out_of sample_misnamed) = so_number (out_of sample_created) + 1
      \<and> so_number (out_of sample_created_next) = so_number (out_of sample_created) + 2"
    using sample_created_runs(1) [unfolded sample_created_def, folded sample_created_def]
      sample_created_runs(2,3) [unfolded sample_misnamed_def sample_created_next_def] ok facts
    by (intro invoices_share_the_order_series [where E = sample_env and E' = sample_env and E'' = sample_env
          and s = sample_numbered and new = sample_new_order and new' = sample_new_order])
      (simp_all add: sample_created_def sample_misnamed_def sample_created_next_def)
  ultimately show ?thesis by simp
qed

end
