(* ===== verification/Receivables.thy ===== *)
theory Receivables
  imports Invoicing "HOL-Library.Multiset"
begin

text \<open>
  The aged receivables of \<^verbatim>\<open>repo/sales.rs\<close> against what they are meant to be: for each customer
  and for the book, the sum of what its invoices still owe, split by how late they are.
\<close>

section \<open>What is owed, and how late\<close>

definition owed :: "db \<Rightarrow> invoice \<Rightarrow> int" where
  "owed s v = (case repo_invoice_totals s (iv_id v) of Inl _ \<Rightarrow> 0 | Inr t \<Rightarrow> max 0 (ivt_due_minor t))"

definition days_late :: "env \<Rightarrow> date \<Rightarrow> invoice \<Rightarrow> int" where
  "days_late E as_of v = (case parse_date (e_time E) (iv_due_date v) of
     Inl _ \<Rightarrow> 0 | Inr due \<Rightarrow> tl_days (e_time E) as_of due)"

datatype band = Not_due | Late_1_30 | Late_31_60 | Late_61_90 | Late_over_90 | Any_age

fun in_band :: "band \<Rightarrow> int \<Rightarrow> bool" where
  "in_band Not_due n = (n \<le> 0)"
| "in_band Late_1_30 n = (1 \<le> n \<and> n \<le> 30)"
| "in_band Late_31_60 n = (31 \<le> n \<and> n \<le> 60)"
| "in_band Late_61_90 n = (61 \<le> n \<and> n \<le> 90)"
| "in_band Late_over_90 n = (91 \<le> n)"
| "in_band Any_age n = True"

fun band_minor :: "band \<Rightarrow> aged_bucket \<Rightarrow> int" where
  "band_minor Not_due b = ab_current_minor b"
| "band_minor Late_1_30 b = ab_overdue_1_30_minor b"
| "band_minor Late_31_60 b = ab_overdue_31_60_minor b"
| "band_minor Late_61_90 b = ab_overdue_61_90_minor b"
| "band_minor Late_over_90 b = ab_overdue_90_plus_minor b"
| "band_minor Any_age b = ab_total_minor b"

text \<open>The share of a band in the debt of an invoice.\<close>

definition band_debt :: "env \<Rightarrow> db \<Rightarrow> date \<Rightarrow> band \<Rightarrow> invoice \<Rightarrow> int" where
  "band_debt E s as_of k v = (if in_band k (days_late E as_of v) then owed s v else 0)"

lemma band_minor_add_due:
  "band_minor k (add_due n x b) = (if in_band k n then wrap64 (band_minor k b + x) else band_minor k b)"
  by (cases k) (auto simp: add_due_def Let_def)

lemma band_minor_add_buckets: "band_minor k (add_buckets g b) = wrap64 (band_minor k g + band_minor k b)"
  by (cases k) (simp_all add: add_buckets_def)

lemma band_minor_empty [simp]: "band_minor k empty_bucket = 0"
  by (cases k) (simp_all add: empty_bucket_def)

section \<open>The loop groups the debts by customer\<close>

definition put_debt :: "env \<Rightarrow> db \<Rightarrow> date \<Rightarrow> invoice \<Rightarrow> aged_bucket \<Rightarrow> aged_bucket" where
  "put_debt E s as_of v = add_due (days_late E as_of v) (owed s v)"

lemma age_invoice_Inr:
  assumes "age_invoice E s as_of v m = Inr m'"
  shows "m' = (if 0 < owed s v then bt_entry (iv_contact_id v) empty_bucket (put_debt E s as_of v) m else m)"
proof -
  from assms obtain t where t: "repo_invoice_totals s (iv_id v) = Inr t"
    by (auto simp: age_invoice_def attempt_eq_Inr)
  show ?thesis
  proof (cases "ivt_due_minor t \<le> 0")
    case True
    then have "owed s v = 0" by (simp add: owed_def t)
    then show ?thesis using assms True by (simp add: age_invoice_def t)
  next
    case False
    then have "owed s v = ivt_due_minor t" by (simp add: owed_def t)
    then show ?thesis
      using assms False by (auto simp: age_invoice_def t attempt_eq_Inr Let_def put_debt_def days_late_def)
  qed
qed

lemma age_invoices_Inr:
  "for_each (age_invoice E s as_of) vs m = Inr m' \<Longrightarrow>
     m' = fold (\<lambda>v. bt_entry (iv_contact_id v) empty_bucket (put_debt E s as_of v)) (filter (\<lambda>v. 0 < owed s v) vs) m"
  by (induction vs arbitrary: m) (auto simp: attempt_eq_Inr dest!: age_invoice_Inr)

lemma band_minor_debts:
  "wrap64 (band_minor k b) = band_minor k b \<Longrightarrow>
     band_minor k (fold (put_debt E s as_of) vs b) = wrap64 (band_minor k b + sum_list (map (band_debt E s as_of k) vs))"
proof (induction vs arbitrary: b)
  case Nil
  then show ?case by simp
next
  case (Cons v vs)
  have step: "band_minor k (put_debt E s as_of v b) = wrap64 (band_minor k b + band_debt E s as_of k v)"
    using Cons.prems by (simp add: put_debt_def band_minor_add_due band_debt_def)
  show ?case using Cons.IH [of "put_debt E s as_of v b"] by (simp add: step add.assoc)
qed

text \<open>Grouping and then adding up is adding up, as 64-bit values.\<close>

lemma wrap_sum_entry:
  fixes g :: "'v \<Rightarrow> int"
  assumes step: "\<And>v. wrap64 (g (f v)) = wrap64 (g v + c)" and "g d = 0"
  shows "wrap64 (sum_list (map (\<lambda>p. g (snd p)) (bt_entry k d f m))) = wrap64 (sum_list (map (\<lambda>p. g (snd p)) m) + c)"
proof (induction m)
  case Nil
  show ?case using step [of d] assms(2) by simp
next
  case (Cons p m)
  obtain k' v where p: "p = (k', v)" by (cases p)
  let ?R = "sum_list (map (\<lambda>p. g (snd p)) m)"
  have "wrap64 (?R + g (f v)) = wrap64 (?R + (g v + c))" by (rule wrap64_add_cong [OF step])
  then have same: "wrap64 (g (f v) + ?R) = wrap64 (g v + ?R + c)" by (simp only: ac_simps)
  have "wrap64 (g v + ?R + g (f d)) = wrap64 (g v + ?R + (g d + c))" by (rule wrap64_add_cong [OF step])
  then have before: "wrap64 (g (f d) + (g v + ?R)) = wrap64 (g v + ?R + c)" by (simp only: assms(2) ac_simps add_0)
  have "wrap64 (g v + sum_list (map (\<lambda>p. g (snd p)) (bt_entry k d f m))) = wrap64 (g v + (?R + c))"
    by (rule wrap64_add_cong [OF Cons])
  then show ?case using same before by (simp add: p add.assoc)
qed

lemma wrap_sum_group:
  fixes g :: "'v \<Rightarrow> int"
  assumes "\<And>x v. wrap64 (g (step x v)) = wrap64 (g v + c x)" and "g d = 0"
  shows "wrap64 (sum_list (map (\<lambda>p. g (snd p)) (fold (\<lambda>x. bt_entry (key x) d (step x)) xs m)))
       = wrap64 (sum_list (map (\<lambda>p. g (snd p)) m) + sum_list (map c xs))"
proof (induction xs arbitrary: m)
  case Nil
  show ?case by simp
next
  case (Cons x xs)
  have one: "wrap64 (sum_list (map (\<lambda>p. g (snd p)) (bt_entry (key x) d (step x) m)))
      = wrap64 (sum_list (map (\<lambda>p. g (snd p)) m) + c x)"
    by (rule wrap_sum_entry) (rule assms)+
  show ?case
    using Cons [of "bt_entry (key x) d (step x) m"] wrap64_add_cong [OF one, of "sum_list (map c xs)"]
    by (simp add: ac_simps)
qed

lemma band_minor_grand:
  "band_minor k (fold (\<lambda>(_, b) g. add_buckets g b) m g)
     = (if m = [] then band_minor k g else wrap64 (band_minor k g + sum_list (map (\<lambda>p. band_minor k (snd p)) m)))"
proof (induction m arbitrary: g)
  case Nil
  then show ?case by simp
next
  case (Cons p m)
  obtain c b where p: "p = (c, b)" by (cases p)
  show ?case using Cons [of "add_buckets g b"] by (auto simp: p band_minor_add_buckets add.assoc)
qed

section \<open>The report is exact\<close>

definition book_debtors :: "db \<Rightarrow> string \<Rightarrow> invoice list" where
  "book_debtors s b = filter (\<lambda>v. iv_book_id v = b \<and> 0 < owed s v) (db_invoices s)"

lemma sum_sorted_filter:
  fixes f :: "'a \<Rightarrow> int"
  shows "sum_list (map f (filter P (sort_key g (filter Q xs)))) = sum_list (map f (filter (\<lambda>x. Q x \<and> P x) xs))"
proof -
  have "sum_mset (mset (map f (sort_key g ys))) = sum_mset (mset (map f ys))" for ys by simp
  then have "sum_list (map f (sort_key g ys)) = sum_list (map f ys)" for ys
    unfolding sum_mset_sum_list .
  then show ?thesis by (simp add: filter_sort conj_commute)
qed

lemma distinct_map_sort: "distinct (map f (sort_key g xs)) = distinct (map f xs)"
proof -
  have "mset (map f (sort_key g xs)) = mset (map f xs)" by simp
  then show ?thesis by (rule mset_eq_imp_distinct_iff)
qed

text \<open>
  \<^bold>\<open>C39.\<close> The aged receivables are exact, band by band and to the cent (as 64-bit values): the grand
  total of a band is the sum of what the invoices of the book that still owe something owe in it,
  each customer's row the same over that customer's invoices; the rows are the customers that owe,
  each once, in the order of their names.
\<close>

theorem aged_receivables_exact:
  assumes "aged_receivables_of E s b as_of = Inr report"
  shows "\<exists>day. parse_date (e_time E) as_of = Inr day \<and> agr_as_of report = as_of
    \<and> (\<forall>k. band_minor k (agr_totals report) = wrap64 (sum_list (map (band_debt E s day k) (book_debtors s b))))
    \<and> (\<forall>row \<in> set (agr_rows report). \<forall>k. band_minor k (arr_buckets row)
          = wrap64 (sum_list (map (band_debt E s day k)
              (filter (\<lambda>v. iv_contact_id v = arr_contact_id row) (book_debtors s b)))))
    \<and> distinct (map arr_contact_id (agr_rows report))
    \<and> arr_contact_id ` set (agr_rows report) = iv_contact_id ` set (book_debtors s b)
    \<and> sorted (map arr_contact_name (agr_rows report))"
proof -
  let ?vs = "sort_key iv_due_date (filter (\<lambda>v. iv_book_id v = b) (db_invoices s))"
  from assms obtain day m where day: "parse_date (e_time E) as_of = Inr day"
    and loop: "for_each (age_invoice E s day) ?vs [] = Inr m"
    and report: "report = \<lparr>agr_as_of = as_of, agr_rows = sort_key arr_contact_name (map (\<lambda>(contact_id, buckets).
             \<lparr>arr_contact_id = contact_id,
              arr_contact_name = (case tab_find ct_id contact_id (db_contacts s) of
                 None \<Rightarrow> ''(unknown contact)'' | Some c \<Rightarrow> ct_name c),
              arr_buckets = buckets\<rparr>) m),
            agr_totals = fold (\<lambda>(_, b) g. add_buckets g b) m empty_bucket\<rparr>"
    by (auto simp: aged_receivables_of_def attempt_eq_Inr Let_def)
  let ?xs = "filter (\<lambda>v. 0 < owed s v) ?vs"
  have m: "m = bt_group iv_contact_id empty_bucket (put_debt E s day) ?xs" using age_invoices_Inr [OF loop] .
  have debts: "sum_list (map f (filter P ?xs)) = sum_list (map f (filter P (book_debtors s b)))" for f :: "invoice \<Rightarrow> int" and P
    using sum_sorted_filter [of f "\<lambda>v. 0 < owed s v \<and> P v" iv_due_date "\<lambda>v. iv_book_id v = b" "db_invoices s"]
    by (simp add: book_debtors_def conj_ac)
  have all: "sum_list (map f ?xs) = sum_list (map f (book_debtors s b))" for f :: "invoice \<Rightarrow> int"
    using debts [of f "\<lambda>_. True"] by simp
  have rows: "fst ` set m = iv_contact_id ` set (book_debtors s b)"
    unfolding m by (auto simp: image_iff in_bt_group_iff book_debtors_def Bex_def conj_ac)
  have zero: "wrap64 0 = 0" by code_simp
  have entry: "band_minor k bucket = wrap64 (sum_list (map (band_debt E s day k)
      (filter (\<lambda>v. iv_contact_id v = c) (book_debtors s b))))" if "(c, bucket) \<in> set m" for c bucket k
  proof -
    from that have "bucket = fold (put_debt E s day) (filter (\<lambda>v. iv_contact_id v = c) ?xs) empty_bucket"
      unfolding m in_bt_group_iff by blast
    then have "band_minor k bucket = wrap64 (sum_list (map (band_debt E s day k) (filter (\<lambda>v. iv_contact_id v = c) ?xs)))"
      using band_minor_debts [of k empty_bucket E s day "filter (\<lambda>v. iv_contact_id v = c) ?xs"] zero
      by (simp only: band_minor_empty add_0)
    then show ?thesis by (simp only: debts)
  qed
  have step: "wrap64 (band_minor k (put_debt E s day v u)) = wrap64 (band_minor k u + band_debt E s day k v)" for k v u
    by (simp add: put_debt_def band_minor_add_due band_debt_def)
  have "wrap64 (sum_list (map (\<lambda>p. band_minor k (snd p)) m)) = wrap64 (sum_list (map (band_debt E s day k) ?xs))" for k
    using wrap_sum_group [where g = "band_minor k" and step = "put_debt E s day" and c = "band_debt E s day k"
        and key = iv_contact_id and d = empty_bucket and xs = ?xs and m = "[]", OF step] by (simp add: m)
  moreover have "m = [] \<Longrightarrow> ?xs = []" using rows by (auto simp: book_debtors_def filter_empty_conv)
  ultimately have grand: "band_minor k (agr_totals report)
      = wrap64 (sum_list (map (band_debt E s day k) (book_debtors s b)))" for k
    unfolding all [symmetric] by (cases "m = []") (simp_all add: report band_minor_grand)
  have "distinct (map fst m)" unfolding m by (rule bt_sorted_distinct [OF bt_group_sorted])
  then have "distinct (map arr_contact_id (map (\<lambda>(contact_id, buckets).
             \<lparr>arr_contact_id = contact_id,
              arr_contact_name = (case tab_find ct_id contact_id (db_contacts s) of
                 None \<Rightarrow> ''(unknown contact)'' | Some c \<Rightarrow> ct_name c),
              arr_buckets = buckets\<rparr>) m))" by (simp add: comp_def case_prod_unfold)
  then have once: "distinct (map arr_contact_id (agr_rows report))"
    by (simp only: report aged_receivables.select_convs distinct_map_sort)
  have ids: "arr_contact_id ` set (agr_rows report) = fst ` set m"
    by (force simp: report image_iff)
  have buckets: "band_minor k (arr_buckets row) = wrap64 (sum_list (map (band_debt E s day k)
      (filter (\<lambda>v. iv_contact_id v = arr_contact_id row) (book_debtors s b))))" if "row \<in> set (agr_rows report)" for row k
  proof -
    from that have "(arr_contact_id row, arr_buckets row) \<in> set m" by (auto simp: report)
    then show ?thesis by (rule entry)
  qed
  show ?thesis
    using day grand buckets once ids rows by (intro exI [of _ day]) (simp add: report)
qed

section \<open>What the report does not look at\<close>

lemma aged_receivables_cong:
  assumes "db_invoices s' = db_invoices s" and "db_contacts s' = db_contacts s"
    and "\<And>i. repo_invoice_totals s' i = repo_invoice_totals s i"
  shows "aged_receivables_of E s' b as_of = aged_receivables_of E s b as_of"
proof -
  have "age_invoice E s' day = age_invoice E s day" for day
    by (simp add: fun_eq_iff age_invoice_def assms(3))
  then show ?thesis by (simp only: aged_receivables_of_def assms(1,2))
qed

text \<open>
  The report is as of a day only in the ages: when a payment was made does not matter to it.
  Moving the payments to any other days, after the day of the report included, leaves the report
  for every day what it was, so a debt paid later is missing from a report for an earlier day.
\<close>

theorem aged_report_ignores_payment_dates:
  "aged_receivables_of E (s\<lparr>db_payments := map (\<lambda>p. p\<lparr>ip_paid_at := day p\<rparr>) (db_payments s)\<rparr>) b as_of
     = aged_receivables_of E s b as_of"
proof (rule aged_receivables_cong)
  let ?s = "s\<lparr>db_payments := map (\<lambda>p. p\<lparr>ip_paid_at := day p\<rparr>) (db_payments s)\<rparr>"
  fix i
  have "map ip_amount_minor (filter (\<lambda>p. ip_invoice_id p = i) (map (\<lambda>p. p\<lparr>ip_paid_at := day p\<rparr>) ps))
      = map ip_amount_minor (filter (\<lambda>p. ip_invoice_id p = i) ps)" for ps
    by (induction ps) auto
  then have "invoice_paid_minor ?s i = invoice_paid_minor s i" by (simp add: invoice_paid_minor_def)
  then show "repo_invoice_totals ?s i = repo_invoice_totals s i"
    by (simp add: repo_invoice_totals_def invoice_item_list_def)
qed simp_all

text \<open>
  Cancelling a confirmed order that was invoiced takes its revenue and its receivable out of the
  ledger and leaves the invoice: the invoice owes what it owed, and the aged receivables of every
  book and day go on counting it.
\<close>

theorem cancelled_order_still_owed:
  assumes "orders_ok s" and "ledger_ok s" and "sales_order_cancel E i s = Inr (r, s')"
  shows "(\<forall>k. invoice_totals_of s' k = invoice_totals_of s k)
    \<and> (\<forall>F b as_of. aged_receivables_of F s' b as_of = aged_receivables_of F s b as_of)
    \<and> (\<exists>before. sales_order_get s i = Inr before \<and>
         (so_status before = SO_Confirmed \<longrightarrow> (\<forall>a c. live_sum (of_order (so_book_id before) i) s' a c = 0)))"
  using assms(3,1,2)
proof (rule sales_order_cancel_effect)
  fix before ms
  assume before: "tab_find so_id i (db_orders s) = Some before"
    and same: "same_but_ledger (s\<lparr>db_movements := db_movements s @ ms, db_orders := tab_put so_id r (db_orders s)\<rparr>) s'"
    and dead: "\<And>a c. so_status before = SO_Confirmed \<Longrightarrow> live_sum (of_order (so_book_id before) i) s' a c = 0"
  note tables = same_but_ledger_tables [OF same, simplified]
  have totals: "repo_invoice_totals s' k = repo_invoice_totals s k" for k
    by (rule repo_invoice_totals_cong) (simp_all add: invoice_item_list_def tables)
  then have "invoice_totals_of s' k = invoice_totals_of s k" for k
    by (simp add: invoice_totals_of_def invoice_get_def repo_invoice_get_def tables)
  moreover have "aged_receivables_of F s' b as_of = aged_receivables_of F s b as_of" for F b as_of
    by (rule aged_receivables_cong) (simp_all add: tables totals)
  ultimately show ?thesis using before dead by (simp add: sales_order_get_Inr)
qed

section \<open>A concrete report\<close>

definition sample_aged :: "aged_receivables res" where
  "sample_aged = aged_receivables_of sample_env (db_of sample_issued) ''b'' ''2026-04-01''"

lemma sample_aged_band: "band_minor Late_1_30 (agr_totals (the (ran sample_aged))) = 4025"
  by code_simp

lemma aged_receivables_exact_witness:
  "\<exists>day. parse_date (e_time sample_env) ''2026-04-01'' = Inr day
    \<and> wrap64 (sum_list (map (band_debt sample_env (db_of sample_issued) day Late_1_30)
         (book_debtors (db_of sample_issued) ''b''))) = 4025"
proof -
  have "ran sample_aged \<noteq> None" by code_simp
  from run_value [OF this] obtain report where report: "sample_aged = Inr report" ..
  have "band_minor Late_1_30 (agr_totals report) = 4025" using sample_aged_band by (simp only: report ran.simps option.sel)
  moreover obtain day where "parse_date (e_time sample_env) ''2026-04-01'' = Inr day"
    and "\<forall>k. band_minor k (agr_totals report)
      = wrap64 (sum_list (map (band_debt sample_env (db_of sample_issued) day k) (book_debtors (db_of sample_issued) ''b'')))"
    using aged_receivables_exact [OF report [unfolded sample_aged_def]] by blast
  ultimately show ?thesis by (intro exI [of _ day]) simp
qed

lemma cancelled_order_still_owed_witness:
  "\<exists>r s'. sales_order_cancel sample_env ''o'' (db_of sample_issued) = Inr (r, s') \<and> so_status r = SO_Cancelled
    \<and> invoice_totals_of s' (iv_id (out_of sample_issued)) = invoice_totals_of (db_of sample_issued) (iv_id (out_of sample_issued))"
proof -
  let ?run = "sales_order_cancel sample_env ''o'' (db_of sample_issued)"
  have "ran ?run \<noteq> None" and status: "so_status (out_of ?run) = SO_Cancelled" by code_simp+
  note run = run_witness [OF this(1)]
  have "orders_ok (db_of sample_issued)" by code_simp
  from cancelled_order_still_owed [OF this sample_issued_ok(2) run] run status show ?thesis by blast
qed

end
