(* ===== verification/Recurrence.thy ===== *)
theory Recurrence
  imports Sample
begin

text \<open>
  The date arithmetic of recurring schedules, \<^verbatim>\<open>crates/slipscan-core/src/recurrence.rs\<close>: the date of
  an occurrence is computed from the start of its schedule, never from the previous occurrence.

  The products of interval and index are 64-bit and wrap in a release build. \<^verbatim>\<open>Duration::days\<close> of the
  \<^verbatim>\<open>time\<close> crate panics when the seconds leave 64 bits. The texts the crate gives its range and format
  errors are parameters, the record \<open>date_errors\<close>.
\<close>

section \<open>The code\<close>

record date_errors =
  de_range :: "int \<Rightarrow> int \<Rightarrow> int \<Rightarrow> string"
  de_format :: "date \<Rightarrow> string"

definition format_date :: "time_lib \<Rightarrow> date_errors \<Rightarrow> date \<Rightarrow> string res" where
  "format_date T E d =
     ok_or (tl_format T d) (Validation (''recurrence date arithmetic: '' @ de_format E d))"

definition duration_days :: "int \<Rightarrow> int res" where
  "duration_days n =
     (if in_i64 (n * 86400) then Inr n else Inl (Panic ''overflow constructing `time::Duration`''))"

abbreviation overflowed :: core_error where
  "overflowed \<equiv> Validation ''recurrence date arithmetic overflowed''"

definition add_days :: "time_lib \<Rightarrow> date \<Rightarrow> int \<Rightarrow> date res" where
  "add_days T start days =
     attempt (duration_days days) (\<lambda>n. ok_or (tl_add_days T start n) overflowed)"

definition add_months :: "time_lib \<Rightarrow> date_errors \<Rightarrow> date \<Rightarrow> int \<Rightarrow> date res" where
  "add_months T E start months =
     (let target = (d_year start * 12 + (d_month start - 1)) + months;
          year = target div 12; month = target mod 12 + 1;
          day = min (d_day start) (tl_month_len T year month)
      in if \<not> in_i64 target then Inl overflowed
         else if \<not> (- (2 ^ 31) \<le> year \<and> year < 2 ^ 31) then Inl overflowed
         else ok_or (tl_calendar T year month day)
                (Validation (''recurrence date arithmetic: '' @ de_range E year month day)))"

definition occurrence_date ::
    "time_lib \<Rightarrow> date_errors \<Rightarrow> string \<Rightarrow> recurring_frequency \<Rightarrow> int \<Rightarrow> int \<Rightarrow> string res" where
  "occurrence_date T E start_date frequency interval_count occurrence_index =
     attempt (parse_date T start_date) (\<lambda>start.
     attempt (case frequency of
         RF_Daily \<Rightarrow> add_days T start (wrap64 (interval_count * occurrence_index))
       | RF_Weekly \<Rightarrow> add_days T start (wrap64 (wrap64 (interval_count * occurrence_index) * 7))
       | RF_Monthly \<Rightarrow> add_months T E start (wrap64 (interval_count * occurrence_index))
       | RF_Yearly \<Rightarrow> add_months T E start (wrap64 (wrap64 (interval_count * occurrence_index) * 12)))
     (\<lambda>date. format_date T E date))"

definition due_date :: "time_lib \<Rightarrow> date_errors \<Rightarrow> string \<Rightarrow> int \<Rightarrow> string res" where
  "due_date T E occurrence due_days =
     attempt (parse_date T occurrence) (\<lambda>d.
     attempt (add_days T d due_days) (format_date T E))"

section \<open>How far an occurrence is from the start\<close>

definition in_months :: "recurring_frequency \<Rightarrow> bool" where
  "in_months frequency \<longleftrightarrow> frequency = RF_Monthly \<or> frequency = RF_Yearly"

text \<open>How far one interval carries, in months or in days, before any wrap-around.\<close>

definition stride :: "recurring_frequency \<Rightarrow> int \<Rightarrow> int" where
  "stride frequency interval_count = (case frequency of
     RF_Daily \<Rightarrow> interval_count | RF_Weekly \<Rightarrow> interval_count * 7
   | RF_Monthly \<Rightarrow> interval_count | RF_Yearly \<Rightarrow> interval_count * 12)"

lemma wrap64_period: "wrap64 (c + k * 2 ^ 64) = wrap64 c"
  using mod_mult_self1 [of "c + 2 ^ 63" k "2 ^ 64"] by (simp add: wrap64_def add_ac)

lemma wrap64_mult_left: "wrap64 (wrap64 a * b) = wrap64 (a * b)"
proof -
  have "a - wrap64 a = (a + 2 ^ 63) div 2 ^ 64 * 2 ^ 64"
    using minus_mod_eq_div_mult [of "a + 2 ^ 63" "2 ^ 64"] by (simp add: wrap64_def)
  then obtain q where "a - wrap64 a = q * 2 ^ 64" by blast
  then have "wrap64 a = a - q * 2 ^ 64" by linarith
  then have "wrap64 a * b = a * b + (- q * b) * 2 ^ 64" by (simp add: left_diff_distrib)
  then show ?thesis by (simp only: wrap64_period)
qed

lemma occurrence_date_stride:
  "occurrence_date T E start f i k = attempt (parse_date T start) (\<lambda>d.
     attempt (if in_months f then add_months T E d (wrap64 (stride f i * k))
       else add_days T d (wrap64 (stride f i * k))) (format_date T E))"
  by (cases f) (simp_all add: occurrence_date_def in_months_def stride_def wrap64_mult_left mult.assoc mult.commute [of k])

lemma wrap64_plain: "\<bar>n\<bar> \<le> 2 ^ 62 \<Longrightarrow> wrap64 n = n"
  by (simp add: in_i64_def i64_min_def i64_max_def abs_le_iff)

section \<open>The calendar's laws\<close>

text \<open>
  What the proofs need of the calendar: the length of a month, which triples are dates (years run
  from -9999 to 9999), and that no date is further from another than that range is long.
\<close>

abbreviation DAY_RANGE :: int where
  "DAY_RANGE \<equiv> 7400000"

definition a_date :: "time_lib \<Rightarrow> date \<Rightarrow> bool" where
  "a_date T d \<longleftrightarrow> -9999 \<le> d_year d \<and> d_year d \<le> 9999 \<and> 1 \<le> d_month d \<and> d_month d \<le> 12
     \<and> 1 \<le> d_day d \<and> d_day d \<le> tl_month_len T (d_year d) (d_month d)"

locale calendar_laws =
  fixes T :: time_lib
  assumes month_len: "1 \<le> m \<Longrightarrow> m \<le> 12 \<Longrightarrow> 28 \<le> tl_month_len T y m \<and> tl_month_len T y m \<le> 31"
    and calendar_date: "1 \<le> m \<Longrightarrow> m \<le> 12 \<Longrightarrow> 1 \<le> d \<Longrightarrow> d \<le> tl_month_len T y m \<Longrightarrow>
      tl_calendar T y m d = (if -9999 \<le> y \<and> y \<le> 9999 then Some (Date y m d) else None)"
    and parsed: "tl_parse T s = Some t \<Longrightarrow> a_date T t"
    and added: "a_date T t \<Longrightarrow> tl_add_days T t n = Some t' \<Longrightarrow> a_date T t' \<and> \<bar>n\<bar> \<le> DAY_RANGE"
begin

text \<open>Adding months keeps the day of the start wherever the month has it.\<close>

lemma add_months_Inr:
  assumes "a_date T d" and "\<bar>n\<bar> \<le> 2 ^ 62"
    and "1 \<le> m" "m \<le> 12" "12 * y + m = 12 * d_year d + d_month d + n"
  shows "add_months T E d n = Inr t \<longleftrightarrow>
    -9999 \<le> y \<and> y \<le> 9999 \<and> t = Date y m (min (d_day d) (tl_month_len T y m))"
proof -
  let ?target = "d_year d * 12 + (d_month d - 1) + n"
  have ym: "?target div 12 = y" "?target mod 12 + 1 = m" using assms(3-5) by presburger+
  have in_range: "in_i64 ?target"
    using assms(1,2) by (auto simp: a_date_def in_i64_def i64_min_def i64_max_def)
  have "tl_calendar T y m (min (d_day d) (tl_month_len T y m)) = (if -9999 \<le> y \<and> y \<le> 9999
      then Some (Date y m (min (d_day d) (tl_month_len T y m))) else None)"
    using assms(1) month_len [OF assms(3,4), of y]
    by (intro calendar_date [OF assms(3,4)]) (auto simp: a_date_def)
  then show ?thesis
    using in_range by (auto simp: add_months_def Let_def ym res_simps split: if_splits)
qed

lemma add_days_Inr:
  assumes "a_date T d"
  shows "add_days T d n = Inr t \<longleftrightarrow> tl_add_days T d n = Some t"
proof -
  have "in_i64 (n * 86400)" if "tl_add_days T d n = Some t"
    using added [OF assms that] by (auto simp: in_i64_def i64_min_def i64_max_def)
  then show ?thesis by (auto simp: add_days_def duration_days_def res_simps)
qed

end

text \<open>The Gregorian calendar of the samples has these laws.\<close>

lemma quarter_bounds:
  "4 * (y div 4) \<le> y \<and> y \<le> 4 * (y div 4) + 3" "100 * (y div 100) \<le> y \<and> y \<le> 100 * (y div 100) + 99"
  "400 * (y div 400) \<le> y \<and> y \<le> 400 * (y div 400) + 399" for y :: int
  by presburger+

lemma greg_number_bounded:
  assumes "-9999 \<le> y" and "y \<le> 9999" and "1 \<le> d" "d \<le> 31"
  shows "\<bar>greg_number (Date y m d)\<bar> \<le> 3660000"
proof -
  define y' where "y' = (if m \<le> 2 then y - 1 else y)"
  have y': "-10000 \<le> y'" "y' \<le> 9999" using assms by (auto simp: y'_def)
  have "0 \<le> (m + 9) mod 12" "(m + 9) mod 12 \<le> 11" by presburger+
  then have "0 \<le> ((m + 9) mod 12 * 306 + 5) div 10" "((m + 9) mod 12 * 306 + 5) div 10 \<le> 337" by linarith+
  moreover have "greg_number (Date y m d) = 365 * y' + y' div 4 - y' div 100 + y' div 400
      + ((m + 9) mod 12 * 306 + 5) div 10 + d - 1"
    by (simp add: greg_number_def Let_def y'_def)
  ultimately show ?thesis using assms(3,4) y' quarter_bounds [of y'] by linarith
qed

lemma letE:
  assumes "Let v f = w" and "\<And>x. x = v \<Longrightarrow> f x = w \<Longrightarrow> R"
  shows R
  using assms by (simp add: Let_def)

lemma greg_date_near:
  assumes "greg_date n = Some t"
  shows "\<exists>y m d. greg_calendar y m d = Some t \<and> \<bar>y - (10000 * n + 14780) div 3652425\<bar> \<le> 3"
  using assms unfolding greg_date_def
proof (elim letE)
  fix start :: "int \<Rightarrow> int" and y0 y r k :: int
  assume start: "start = (\<lambda>y. 365 * y + y div 4 - y div 100 + y div 400)"
    and y0: "y0 = (10000 * n + 14780) div 3652425" and y: "y = (if n < start y0 then y0 - 1 else y0)"
    and r: "r = n - start y" and k: "k = (100 * r + 52) div 3060"
    and date: "greg_calendar (y + (k + 2) div 12) ((k + 2) mod 12 + 1) (r - (k * 306 + 5) div 10 + 1) = Some t"
  have near: "y0 - 1 \<le> y" "y \<le> y0" by (auto simp: y)
  have "3652425 * y0 \<le> 10000 * n + 14780" "10000 * n + 14780 < 3652425 * y0 + 3652425"
    unfolding y0 by linarith+
  then have "-400 \<le> r" "r \<le> 1000"
    using near quarter_bounds [of y] unfolding r start by linarith+
  then have "-14 \<le> k" "k \<le> 33" unfolding k by linarith+
  then have "-1 \<le> (k + 2) div 12" "(k + 2) div 12 \<le> 2" by linarith+
  then have "\<bar>y + (k + 2) div 12 - y0\<bar> \<le> 3" using near by linarith
  with date show ?thesis unfolding y0 by blast
qed

lemma greg_date_bounded:
  assumes "greg_date n = Some t"
  shows "\<bar>n\<bar> \<le> 3700000" and "a_date gregorian t"
proof -
  obtain y m d where c: "greg_calendar y m d = Some t" and near: "\<bar>y - (10000 * n + 14780) div 3652425\<bar> \<le> 3"
    using greg_date_near [OF assms] by blast
  have "-9999 \<le> y" "y \<le> 9999" using c by (auto simp: greg_calendar_def split: if_splits)
  with near show "\<bar>n\<bar> \<le> 3700000" by linarith
  show "a_date gregorian t"
    using c by (auto simp: greg_calendar_def a_date_def gregorian_def split: if_splits)
qed

interpretation greg: calendar_laws gregorian
proof
  fix y m d n :: int and s and t t' :: date
  show "28 \<le> tl_month_len gregorian y m \<and> tl_month_len gregorian y m \<le> 31"
    by (simp add: gregorian_def greg_month_len_def leap_def)
  show "tl_calendar gregorian y m d = (if -9999 \<le> y \<and> y \<le> 9999 then Some (Date y m d) else None)"
    if "1 \<le> m" "m \<le> 12" "1 \<le> d" "d \<le> tl_month_len gregorian y m"
    using that by (auto simp: gregorian_def greg_calendar_def)
  show "a_date gregorian t" if "tl_parse gregorian s = Some t"
    using that by (auto simp: gregorian_def greg_parse_def greg_calendar_def a_date_def split: if_splits option.splits)
  show "a_date gregorian t' \<and> \<bar>n\<bar> \<le> DAY_RANGE" if t: "a_date gregorian t" and add: "tl_add_days gregorian t n = Some t'"
  proof
    have date: "greg_date (greg_number t + n) = Some t'" using add by (simp add: gregorian_def greg_add_days_def)
    then show "a_date gregorian t'" by (rule greg_date_bounded)
    have "d_day t \<le> 31" using t by (simp add: a_date_def gregorian_def greg_month_len_def split: if_splits)
    then have "\<bar>greg_number t\<bar> \<le> 3660000"
      using greg_number_bounded [of "d_year t" "d_day t" "d_month t"] t by (simp add: a_date_def)
    then show "\<bar>n\<bar> \<le> DAY_RANGE" using greg_date_bounded(1) [OF date] by linarith
  qed
qed

section \<open>The month-end rule\<close>

text \<open>
  \<^bold>\<open>C40.\<close> The date of every occurrence. A monthly or yearly schedule keeps its anchor: the \<open>k\<close>-th
  occurrence falls in the month \<open>m\<close> of the year \<open>y\<close> that lies \<open>k\<close> intervals after the month of the start,
  on the start's own day, or on the last day of that month when it is shorter, so that a short month
  on the way never pulls a later occurrence down. A daily or weekly schedule falls exactly the number
  of days of \<open>k\<close> intervals after its start. A date is given exactly when the calendar has it; the
  distance is at most \<open>2\<^sup>6\<^sup>2\<close> months or days, within which no product wraps.
\<close>
theorem occurrences_keep_the_anchor:
  assumes "calendar_laws T" and "tl_parse T start = Some d" and "\<bar>stride f i * k\<bar> \<le> 2 ^ 62"
    and "1 \<le> m" "m \<le> 12" "12 * y + m = 12 * d_year d + d_month d + stride f i * k"
  shows "occurrence_date T E start f i k = Inr t \<longleftrightarrow>
    (if in_months f
     then -9999 \<le> y \<and> y \<le> 9999 \<and> tl_format T (Date y m (min (d_day d) (tl_month_len T y m))) = Some t
     else \<exists>e. tl_add_days T d (stride f i * k) = Some e \<and> tl_format T e = Some t)"
proof -
  have d: "a_date T d" by (rule calendar_laws.parsed [OF assms(1,2)])
  show ?thesis
    using assms(2) calendar_laws.add_months_Inr [OF assms(1) d assms(3-6)] calendar_laws.add_days_Inr [OF assms(1) d]
    by (auto simp: occurrence_date_stride wrap64_plain [OF assms(3)] format_date_def res_simps)
qed

definition no_texts :: date_errors where
  "no_texts = \<lparr>de_range = (\<lambda>_ _ _. []), de_format = (\<lambda>_. [])\<rparr>"

lemma sample_start: "tl_parse gregorian ''2026-01-31'' = Some (Date 2026 1 31)"
  by code_simp

theorem occurrences_keep_the_anchor_witness:
  "occurrence_date gregorian no_texts ''2026-01-31'' RF_Monthly 1 1 = Inr ''2026-02-28''
   \<and> occurrence_date gregorian no_texts ''2026-01-31'' RF_Monthly 1 2 = Inr ''2026-03-31''
   \<and> occurrence_date gregorian no_texts ''2026-01-31'' RF_Weekly 2 1 = Inr ''2026-02-14''"
proof (intro conjI)
  note anchored = occurrences_keep_the_anchor [OF greg.calendar_laws_axioms sample_start]
  have "tl_format gregorian (Date 2026 2 28) = Some ''2026-02-28''"
    "tl_format gregorian (Date 2026 3 31) = Some ''2026-03-31''"
    "tl_add_days gregorian (Date 2026 1 31) 14 = Some (Date 2026 2 14)"
    "tl_format gregorian (Date 2026 2 14) = Some ''2026-02-14''"
    by code_simp+
  moreover have "tl_month_len gregorian 2026 2 = 28" "tl_month_len gregorian 2026 3 = 31" by code_simp+
  ultimately show
    "occurrence_date gregorian no_texts ''2026-01-31'' RF_Monthly 1 1 = Inr ''2026-02-28''"
    "occurrence_date gregorian no_texts ''2026-01-31'' RF_Monthly 1 2 = Inr ''2026-03-31''"
    "occurrence_date gregorian no_texts ''2026-01-31'' RF_Weekly 2 1 = Inr ''2026-02-14''"
    using anchored [of RF_Monthly 1 1 2 2026] anchored [of RF_Monthly 1 2 3 2026]
      anchored [of RF_Weekly 2 1 3 2027]
    by (simp_all add: in_months_def stride_def)
qed

section \<open>Intervals that wrap\<close>

text \<open>
  An interval count is only required to be positive, and its product with the index wraps: a yearly
  schedule with an interval of \<open>2\<^sup>6\<^sup>2\<close> is accepted and never moves, every occurrence has the date of
  the start.
\<close>

lemma huge_interval_never_advances:
  "occurrence_date T E start RF_Yearly (2 ^ 62) k = occurrence_date T E start RF_Yearly (2 ^ 62) 0"
proof -
  have "wrap64 (k * 3 * 2 ^ 64) = wrap64 0" using wrap64_period [of 0 "k * 3"] by simp
  then have same: "wrap64 (stride RF_Yearly (2 ^ 62) * k) = wrap64 (stride RF_Yearly (2 ^ 62) * 0)"
    by (simp add: stride_def mult.commute)
  show ?thesis unfolding occurrence_date_stride same ..
qed

end
