(* ===== verification/Sync_Mapping.thy ===== *)
theory Sync_Mapping
  imports Core_Prelude Ordered_Map "HOL-Library.Word"
begin

text \<open>
  The mapping of \<^verbatim>\<open>crates/slipscan-sync/src/lib.rs\<close>: which table replicates by which primitive,
  and the operation a row write becomes. The replication engine (the \<^verbatim>\<open>kotva-sync\<close> crate, called
  \<^verbatim>\<open>dmtap_sync\<close> in the source) and \<^verbatim>\<open>serde_json\<close> are not part of the repository: what the code
  calls of them is the record \<open>sync_lib\<close>.
\<close>

section \<open>JSON values, stamps and operations\<close>

text \<open>
  \<^verbatim>\<open>serde_json::Value\<close>; an object is a \<^verbatim>\<open>BTreeMap\<close> (the crate's default), that is an association
  list in ascending key order. A floating-point number is its 64-bit pattern.
\<close>

datatype json =
    JNull
  | JBool bool
  | JInt int
  | JReal "64 word"
  | JText string
  | JArray "json list"
  | JObject "(string \<times> json) list"

definition json_insert :: "string \<Rightarrow> json \<Rightarrow> (string \<times> json) list \<Rightarrow> (string \<times> json) list" where
  "json_insert k v fields = bt_entry k JNull (\<lambda>_. v) fields"

text \<open>The hybrid logical clock's stamp and the engine's values and operations. Of an operation, the
  two fields that the mapping always leaves empty (\<^verbatim>\<open>observed\<close>, \<^verbatim>\<open>reference\<close>) are left out.\<close>

record hlc =
  h_wall :: "64 word"
  h_counter :: "32 word"
  h_author :: string

datatype sval = SV_Text string | SV_Other string

record sync_op =
  op_kind :: "8 word"
  op_ns :: string
  op_target :: string
  op_field :: "string option"
  op_value :: "sval option"
  op_hlc :: hlc

text \<open>
  What the code takes from the engine and from \<^verbatim>\<open>serde_json\<close>: the two kind discriminators,
  \<^verbatim>\<open>Hlc::tick\<close> (the stamp it returns, and the clock after it), the content address of an operation,
  \<^verbatim>\<open>sign_op\<close> followed by \<^verbatim>\<open>to_bytes\<close>, \<^verbatim>\<open>verify_op_bytes\<close>, \<^verbatim>\<open>IdentityKey::from_seed\<close> followed by
  \<^verbatim>\<open>public\<close>, the compact text of a JSON value and its parser. Errors are their \<^verbatim>\<open>Debug\<close> text.
\<close>

record sync_lib =
  sl_lww_set :: "8 word"
  sl_set_add :: "8 word"
  sl_tick :: "hlc \<Rightarrow> 64 word \<Rightarrow> hlc \<times> hlc"
  sl_op_id :: "sync_op \<Rightarrow> string"
  sl_sign :: "string \<Rightarrow> sync_op \<Rightarrow> string + string"
  sl_verify :: "string \<Rightarrow> string + sync_op"
  sl_public :: "string \<Rightarrow> string"
  sl_json_text :: "json \<Rightarrow> string"
  sl_json_parse :: "string \<Rightarrow> json option"

section \<open>Which primitive a table maps to\<close>

datatype kind = LwwSet | SetAdd

definition code :: "sync_lib \<Rightarrow> kind \<Rightarrow> 8 word" where
  "code L k = (case k of LwwSet \<Rightarrow> sl_lww_set L | SetAdd \<Rightarrow> sl_set_add L)"

definition LWW_FIELD :: string where
  "LWW_FIELD = ''row''"

definition LEDGER_TABLES :: "string list" where
  "LEDGER_TABLES = [''journals'', ''journal_lines'', ''stock_movements'', ''po_receipts'', ''invoices'',
     ''invoice_items'', ''invoice_payments'', ''networth_snapshots'', ''asset_depreciation_runs'',
     ''recurring_runs'']"

definition LWW_TABLES :: "string list" where
  "LWW_TABLES = [''books'', ''accounts'', ''categories'', ''transactions'', ''transaction_splits'',
     ''merchant_mappings'', ''budgets'', ''members'', ''member_capabilities'', ''locations'',
     ''chart_of_accounts'', ''coa_map'', ''vat_rates'', ''contacts'', ''product_categories'', ''products'',
     ''product_variants'', ''purchase_orders'', ''purchase_order_items'', ''sales_orders'',
     ''sales_order_items'', ''assets'', ''quotes'', ''quote_items'', ''recurring_schedules'',
     ''recurring_schedule_items'']"

definition is_ledger :: "string \<Rightarrow> bool" where
  "is_ledger table \<longleftrightarrow> table \<in> set LEDGER_TABLES"

definition is_replicated :: "string \<Rightarrow> bool" where
  "is_replicated table \<longleftrightarrow> is_ledger table \<or> table \<in> set LWW_TABLES"

definition replicated_tables :: "string list" where
  "replicated_tables = LWW_TABLES @ LEDGER_TABLES"

datatype map_error =
    LedgerDelete string
  | NotAnObject string
  | UnmappedTable string

definition map_error_str :: "map_error \<Rightarrow> string" where
  "map_error_str e = (case e of
       LedgerDelete t \<Rightarrow> t @ '' is an immutable ledger: correct it with a reversal, never a delete''
     | NotAnObject t \<Rightarrow> ''row payload must be a JSON object, got '' @ t
     | UnmappedTable t \<Rightarrow> t @ '' has no sync mapping: add it to LWW_TABLES or LEDGER_TABLES with a ''
         @ [CHR 0xC2, CHR 0xA7] @ ''4.10 selection-test answer, or leave it device-local'')"

definition kind_for :: "string \<Rightarrow> map_error + kind" where
  "kind_for table =
     (if is_ledger table then Inr SetAdd
      else if table \<in> set LWW_TABLES then Inr LwwSet
      else Inl (UnmappedTable table))"

section \<open>Addresses and payloads\<close>

definition lww_target :: "string \<Rightarrow> string \<Rightarrow> string" where
  "lww_target table i = table @ ''/'' @ i"

text \<open>\<^verbatim>\<open>str::split_once\<close>: before and after the first occurrence.\<close>

fun split_once :: "char \<Rightarrow> string \<Rightarrow> (string \<times> string) option" where
  "split_once c [] = None"
| "split_once c (x # xs) =
     (if x = c then Some ([], xs)
      else case split_once c xs of None \<Rightarrow> None | Some (a, b) \<Rightarrow> Some (x # a, b))"

definition parse_lww_target :: "string \<Rightarrow> (string \<times> string) option" where
  "parse_lww_target target =
     (case split_once (CHR ''/'') target of
        None \<Rightarrow> None
      | Some (table, i) \<Rightarrow> if table = [] \<or> i = [] then None else Some (table, i))"

definition canonical_json :: "sync_lib \<Rightarrow> json \<Rightarrow> map_error + string" where
  "canonical_json L row = (case row of
       JObject _ \<Rightarrow> Inr (sl_json_text L row)
     | JNull \<Rightarrow> Inl (NotAnObject ''null'')
     | JArray _ \<Rightarrow> Inl (NotAnObject ''array'')
     | _ \<Rightarrow> Inl (NotAnObject ''scalar''))"

definition row_value :: "sync_lib \<Rightarrow> json \<Rightarrow> bool \<Rightarrow> map_error + sval" where
  "row_value L row deleted =
     (case canonical_json L row of
        Inl e \<Rightarrow> Inl e
      | Inr body \<Rightarrow> Inr (SV_Text ((if deleted then ''x'' else ''v'') @ body)))"

definition op_for_write ::
    "sync_lib \<Rightarrow> string \<Rightarrow> string \<Rightarrow> string \<Rightarrow> json \<Rightarrow> bool \<Rightarrow> hlc \<Rightarrow> map_error + sync_op" where
  "op_for_write L ns table i row deleted h =
     (case kind_for table of
        Inl e \<Rightarrow> Inl e
      | Inr SetAdd \<Rightarrow>
          if deleted then Inl (LedgerDelete table)
          else (case row_value L row False of
                  Inl e \<Rightarrow> Inl e
                | Inr v \<Rightarrow> Inr \<lparr>op_kind = code L SetAdd, op_ns = ns, op_target = table,
                    op_field = None, op_value = Some v, op_hlc = h\<rparr>)
      | Inr LwwSet \<Rightarrow>
          (case row_value L row deleted of
             Inl e \<Rightarrow> Inl e
           | Inr v \<Rightarrow> Inr \<lparr>op_kind = code L LwwSet, op_ns = ns, op_target = lww_target table i,
               op_field = Some LWW_FIELD, op_value = Some v, op_hlc = h\<rparr>))"

text \<open>\<^verbatim>\<open>split_at_checked(1)\<close> fails on an empty text and inside a character; the two tags are single
  bytes, so a first byte other than them is refused either way.\<close>

definition parse_row_value :: "sync_lib \<Rightarrow> sval \<Rightarrow> (json \<times> bool) option" where
  "parse_row_value L v = (case v of
       SV_Text (tag # body) \<Rightarrow>
         (if tag = CHR ''v'' then map_option (\<lambda>row. (row, False)) (sl_json_parse L body)
          else if tag = CHR ''x'' then map_option (\<lambda>row. (row, True)) (sl_json_parse L body)
          else None)
     | _ \<Rightarrow> None)"

section \<open>What the mapping guarantees\<close>

lemma table_names:
  "list_all (\<lambda>t. t \<notin> set LWW_TABLES) LEDGER_TABLES"
  "list_all (\<lambda>t. CHR ''/'' \<notin> set t \<and> t \<noteq> []) replicated_tables"
  by code_simp+

lemma tables_disjoint: "is_ledger t \<Longrightarrow> t \<notin> set LWW_TABLES"
  using table_names(1) by (auto simp: list_all_iff is_ledger_def)

lemma no_slash_in_tables: "is_replicated t \<Longrightarrow> CHR ''/'' \<notin> set t \<and> t \<noteq> []"
  using table_names(2) by (auto simp: list_all_iff is_replicated_def is_ledger_def replicated_tables_def)

lemma split_once_append: "c \<notin> set a \<Longrightarrow> split_once c (a @ c # b) = Some (a, b)"
  by (induction a) auto

lemma parse_lww_target_round:
  "is_replicated t \<Longrightarrow> i \<noteq> [] \<Longrightarrow> parse_lww_target (lww_target t i) = Some (t, i)"
  using no_slash_in_tables [of t] split_once_append [of "CHR ''/''" t i]
  by (auto simp: parse_lww_target_def lww_target_def)

lemma lww_target_inj:
  assumes "is_replicated t" "is_replicated t'" and "lww_target t i = lww_target t' i'"
  shows "t = t' \<and> i = i'"
proof -
  have a: "split_once (CHR ''/'') (lww_target t i) = Some (t, i)"
    using no_slash_in_tables [OF assms(1)] by (simp add: lww_target_def split_once_append)
  have b: "split_once (CHR ''/'') (lww_target t' i') = Some (t', i')"
    using no_slash_in_tables [OF assms(2)] by (simp add: lww_target_def split_once_append)
  have "Some (t, i) = Some (t', i')"
    using a b unfolding assms(3) by (rule trans [OF sym])
  then show ?thesis by simp
qed

lemma row_value_Inr:
  "row_value L row deleted = Inr v \<longleftrightarrow>
     (\<exists>fields. row = JObject fields) \<and> v = SV_Text ((if deleted then ''x'' else ''v'') @ sl_json_text L row)"
  by (cases row) (auto simp: row_value_def canonical_json_def)

lemma kind_for_Inr:
  "kind_for t = Inr k \<longleftrightarrow> is_replicated t \<and> k = (if is_ledger t then SetAdd else LwwSet)"
  by (auto simp: kind_for_def is_replicated_def)

lemma op_for_write_Inr:
  "op_for_write L ns t i row deleted h = Inr opn \<longleftrightarrow>
     is_replicated t \<and> (\<exists>fields. row = JObject fields) \<and> \<not> (is_ledger t \<and> deleted)
     \<and> opn = \<lparr>op_kind = code L (if is_ledger t then SetAdd else LwwSet), op_ns = ns,
         op_target = (if is_ledger t then t else lww_target t i),
         op_field = (if is_ledger t then None else Some LWW_FIELD),
         op_value = Some (SV_Text ((if deleted then ''x'' else ''v'') @ sl_json_text L row)), op_hlc = h\<rparr>"
proof (cases "is_replicated t")
  case False
  then have "\<exists>e. kind_for t = Inl e" using kind_for_Inr [of t] by (cases "kind_for t") auto
  with False show ?thesis by (auto simp: op_for_write_def)
next
  case True
  then have k: "kind_for t = Inr (if is_ledger t then SetAdd else LwwSet)" by (simp add: kind_for_Inr)
  show ?thesis
  proof (cases "\<exists>fields. row = JObject fields")
    case obj: True
    then have v: "row_value L row d = Inr (SV_Text ((if d then ''x'' else ''v'') @ sl_json_text L row))" for d
      by (simp add: row_value_Inr)
    show ?thesis unfolding op_for_write_def k v using True obj by auto
  next
    case False
    then have "\<exists>e. row_value L row d = Inl e" for d
      using row_value_Inr [of L row d] by (cases "row_value L row d") auto
    then obtain e where "row_value L row d = Inl (e d)" for d by metis
    then show ?thesis unfolding op_for_write_def k using False by auto
  qed
qed

lemma op_for_write_fields:
  assumes "op_for_write L ns t i row deleted h = Inr opn"
  shows "op_kind opn = code L (if is_ledger t then SetAdd else LwwSet)" and "op_ns opn = ns"
    and "op_field opn = (if is_ledger t then None else Some LWW_FIELD)"
    and "op_target opn = (if is_ledger t then t else lww_target t i)"
    and "op_value opn = Some (SV_Text ((if deleted then ''x'' else ''v'') @ sl_json_text L row))"
    and "op_hlc opn = h" and "is_replicated t" and "\<not> (is_ledger t \<and> deleted)"
  using assms unfolding op_for_write_Inr by simp_all

lemma row_payload_round:
  "sl_json_parse L (sl_json_text L row) = Some row \<Longrightarrow>
   parse_row_value L (SV_Text ((if deleted then ''x'' else ''v'') @ sl_json_text L row)) = Some (row, deleted)"
  by (cases deleted) (simp_all add: parse_row_value_def)

end
