(* ===== verification/Sync_Clock.thy ===== *)
theory Sync_Clock
  imports Sync_Mapping
begin

text \<open>
  The persisted clock of \<^verbatim>\<open>crates/slipscan-core/src/sync/clock.rs\<close>: loading with its clamp, minting
  under the drift bound, and the write that never moves the stored clock backwards. The tick
  itself is the engine's; \<open>tick_law\<close> states what the source documents of it.
\<close>

definition MAX_CLOCK_DRIFT_MS :: int where
  "MAX_CLOCK_DRIFT_MS = 24 * 60 * 60 * 1000"

text \<open>The single row of \<^verbatim>\<open>sync_clock\<close>.\<close>

record clock_row =
  cl_wall :: int
  cl_counter :: int
  cl_updated_at :: string

text \<open>\<^verbatim>\<open>wall.max(0) as u64\<close> and \<^verbatim>\<open>counter.max(0) as u32\<close>: a cast keeps the low bits.\<close>

definition load_clock :: "clock_row option \<Rightarrow> string \<Rightarrow> hlc" where
  "load_clock stored author =
     (let (w, c) = (case stored of None \<Rightarrow> (0, 0) | Some r \<Rightarrow> (cl_wall r, cl_counter r))
      in \<lparr>h_wall = word_of_int (max w 0), h_counter = word_of_int (max c 0), h_author = author\<rparr>)"

definition saturating_sub :: "64 word \<Rightarrow> 64 word \<Rightarrow> 64 word" where
  "saturating_sub a b = (if a < b then 0 else a - b)"

definition tick_bounded :: "sync_lib \<Rightarrow> hlc \<Rightarrow> 64 word \<Rightarrow> (hlc \<times> hlc) res" where
  "tick_bounded L clock now_ms =
     (let drift = saturating_sub (h_wall clock) now_ms in
      if MAX_CLOCK_DRIFT_MS < uint drift
      then Inl (SyncClockDrift (nat (uint drift)) (nat MAX_CLOCK_DRIFT_MS))
      else Inr (sl_tick L clock now_ms))"

text \<open>The upsert with its \<^verbatim>\<open>WHERE (excluded.wall, excluded.counter) > (wall, counter)\<close>; \<^verbatim>\<open>as i64\<close> of an
  unsigned wall reads its bits as a signed number.\<close>

definition store_clock :: "hlc \<Rightarrow> string \<Rightarrow> clock_row option \<Rightarrow> clock_row option" where
  "store_clock clock now stored =
     (let new = \<lparr>cl_wall = sint (h_wall clock), cl_counter = uint (h_counter clock), cl_updated_at = now\<rparr> in
      case stored of
        None \<Rightarrow> Some new
      | Some r \<Rightarrow> if (cl_wall r, cl_counter r) < (cl_wall new, cl_counter new) then Some new else Some r)"

section \<open>Laws\<close>

text \<open>The place of a stamp in the log's order (the wall first, then the counter).\<close>

definition stamp :: "hlc \<Rightarrow> int \<times> int" where
  "stamp h = (uint (h_wall h), uint (h_counter h))"

definition tick_law :: "sync_lib \<Rightarrow> bool" where
  "tick_law L \<longleftrightarrow> (\<forall>h now h1 h2. h_counter h \<noteq> -1 \<longrightarrow> sl_tick L h now = (h1, h2) \<longrightarrow>
     h1 = h2 \<and> h_author h2 = h_author h
     \<and> (if h_wall h < now then h_wall h2 = now \<and> h_counter h2 = 0
        else h_wall h2 = h_wall h \<and> h_counter h2 = h_counter h + 1))"

definition hlc_tick :: "hlc \<Rightarrow> 64 word \<Rightarrow> hlc \<times> hlc" where
  "hlc_tick h now =
     (let h' = (if h_wall h < now then h\<lparr>h_wall := now, h_counter := 0\<rparr>
                else h\<lparr>h_counter := h_counter h + 1\<rparr>)
      in (h', h'))"

lemma tick_law_hlc_tick: "sl_tick L = hlc_tick \<Longrightarrow> tick_law L"
  by (auto simp: tick_law_def hlc_tick_def Let_def split: if_splits)

lemma uint_succ: "(c :: 32 word) \<noteq> -1 \<Longrightarrow> uint (c + 1) = uint c + 1"
proof -
  assume "c \<noteq> -1"
  then have "c + 1 \<noteq> 0" by (metis add_eq_0_iff2)
  then have "1 \<le> uint (c + 1)" using uint_0_iff [of "c + 1"] uint_ge_0 [of "c + 1"] by linarith
  then have "uint (c + 1 - 1) = uint (c + 1) - uint (1 :: 32 word)" 
    using uint_sub_lem [where x = "c + 1" and y = 1] by (simp only: uint_1)
  then show "uint (c + 1) = uint c + 1" by simp
qed

text \<open>Below the top of the counter a tick moves strictly forward and never below real time.\<close>

lemma tick_forward:
  assumes "tick_law L" and "h_counter h \<noteq> -1" and "sl_tick L h now = (h1, h2)"
  shows "h1 = h2" and "h_author h2 = h_author h" and "stamp h < stamp h2"
    and "uint (h_wall h2) = max (uint (h_wall h)) (uint now)"
    and "uint (h_counter h2) \<le> uint (h_counter h) + 1"
proof -
  have step: "h1 = h2 \<and> h_author h2 = h_author h
     \<and> (if h_wall h < now then h_wall h2 = now \<and> h_counter h2 = 0
        else h_wall h2 = h_wall h \<and> h_counter h2 = h_counter h + 1)"
    using assms unfolding tick_law_def by blast
  then show "h1 = h2" and "h_author h2 = h_author h" by auto
  have less: "h_wall h < now \<longleftrightarrow> uint (h_wall h) < uint now" by (rule word_less_def)
  have nonneg: "0 \<le> uint (h_counter h)" by simp
  show "stamp h < stamp h2"
    and "uint (h_wall h2) = max (uint (h_wall h)) (uint now)"
    and "uint (h_counter h2) \<le> uint (h_counter h) + 1"
    using step uint_succ [OF assms(2)] less nonneg
    by (simp_all add: stamp_def less_prod_def less_eq_prod_def split: if_splits)
qed

lemma saturating_sub_uint: "uint (saturating_sub a b) = max 0 (uint a - uint b)"
proof (cases "a < b")
  case True
  then show ?thesis by (simp add: saturating_sub_def word_less_def)
next
  case False
  then have "uint b \<le> uint a" by (simp add: word_less_def)
  then show ?thesis using False uint_sub_lem [of b a] by (simp add: saturating_sub_def)
qed

lemma tick_bounded_Inr:
  "tick_bounded L h now = Inr p \<longleftrightarrow> uint (h_wall h) \<le> uint now + MAX_CLOCK_DRIFT_MS \<and> p = sl_tick L h now"
  by (auto simp: tick_bounded_def Let_def saturating_sub_uint MAX_CLOCK_DRIFT_MS_def)

lemma tick_bounded_Inl:
  "tick_bounded L h now = Inl e \<longleftrightarrow> uint now + MAX_CLOCK_DRIFT_MS < uint (h_wall h)
     \<and> e = SyncClockDrift (nat (uint (h_wall h) - uint now)) (nat MAX_CLOCK_DRIFT_MS)"
  by (auto simp: tick_bounded_def Let_def saturating_sub_uint MAX_CLOCK_DRIFT_MS_def max_def)

text \<open>A stored clock that a run of the program can have written.\<close>

definition clock_ok :: "clock_row option \<Rightarrow> bool" where
  "clock_ok stored \<longleftrightarrow> (case stored of None \<Rightarrow> True
     | Some r \<Rightarrow> 0 \<le> cl_wall r \<and> cl_wall r < 2 ^ 63 \<and> 0 \<le> cl_counter r \<and> cl_counter r < 2 ^ 32)"

definition stored_stamp :: "clock_row option \<Rightarrow> int \<times> int" where
  "stored_stamp stored = (case stored of None \<Rightarrow> (0, 0) | Some r \<Rightarrow> (cl_wall r, cl_counter r))"

lemma load_clock_stamp:
  assumes "clock_ok stored"
  shows "stamp (load_clock stored author) = stored_stamp stored"
    and "h_author (load_clock stored author) = author"
proof -
  show "h_author (load_clock stored author) = author" by (simp add: load_clock_def split: option.splits)
  show "stamp (load_clock stored author) = stored_stamp stored"
  proof (cases stored)
    case None
    then show ?thesis by (simp add: load_clock_def stamp_def stored_stamp_def)
  next
    case (Some r)
    with assms have r: "0 \<le> cl_wall r" "cl_wall r < 2 ^ 63" "0 \<le> cl_counter r" "cl_counter r < 2 ^ 32"
      by (simp_all add: clock_ok_def)
    then have "cl_wall r mod 2 ^ 64 = cl_wall r" "cl_counter r mod 2 ^ 32 = cl_counter r"
      by (simp_all add: mod_pos_pos_trivial)
    with r(1,3) show ?thesis
      by (simp add: Some load_clock_def stamp_def stored_stamp_def uint_word_of_int max_def)
  qed
qed

lemma sint_small:
  assumes "uint (w :: 64 word) < 2 ^ 63"
  shows "sint w = uint w"
proof -
  have "0 \<le> uint w" by simp
  moreover have "sint w = (uint w + 2 ^ 63) mod 2 ^ 64 - 2 ^ 63"
    by (simp add: sint_uint signed_take_bit_eq_take_bit_shift take_bit_eq_mod)
  ultimately show ?thesis using assms by (simp add: mod_pos_pos_trivial)
qed

text \<open>Storing a clock that is not behind keeps exactly its stamp; a clock that is behind is ignored.\<close>

lemma store_clock_stamp:
  assumes "clock_ok stored" and "uint (h_wall h) < 2 ^ 63"
  shows "clock_ok (store_clock h now stored)"
    and "stored_stamp (store_clock h now stored) = max (stored_stamp stored) (stamp h)"
proof -
  have w: "sint (h_wall h) = uint (h_wall h)" using sint_small [OF assms(2)] .
  have c: "uint (h_counter h) < 2 ^ 32" using uint_lt2p [of "h_counter h"] by simp
  let ?new = "\<lparr>cl_wall = uint (h_wall h), cl_counter = uint (h_counter h), cl_updated_at = now\<rparr>"
  have eq: "store_clock h now stored =
      (if stored = None \<or> stored_stamp stored < stamp h then Some ?new else stored)"
    by (auto simp: store_clock_def w stored_stamp_def stamp_def split: option.splits)
  have new: "clock_ok (Some ?new)" "stored_stamp (Some ?new) = stamp h"
    using assms(2) c by (simp_all add: clock_ok_def stored_stamp_def stamp_def)
  show "clock_ok (store_clock h now stored)" using assms(1) new(1) by (simp add: eq)
  have "(0, 0) \<le> stamp h" by (simp add: stamp_def less_eq_prod_def)
  then show "stored_stamp (store_clock h now stored) = max (stored_stamp stored) (stamp h)"
    unfolding eq using new(2) by (auto simp: max_def stored_stamp_def split: option.splits)
qed

end
