(* ===== verification/Sync_Log.thy ===== *)
theory Sync_Log
  imports Sync_Clock "HOL-Library.AList"
begin

text \<open>
  Capture and sealing, \<^verbatim>\<open>crates/slipscan-core/src/sync/capture.rs\<close> and \<^verbatim>\<open>sync/mod.rs\<close>: the outbox the
  capture triggers fill, reading a row back as JSON, and the signed log.

  The vault (\<^verbatim>\<open>secrets/vault.rs\<close>) and its audit entries are not modelled here: what \<^verbatim>\<open>use_with\<close> yields for
  the identity secret is a field of the state. The replicated tables are the generic content a
  \<^verbatim>\<open>SELECT *\<close> of a row returns.
\<close>

section \<open>The state\<close>

datatype sql_value = SqlNull | SqlInteger int | SqlReal "64 word" | SqlText string | SqlBlob string

type_synonym cells = "(string \<times> sql_value) list"

record captured =
  cp_seq :: int
  cp_table :: string
  cp_row_id :: string
  cp_ns :: string
  cp_deleted :: bool

text \<open>A row of \<^verbatim>\<open>sync_oplog\<close>.\<close>

record op_row =
  or_op_id :: string
  or_ns :: string
  or_kind :: int
  or_target :: string
  or_author :: string
  or_hlc_wall :: int
  or_hlc_counter :: int
  or_cose :: string
  or_origin :: string
  or_recorded_at :: string

text \<open>
  \<open>ol_next_seq\<close> is the outbox's \<^verbatim>\<open>AUTOINCREMENT\<close> counter, \<open>ol_secret\<close> the identity secret or the
  vault's error, \<open>ol_applying\<close> the capture switch of \<^verbatim>\<open>sync_control\<close>.
\<close>

record oplog =
  ol_rows :: "((string \<times> string) \<times> cells) list"
  ol_outbox :: "captured list"
  ol_next_seq :: int
  ol_applying :: bool
  ol_clock :: "clock_row option"
  ol_ops :: "op_row list"
  ol_identity :: "string option"
  ol_secret :: "string res"
  ol_now :: string

section \<open>Capture\<close>

text \<open>
  What a captured table's triggers do beside a write of the row: an entry naming the row, unless a
  peer's operations are being applied. A ledger table has an insert trigger only, and its
  update and delete triggers abort the statement.
\<close>

definition capture :: "string \<Rightarrow> string \<Rightarrow> string \<Rightarrow> bool \<Rightarrow> oplog \<Rightarrow> oplog" where
  "capture t i ns deleted s =
     (if ol_applying s then s
      else s\<lparr>ol_outbox := ol_outbox s @ [\<lparr>cp_seq = ol_next_seq s, cp_table = t, cp_row_id = i, cp_ns = ns,
               cp_deleted = deleted\<rparr>],
             ol_next_seq := ol_next_seq s + 1\<rparr>)"

definition row_of :: "oplog \<Rightarrow> string \<Rightarrow> string \<Rightarrow> cells option" where
  "row_of s t i = map_of (ol_rows s) (t, i)"

text \<open>The messages the triggers of the ledger tables abort with (the migrations of \<^verbatim>\<open>slipscan-core\<close>).\<close>

definition immutable_message :: "string \<Rightarrow> string" where
  "immutable_message table = (case map_of
     [(''journals'', ''posted journals are immutable; post a reversal instead''),
      (''journal_lines'', ''posted journal lines are immutable; post a reversal instead''),
      (''stock_movements'', ''stock movements are immutable; record a compensating movement instead''),
      (''po_receipts'', ''goods receipts are immutable; record a compensating receipt instead''),
      (''invoices'', ''issued invoices are immutable; a correction is a credit note, not an edit''),
      (''invoice_items'', ''issued invoice lines are immutable; a correction is a credit note, not an edit''),
      (''invoice_payments'', ''recorded payments are immutable; record a refund or correction as a new fact''),
      (''networth_snapshots'', ''net-worth snapshots are immutable; record a new snapshot instead''),
      (''asset_depreciation_runs'', ''depreciation runs are immutable; reverse the journal instead''),
      (''recurring_runs'', ''a recurring run is an immutable fact; record a compensating action instead'')] table of
       None \<Rightarrow> [] | Some m \<Rightarrow> m)"

definition write_row :: "string \<Rightarrow> string \<Rightarrow> string \<Rightarrow> cells \<Rightarrow> oplog \<Rightarrow> oplog res" where
  "write_row t i ns cells s =
     (if is_ledger t \<and> row_of s t i \<noteq> None then Inl (Sqlite (immutable_message t))
      else Inr (capture t i ns False (s\<lparr>ol_rows := AList.update (t, i) cells (ol_rows s)\<rparr>)))"

definition delete_row :: "string \<Rightarrow> string \<Rightarrow> string \<Rightarrow> oplog \<Rightarrow> oplog res" where
  "delete_row t i ns s =
     (if row_of s t i = None then Inr s
      else if is_ledger t then Inl (Sqlite (immutable_message t))
      else Inr (capture t i ns True (s\<lparr>ol_rows := AList.delete (t, i) (ol_rows s)\<rparr>)))"

definition drain_list :: "oplog \<Rightarrow> captured list" where
  "drain_list s = sort_key cp_seq (ol_outbox s)"

definition same_row :: "captured \<Rightarrow> captured \<Rightarrow> bool" where
  "same_row k e \<longleftrightarrow> cp_table k = cp_table e \<and> cp_row_id k = cp_row_id e"

text \<open>The loop over the entries from the last to the first, pushing an entry unless its row was
  already kept.\<close>

definition coalesce :: "captured list \<Rightarrow> captured list" where
  "coalesce entries =
     rev (foldl (\<lambda>kept e. if list_ex (\<lambda>k. same_row k e) kept then kept else kept @ [e]) []
       (rev (sort_key cp_seq entries)))"

section \<open>Payloads\<close>

text \<open>\<^verbatim>\<open>serde_json::Number::from_f64\<close> refuses NaN and the infinities, the values whose exponent bits
  are all set.\<close>

definition from_f64 :: "64 word \<Rightarrow> json option" where
  "from_f64 b = (if unat (drop_bit 52 b) mod 2048 = 2047 then None else Some (JReal b))"

definition sql_to_json :: "string \<Rightarrow> string \<Rightarrow> sql_value \<Rightarrow> json res" where
  "sql_to_json table column v = (case v of
       SqlNull \<Rightarrow> Inr JNull
     | SqlInteger i \<Rightarrow> Inr (JInt i)
     | SqlReal r \<Rightarrow> ok_or (from_f64 r)
         (Validation (table @ ''.'' @ column @ '' holds a non-finite number, which has no exact ''
            @ ''encoding; refusing to replicate it as something else''))
     | SqlText t \<Rightarrow> Inr (JText t)
     | SqlBlob _ \<Rightarrow> Inl (Validation (table @ ''.'' @ column
         @ '' is a BLOB; replicating binary columns needs a mapping decision that has not been made'')))"

definition row_object :: "string \<Rightarrow> cells \<Rightarrow> (string \<times> json) list res" where
  "row_object table cells =
     for_each (\<lambda>(column, v) fields.
       attempt (sql_to_json table column v) (\<lambda>j. Inr (json_insert column j fields))) cells []"

definition read_row :: "oplog \<Rightarrow> string \<Rightarrow> string \<Rightarrow> json option res" where
  "read_row s table i =
     (if \<not> is_replicated table
      then Inl (Validation (table @ '' is not a replicated table; refusing to read it into an op''))
      else case row_of s table i of
        None \<Rightarrow> Inr None
      | Some cells \<Rightarrow> attempt (row_object table cells) (\<lambda>fields. Inr (Some (JObject fields))))"

definition tombstone :: "string \<Rightarrow> json" where
  "tombstone i = JObject [(''id'', JText i)]"

section \<open>Hex\<close>

definition hex_char :: "int \<Rightarrow> char" where
  "hex_char d = char_of (if d < 10 then 48 + d else 87 + d)"

definition encode_hex :: "string \<Rightarrow> string" where
  "encode_hex bytes =
     concat (map (\<lambda>b. let n = of_char b :: int in [hex_char (n div 16), hex_char (n mod 16)]) bytes)"

text \<open>\<^verbatim>\<open>char::to_digit(16)\<close>.\<close>

definition to_digit16 :: "char \<Rightarrow> int option" where
  "to_digit16 c = (let n = of_char c :: int in
     if 48 \<le> n \<and> n \<le> 57 then Some (n - 48)
     else if 97 \<le> n \<and> n \<le> 102 then Some (n - 87)
     else if 65 \<le> n \<and> n \<le> 70 then Some (n - 55)
     else None)"

fun decode_hex :: "string \<Rightarrow> string option" where
  "decode_hex [] = Some []"
| "decode_hex [_] = None"
| "decode_hex (a # b # rest) =
     (case (to_digit16 a, to_digit16 b, decode_hex rest) of
        (Some hi, Some lo, Some out) \<Rightarrow> Some (char_of (hi * 16 + lo) # out)
      | _ \<Rightarrow> None)"

text \<open>The same through the cheap conversions, for evaluation.\<close>

lemmas hex_char_code [code] = hex_char_def [folded int_char_def]
lemmas encode_hex_code [code] = encode_hex_def [folded char_int_def]
lemmas to_digit16_code [code] = to_digit16_def [folded char_int_def]
lemmas decode_hex_code [code] = decode_hex.simps [folded int_char_def]

section \<open>Origins and stored operations\<close>

datatype op_origin = Local | Remote

definition op_origin_str :: "op_origin \<Rightarrow> string" where
  "op_origin_str x = (case x of Local \<Rightarrow> ''local'' | Remote \<Rightarrow> ''remote'')"

definition op_origin_parse :: "string \<Rightarrow> op_origin res" where
  "op_origin_parse raw =
     (if raw = ''local'' then Inr Local
      else if raw = ''remote'' then Inr Remote
      else Inl (InvalidEnum ''op origin'' raw))"

record stored_op =
  st_op_id :: string
  st_ns :: string
  st_kind :: "8 word"
  st_target :: string
  st_author :: string
  st_hlc_wall :: "64 word"
  st_hlc_counter :: "32 word"
  st_cose :: string
  st_origin :: op_origin
  st_recorded_at :: string

definition map_op :: "op_row \<Rightarrow> stored_op res" where
  "map_op r =
     (if or_kind r < 0 \<or> 255 < or_kind r then Inl (InvalidEnum ''op kind'' (show_int (or_kind r)))
      else attempt (op_origin_parse (or_origin r)) (\<lambda>origin.
        Inr \<lparr>st_op_id = or_op_id r, st_ns = or_ns r, st_kind = word_of_int (or_kind r),
          st_target = or_target r, st_author = or_author r,
          st_hlc_wall = word_of_int (max (or_hlc_wall r) 0),
          st_hlc_counter = word_of_int (max (or_hlc_counter r) 0),
          st_cose = or_cose r, st_origin = origin, st_recorded_at = or_recorded_at r\<rparr>))"

text \<open>The two comparison loops of \<^verbatim>\<open>StoredOp::verify\<close>, over the text columns and over the numbers.\<close>

fun text_columns_agree :: "(string \<times> string \<times> string) list \<Rightarrow> string option" where
  "text_columns_agree [] = None"
| "text_columns_agree ((field, stored, claimed) # rest) =
     (if stored \<noteq> claimed
      then Some (field @ '' column says '' @ debug_str stored @ '', the signed op says '' @ debug_str claimed)
      else text_columns_agree rest)"

fun number_columns_agree :: "(string \<times> nat \<times> nat) list \<Rightarrow> string option" where
  "number_columns_agree [] = None"
| "number_columns_agree ((field, stored, claimed) # rest) =
     (if stored \<noteq> claimed
      then Some (field @ '' column says '' @ show_nat stored @ '', the signed op says '' @ show_nat claimed)
      else number_columns_agree rest)"

definition verify :: "sync_lib \<Rightarrow> stored_op \<Rightarrow> sync_op res" where
  "verify L st =
     (case sl_verify L (st_cose st) of
        Inl err \<Rightarrow> Inl (SyncOpUnverified (st_op_id st) (''signature: '' @ err))
      | Inr opn \<Rightarrow>
        (let derived = encode_hex (sl_op_id L opn);
             author = encode_hex (h_author (op_hlc opn)) in
         if derived \<noteq> st_op_id st
         then Inl (SyncOpUnverified (st_op_id st) (''op-id is '' @ st_op_id st
                @ '', but this op's content addresses to '' @ derived))
         else case text_columns_agree [(''ns'', st_ns st, op_ns opn), (''target'', st_target st, op_target opn),
                (''author'', st_author st, author)] of
           Some reason \<Rightarrow> Inl (SyncOpUnverified (st_op_id st) reason)
         | None \<Rightarrow>
           (case number_columns_agree [(''kind'', unat (st_kind st), unat (op_kind opn)),
                (''hlc_wall'', unat (st_hlc_wall st), unat (h_wall (op_hlc opn))),
                (''hlc_counter'', unat (st_hlc_counter st), unat (h_counter (op_hlc opn)))] of
              Some reason \<Rightarrow> Inl (SyncOpUnverified (st_op_id st) reason)
            | None \<Rightarrow> Inr opn)))"

definition stored_hlc :: "stored_op \<Rightarrow> hlc res" where
  "stored_hlc st =
     attempt (ok_or (decode_hex (st_author st)) (SyncOpUnverified (st_op_id st) ''author column is not hex''))
       (\<lambda>author. Inr \<lparr>h_wall = st_hlc_wall st, h_counter = st_hlc_counter st, h_author = author\<rparr>)"

section \<open>Sealing\<close>

record seal_report =
  sr_captured :: nat
  sr_sealed :: nat
  sr_already_present :: nat

definition insert_op :: "sync_lib \<Rightarrow> sync_op \<Rightarrow> string \<Rightarrow> op_origin \<Rightarrow> oplog \<Rightarrow> bool \<times> oplog" where
  "insert_op L opn envelope origin s =
     (let oid = encode_hex (sl_op_id L opn) in
      if list_ex (\<lambda>r. or_op_id r = oid) (ol_ops s) then (False, s)
      else (True, s\<lparr>ol_ops := ol_ops s @ [\<lparr>or_op_id = oid, or_ns = op_ns opn, or_kind = uint (op_kind opn),
              or_target = op_target opn, or_author = encode_hex (h_author (op_hlc opn)),
              or_hlc_wall = sint (h_wall (op_hlc opn)), or_hlc_counter = uint (h_counter (op_hlc opn)),
              or_cose = envelope, or_origin = op_origin_str origin, or_recorded_at = ol_now s\<rparr>]\<rparr>))"

definition payload_of :: "oplog \<Rightarrow> captured \<Rightarrow> (json \<times> bool) res" where
  "payload_of s e =
     (if cp_deleted e then Inr (tombstone (cp_row_id e), True)
      else attempt (read_row s (cp_table e) (cp_row_id e)) (\<lambda>row. case row of
        Some j \<Rightarrow> Inr (j, False)
      | None \<Rightarrow> Inr (tombstone (cp_row_id e), True)))"

text \<open>One pass of the sealing loop: the clock, the report and the log are its state.\<close>

definition seal_entry ::
    "sync_lib \<Rightarrow> string \<Rightarrow> 64 word \<Rightarrow> captured \<Rightarrow> hlc \<times> seal_report \<times> oplog \<Rightarrow> (hlc \<times> seal_report \<times> oplog) res" where
  "seal_entry L seed now_ms e st =
     (case st of (clock, rep, s) \<Rightarrow>
      attempt (payload_of s e) (\<lambda>(payload, deleted).
      attempt (tick_bounded L clock now_ms) (\<lambda>(h, clock').
      case op_for_write L (cp_ns e) (cp_table e) (cp_row_id e) payload deleted h of
        Inl err \<Rightarrow> Inl (SyncMapping (map_error_str err))
      | Inr opn \<Rightarrow>
        (case sl_sign L seed opn of
           Inl err \<Rightarrow> Inl (SyncMapping (''signing failed: '' @ err))
         | Inr envelope \<Rightarrow>
           (let (fresh, s') = insert_op L opn envelope Local s in
            Inr (clock',
              (if fresh then rep\<lparr>sr_sealed := sr_sealed rep + 1\<rparr>
               else rep\<lparr>sr_already_present := sr_already_present rep + 1\<rparr>), s'))))))"

definition require_identity :: "oplog \<Rightarrow> string res" where
  "require_identity s = ok_or (ol_identity s) DeviceIdentityMissing"

text \<open>\<^verbatim>\<open>Devices::with_identity_key\<close>: the vault's secret decodes to the 32-byte seed of the device's
  public key, or nothing is done with it.\<close>

definition with_identity_key :: "sync_lib \<Rightarrow> oplog \<Rightarrow> (string \<Rightarrow> 'a res) \<Rightarrow> 'a res" where
  "with_identity_key L s consume =
     attempt (require_identity s) (\<lambda>public_key.
     attempt (ol_secret s) (\<lambda>secret.
       case decode_hex secret of
         Some seed \<Rightarrow>
           (if length seed \<noteq> 32 then Inl (DeviceKeyUnusable ''this device's stored private key'')
            else if encode_hex (sl_public L seed) \<noteq> public_key then Inl DeviceKeyMismatch
            else consume seed)
       | None \<Rightarrow> Inl (DeviceKeyUnusable ''this device's stored private key'')))"

definition seal_at :: "sync_lib \<Rightarrow> 64 word \<Rightarrow> oplog \<Rightarrow> (seal_report \<times> oplog) res" where
  "seal_at L now_ms s =
     attempt (require_identity s) (\<lambda>_.
     let entries = drain_list s in
     if entries = [] then Inr (\<lparr>sr_captured = 0, sr_sealed = 0, sr_already_present = 0\<rparr>, s)
     else
       let high_water = Max (set (map cp_seq entries)) in
       with_identity_key L s (\<lambda>seed.
         attempt (for_each (seal_entry L seed now_ms) (coalesce entries)
           (load_clock (ol_clock s) (sl_public L seed),
            \<lparr>sr_captured = length entries, sr_sealed = 0, sr_already_present = 0\<rparr>, s))
         (\<lambda>(clock, rep, s').
            Inr (rep, s'\<lparr>ol_clock := store_clock clock (ol_now s') (ol_clock s'),
               ol_outbox := filter (\<lambda>e. \<not> cp_seq e \<le> high_water) (ol_outbox s')\<rparr>))))"

section \<open>Reading the log\<close>

definition ordered_rows :: "op_row list \<Rightarrow> op_row list" where
  "ordered_rows rows = sort_key (\<lambda>r. (or_hlc_wall r, or_hlc_counter r, or_op_id r)) rows"

definition ops :: "oplog \<Rightarrow> string option \<Rightarrow> nat option \<Rightarrow> stored_op list res" where
  "ops s ns limit =
     (let rows = ordered_rows (case ns of None \<Rightarrow> ol_ops s | Some n \<Rightarrow> filter (\<lambda>r. or_ns r = n) (ol_ops s));
          window = (case limit of None \<Rightarrow> rows | Some n \<Rightarrow> take n rows)
      in map_res map_op window)"

definition pending :: "oplog \<Rightarrow> nat" where
  "pending s = length (ol_outbox s)"

definition log_len :: "oplog \<Rightarrow> nat" where
  "log_len s = length (ol_ops s)"

record verify_report =
  vr_checked :: nat
  vr_failures :: "(string \<times> string) list"

definition is_sound :: "verify_report \<Rightarrow> bool" where
  "is_sound r \<longleftrightarrow> vr_failures r = []"

definition verify_step :: "sync_lib \<Rightarrow> verify_report \<Rightarrow> stored_op \<Rightarrow> verify_report" where
  "verify_step L r st =
     (case verify L st of
        Inl (SyncOpUnverified i reason) \<Rightarrow>
          \<lparr>vr_checked = vr_checked r + 1, vr_failures = vr_failures r @ [(i, reason)]\<rparr>
      | _ \<Rightarrow> r\<lparr>vr_checked := vr_checked r + 1\<rparr>)"

definition verify_all :: "sync_lib \<Rightarrow> oplog \<Rightarrow> verify_report res" where
  "verify_all L s =
     attempt (ops s None None) (\<lambda>stored.
       Inr (foldl (verify_step L) \<lparr>vr_checked = 0, vr_failures = []\<rparr> stored))"

text \<open>The engine's state and its \<^verbatim>\<open>ingest\<close> are arguments: the engine is not part of the repository.\<close>

definition replay ::
    "sync_lib \<Rightarrow> 'e \<Rightarrow> (sync_op \<Rightarrow> 'e \<Rightarrow> string + 'e) \<Rightarrow> oplog \<Rightarrow> 'e res" where
  "replay L init ingest s =
     attempt (ops s None None) (\<lambda>stored.
       for_each (\<lambda>st e. attempt (verify L st) (\<lambda>opn. case ingest opn e of
           Inl err \<Rightarrow> Inl (SyncOpUnverified (st_op_id st) (''engine refused it: '' @ err))
         | Inr e' \<Rightarrow> Inr e')) stored init)"

text \<open>\<^verbatim>\<open>GROUP BY author ORDER BY author\<close> with the two maxima the query asks for.\<close>

definition version_vector :: "oplog \<Rightarrow> (string \<times> 64 word \<times> 32 word) list" where
  "version_vector s =
     map (\<lambda>a. let mine = filter (\<lambda>r. or_author r = a) (ol_ops s) in
            (a, word_of_int (Max (set (map or_hlc_wall mine))), word_of_int (Max (set (map or_hlc_counter mine)))))
       (sorted_list_of_set (set (map or_author (ol_ops s))))"

definition namespaces :: "oplog \<Rightarrow> (string \<times> nat) list" where
  "namespaces s =
     map (\<lambda>n. (n, length (filter (\<lambda>r. or_ns r = n) (ol_ops s))))
       (sorted_list_of_set (set (map or_ns (ol_ops s))))"

end
