(* ===== verification/Sync_Laws.thy ===== *)
theory Sync_Laws
  imports Sync_Log
begin

text \<open>
  What capture and sealing guarantee: coalescing is last-writer-wins, stamps strictly increase,
  the log only grows, every sealed operation verifies, and a log with nothing pending carries
  exactly the rows of the tables. The laws of the engine the proofs rest on are \<open>engine_law\<close>.
\<close>

section \<open>Coalescing\<close>

definition row_key :: "captured \<Rightarrow> string \<times> string" where
  "row_key e = (cp_table e, cp_row_id e)"

lemma in_row_keys: "e \<in> set es \<Longrightarrow> row_key e = k \<Longrightarrow> k \<in> row_key ` set es"
  by auto

fun keep_last :: "captured list \<Rightarrow> captured list" where
  "keep_last [] = []"
| "keep_last (e # es) = (if row_key e \<in> row_key ` set es then keep_last es else e # keep_last es)"

lemma keys_keep_last: "row_key ` set (keep_last es) = row_key ` set es"
  by (induction es) auto

lemma keep_last_facts:
  "distinct (map row_key (keep_last es))" "set (keep_last es) \<subseteq> set es"
  "sorted (map cp_seq es) \<Longrightarrow> sorted (map cp_seq (keep_last es))"
proof (induction es)
  case (Cons e es)
  show "distinct (map row_key (keep_last (e # es)))"
    using Cons.IH(1) keys_keep_last [of es] by auto
  show "set (keep_last (e # es)) \<subseteq> set (e # es)" using Cons.IH(2) by auto
  show "sorted (map cp_seq (keep_last (e # es)))" if "sorted (map cp_seq (e # es))"
    using that Cons.IH(2,3) by auto
qed simp_all

lemma coalesce_loop:
  "foldl (\<lambda>kept e. if list_ex (\<lambda>k. same_row k e) kept then kept else kept @ [e]) [] (rev es)
     = rev (keep_last es)"
proof (induction es)
  case (Cons e es)
  have "list_ex (\<lambda>k. same_row k e) (rev (keep_last es)) \<longleftrightarrow> row_key e \<in> row_key ` set (keep_last es)"
    unfolding list_ex_iff set_rev same_row_def row_key_def image_iff prod.inject by (metis (lifting))
  then have "list_ex (\<lambda>k. same_row k e) (rev (keep_last es)) \<longleftrightarrow> row_key e \<in> row_key ` set es"
    unfolding keys_keep_last .
  then show ?case using Cons by simp
qed simp

lemma coalesce_eq: "coalesce es = keep_last (sort_key cp_seq es)"
  unfolding coalesce_def coalesce_loop by simp

text \<open>Writing a list of captured rows, one after the other, into a map of rows.\<close>

fun overwrite :: "(captured \<Rightarrow> 'v) \<Rightarrow> captured list \<Rightarrow> (string \<times> string \<Rightarrow> 'v) \<Rightarrow> (string \<times> string \<Rightarrow> 'v)" where
  "overwrite f [] m = m"
| "overwrite f (e # es) m = overwrite f es (m(row_key e := f e))"

lemma overwrite_twice: "k \<in> row_key ` set es \<Longrightarrow> overwrite f es (m(k := v)) = overwrite f es m"
proof (induction es arbitrary: m)
  case (Cons e es)
  show ?case
  proof (cases "row_key e = k")
    case False
    with Cons.prems have "k \<in> row_key ` set es" by auto
    have "overwrite f (e # es) (m(k := v)) = overwrite f es ((m(row_key e := f e))(k := v))"
      unfolding overwrite.simps fun_upd_twist [OF False [symmetric]] ..
    also have "\<dots> = overwrite f (e # es) m"
      unfolding overwrite.simps by (rule Cons.IH) fact
    finally show ?thesis .
  next
    case True
    then show ?thesis unfolding overwrite.simps by (simp only: fun_upd_upd)
  qed
qed simp

lemma overwrite_keep_last: "overwrite f (keep_last es) m = overwrite f es m"
  by (induction es arbitrary: m) (auto simp: overwrite_twice)

lemma kept_is_last:
  "e \<in> set (keep_last es) \<Longrightarrow> e = last (filter (\<lambda>x. row_key x = row_key e) es)"
proof (induction es)
  case (Cons x xs)
  show ?case
  proof (cases "e \<in> set (keep_last xs)")
    case True
    then have "filter (\<lambda>x. row_key x = row_key e) xs \<noteq> []"
      using keep_last_facts(2) [of xs] by (auto simp: filter_empty_conv)
    then show ?thesis using Cons True by simp
  next
    case False
    with Cons.prems have x: "x = e" "row_key e \<notin> row_key ` set xs" by (auto split: if_splits)
    then have "filter (\<lambda>x. row_key x = row_key e) xs = []"
      unfolding filter_empty_conv by (metis imageI)
    then show ?thesis using x by simp
  qed
qed simp

lemma coalesce_keeps_keys:
  "distinct (map row_key (coalesce es)) \<and> row_key ` set (coalesce es) = row_key ` set es"
  using keep_last_facts(1) [of "sort_key cp_seq es"] keys_keep_last [of "sort_key cp_seq es"]
  by (simp add: coalesce_eq)

text \<open>
  \<^bold>\<open>C16.\<close> Coalescing drops nothing a last-writer-wins register would keep: whatever value each
  captured write assigns to its row, writing the coalesced entries gives the same rows as
  writing every entry in the order of capture. It keeps one entry per row, for exactly the rows
  captured, and in the order of capture.
\<close>
theorem coalesce_keeps_last_writes:
  "overwrite f (coalesce es) m = overwrite f (sort_key cp_seq es) m
   \<and> distinct (map row_key (coalesce es)) \<and> sorted (map cp_seq (coalesce es))
   \<and> set (coalesce es) \<subseteq> set es \<and> row_key ` set (coalesce es) = row_key ` set es"
proof -
  have "set (sort_key cp_seq es) = set es" by simp
  then show ?thesis
    using keep_last_facts [of "sort_key cp_seq es"] keys_keep_last [of "sort_key cp_seq es"]
    by (simp add: coalesce_eq overwrite_keep_last)
qed

section \<open>Laws of the engine\<close>

text \<open>
  What the log relies on of the engine: the tick law; content addresses tell operations apart (an
  op id is the hash of the operation's canonical encoding, so this is collision resistance, taken
  as never colliding); and an envelope signed with the key its author names verifies to the
  operation that was signed.
\<close>

definition engine_law :: "sync_lib \<Rightarrow> bool" where
  "engine_law L \<longleftrightarrow> tick_law L \<and> (\<forall>x y. sl_op_id L x = sl_op_id L y \<longrightarrow> x = y)
     \<and> (\<forall>seed opn env. h_author (op_hlc opn) = sl_public L seed \<longrightarrow> sl_sign L seed opn = Inr env
          \<longrightarrow> sl_verify L env = Inr opn)"

lemma hex_char_inj: "0 \<le> a \<Longrightarrow> a < 16 \<Longrightarrow> 0 \<le> b \<Longrightarrow> b < 16 \<Longrightarrow> hex_char a = hex_char b \<Longrightarrow> a = b"
proof -
  assume range: "0 \<le> a" "a < 16" "0 \<le> b" "b < 16" and eq: "hex_char a = hex_char b"
  have "(of_char (hex_char n) :: int) = (if n < 10 then 48 + n else 87 + n)" if "0 \<le> n" "n < 16" for n
    using that by (simp add: hex_char_def)
  with eq range have "(if a < 10 then 48 + a else 87 + a) = (if b < 10 then 48 + b else 87 + b)" by metis
  with range show ?thesis by (simp split: if_splits)
qed

lemma encode_hex_inj: "encode_hex a = encode_hex b \<Longrightarrow> a = b"
proof (induction a arbitrary: b)
  case Nil
  then show ?case by (cases b) (auto simp: encode_hex_def Let_def)
next
  case (Cons x a)
  then obtain y b' where b: "b = y # b'" by (cases b) (auto simp: encode_hex_def Let_def)
  let ?x = "of_char x :: int" and ?y = "of_char y :: int"
  have "int (of_char x) = ?x" "int (of_char y) = ?y" by (simp_all add: of_nat_of_char)
  moreover have "int (of_char x) < 256" "int (of_char y) < 256"
    using nat_of_char_less_256 [of x] nat_of_char_less_256 [of y] by linarith+
  ultimately have range: "0 \<le> ?x" "?x < 256" "0 \<le> ?y" "?y < 256" by linarith+
  have "hex_char (?x div 16) = hex_char (?y div 16)" "hex_char (?x mod 16) = hex_char (?y mod 16)"
    and rest: "encode_hex a = encode_hex b'"
    using Cons.prems by (auto simp: b encode_hex_def Let_def)
  moreover have "0 \<le> ?x div 16" "?x div 16 < 16" "0 \<le> ?y div 16" "?y div 16 < 16" using range by presburger+
  ultimately have "?x div 16 = ?y div 16" "?x mod 16 = ?y mod 16"
    by (auto intro: hex_char_inj)
  then have "?x = ?y" by (metis div_mult_mod_eq)
  then show ?case using Cons.IH [OF rest] by (simp add: b)
qed

section \<open>The log as a history of operations\<close>

text \<open>A row of the log stands for an operation: it indexes it and carries its signed envelope.\<close>

definition stands_for :: "sync_lib \<Rightarrow> op_row \<Rightarrow> sync_op \<Rightarrow> bool" where
  "stands_for L r opn \<longleftrightarrow>
     or_op_id r = encode_hex (sl_op_id L opn) \<and> or_ns r = op_ns opn \<and> or_kind r = uint (op_kind opn)
     \<and> or_target r = op_target opn \<and> or_author r = encode_hex (h_author (op_hlc opn))
     \<and> (or_hlc_wall r, or_hlc_counter r) = stamp (op_hlc opn) \<and> uint (h_wall (op_hlc opn)) < 2 ^ 63
     \<and> or_origin r = ''local''
     \<and> (\<exists>seed. h_author (op_hlc opn) = sl_public L seed \<and> sl_sign L seed opn = Inr (or_cose r))"

definition history :: "sync_lib \<Rightarrow> oplog \<Rightarrow> sync_op list \<Rightarrow> bool" where
  "history L s os \<longleftrightarrow> list_all2 (stands_for L) (ol_ops s) os \<and> sorted_wrt (<) (map (\<lambda>x. stamp (op_hlc x)) os)"

text \<open>The operation that sealing an entry in a given store mints.\<close>

definition minted :: "sync_lib \<Rightarrow> oplog \<Rightarrow> captured \<Rightarrow> sync_op \<Rightarrow> bool" where
  "minted L s e opn \<longleftrightarrow> (\<exists>payload deleted. payload_of s e = Inr (payload, deleted)
     \<and> op_for_write L (cp_ns e) (cp_table e) (cp_row_id e) payload deleted (op_hlc opn) = Inr opn)"

lemma payload_of_rows: "ol_rows s' = ol_rows s \<Longrightarrow> payload_of s' e = payload_of s e"
  by (simp add: payload_of_def read_row_def row_of_def)

lemma stands_for_id: "list_all2 (stands_for L) rows os \<Longrightarrow> or_op_id ` set rows = (\<lambda>x. encode_hex (sl_op_id L x)) ` set os"
  by (induction rule: list_all2_induct) (auto simp: stands_for_def)

lemma counter_not_top: "uint (c :: 32 word) + 1 < 2 ^ 32 \<Longrightarrow> c \<noteq> -1"
proof
  assume room: "uint c + 1 < 2 ^ 32" and "c = -1"
  then have "uint c = 2 ^ 32 - 1" by (simp add: unsigned_minus_1_eq_mask mask_eq_exp_minus_1)
  with room show False by simp
qed

lemma seal_entry_Inr:
  assumes "seal_entry L seed now e (c, rep, s) = Inr (c', rep', s')"
  obtains payload deleted h opn env where "payload_of s e = Inr (payload, deleted)"
    and "sl_tick L c now = (h, c')"
    and "op_for_write L (cp_ns e) (cp_table e) (cp_row_id e) payload deleted h = Inr opn"
    and "sl_sign L seed opn = Inr env" and "s' = snd (insert_op L opn env Local s)"
    and "rep' = (if fst (insert_op L opn env Local s) then rep\<lparr>sr_sealed := sr_sealed rep + 1\<rparr>
        else rep\<lparr>sr_already_present := sr_already_present rep + 1\<rparr>)"
proof -
  from assms obtain payload deleted h clock where p: "payload_of s e = Inr (payload, deleted)"
    and t: "tick_bounded L c now = Inr (h, clock)"
    and r: "(case op_for_write L (cp_ns e) (cp_table e) (cp_row_id e) payload deleted h of
        Inl err \<Rightarrow> Inl (SyncMapping (map_error_str err))
      | Inr opn \<Rightarrow>
        (case sl_sign L seed opn of
           Inl err \<Rightarrow> Inl (SyncMapping (''signing failed: '' @ err))
         | Inr envelope \<Rightarrow>
           (let (fresh, s') = insert_op L opn envelope Local s in
            Inr (clock,
              (if fresh then rep\<lparr>sr_sealed := sr_sealed rep + 1\<rparr>
               else rep\<lparr>sr_already_present := sr_already_present rep + 1\<rparr>), s')))) = Inr (c', rep', s')"
    unfolding seal_entry_def prod.case by (elim attempt_pairE)
  from r obtain opn where o: "op_for_write L (cp_ns e) (cp_table e) (cp_row_id e) payload deleted h = Inr opn"
    by (cases "op_for_write L (cp_ns e) (cp_table e) (cp_row_id e) payload deleted h") auto
  with r obtain env where env: "sl_sign L seed opn = Inr env" by (cases "sl_sign L seed opn") auto
  obtain fresh s1 where i: "insert_op L opn env Local s = (fresh, s1)" by (cases "insert_op L opn env Local s")
  show thesis
  proof (rule that [OF p _ o env])
    show "sl_tick L c now = (h, c')" using t r by (simp add: o env i tick_bounded_Inr)
  qed (use r in \<open>simp_all add: o env i\<close>)
qed

text \<open>One pass of the sealing loop mints one operation, with a later stamp than any before.\<close>

lemma seal_entry_mints:
  assumes law: "engine_law L" and run: "seal_entry L seed now e (c, rep, s) = Inr (c', rep', s')"
    and hist: "history L s os" and below: "\<forall>x \<in> set os. stamp (op_hlc x) \<le> stamp c"
    and room: "uint (h_counter c) + 1 < 2 ^ 32" and wall: "uint (h_wall c) < 2 ^ 63" "uint now < 2 ^ 63"
    and author: "h_author c = sl_public L seed"
  obtains opn r where "minted L s e opn" and "ol_ops s' = ol_ops s @ [r]" and "s' = s\<lparr>ol_ops := ol_ops s'\<rparr>"
    and "history L s' (os @ [opn])" and "stamp (op_hlc opn) = stamp c'" and "stamp c < stamp c'"
    and "uint (h_counter c') \<le> uint (h_counter c) + 1" and "uint (h_wall c') < 2 ^ 63"
    and "h_author c' = sl_public L seed" and "rep' = rep\<lparr>sr_sealed := sr_sealed rep + 1\<rparr>"
    and "uint now \<le> uint (h_wall c')"
proof -
  obtain payload deleted h opn env where payload: "payload_of s e = Inr (payload, deleted)"
    and tick: "sl_tick L c now = (h, c')"
    and opn: "op_for_write L (cp_ns e) (cp_table e) (cp_row_id e) payload deleted h = Inr opn"
    and env: "sl_sign L seed opn = Inr env" and ins: "s' = snd (insert_op L opn env Local s)"
    and rep: "rep' = (if fst (insert_op L opn env Local s) then rep\<lparr>sr_sealed := sr_sealed rep + 1\<rparr>
        else rep\<lparr>sr_already_present := sr_already_present rep + 1\<rparr>)"
    using run by (rule seal_entry_Inr)
  have top: "h_counter c \<noteq> -1" using room by (rule counter_not_top)
  have tl: "tick_law L" using law by (simp add: engine_law_def)
  note f = tick_forward [OF tl top tick]
  have h: "op_hlc opn = h" using opn by (auto simp: op_for_write_Inr)
  have stamp: "stamp (op_hlc opn) = stamp c'" using f(1) h by simp
  have later: "\<forall>x \<in> set os. stamp (op_hlc x) < stamp (op_hlc opn)"
    using below f(3) stamp by auto
  have ids: "or_op_id ` set (ol_ops s) = (\<lambda>x. encode_hex (sl_op_id L x)) ` set os"
    using hist by (simp add: history_def stands_for_id)
  have fresh: "\<not> list_ex (\<lambda>r. or_op_id r = encode_hex (sl_op_id L opn)) (ol_ops s)"
  proof
    assume "list_ex (\<lambda>r. or_op_id r = encode_hex (sl_op_id L opn)) (ol_ops s)"
    then have "encode_hex (sl_op_id L opn) \<in> (\<lambda>x. encode_hex (sl_op_id L x)) ` set os"
      unfolding ids [symmetric] list_ex_iff by (metis imageI)
    then obtain x where "x \<in> set os" and "sl_op_id L opn = sl_op_id L x" by (auto dest: encode_hex_inj)
    moreover from this(2) have "opn = x" using law by (simp add: engine_law_def)
    ultimately show False using later by auto
  qed
  have cwall: "uint (h_wall c') < 2 ^ 63" using f(4) wall by simp
  have hwall: "uint (h_wall (op_hlc opn)) < 2 ^ 63" using cwall f(1) h by simp
  define r where "r = \<lparr>or_op_id = encode_hex (sl_op_id L opn), or_ns = op_ns opn, or_kind = uint (op_kind opn),
     or_target = op_target opn, or_author = encode_hex (h_author (op_hlc opn)),
     or_hlc_wall = sint (h_wall (op_hlc opn)), or_hlc_counter = uint (h_counter (op_hlc opn)),
     or_cose = env, or_origin = ''local'', or_recorded_at = ol_now s\<rparr>"
  have s': "s' = s\<lparr>ol_ops := ol_ops s @ [r]\<rparr>" and rep': "rep' = rep\<lparr>sr_sealed := sr_sealed rep + 1\<rparr>"
    using ins rep fresh by (simp_all add: insert_op_def r_def op_origin_str_def Let_def)
  have "stands_for L r opn"
    unfolding stands_for_def
    using env author f(1,2) h hwall sint_small [OF hwall] by (auto simp: r_def stamp_def)
  then have hist': "history L s' (os @ [opn])"
    using hist later by (auto simp: history_def s' sorted_wrt_append intro: list_all2_appendI)
  show ?thesis
  proof (rule that)
    show "minted L s e opn" using payload opn h by (auto simp: minted_def)
    show "ol_ops s' = ol_ops s @ [r]" "s' = s\<lparr>ol_ops := ol_ops s'\<rparr>" by (simp_all add: s')
    show "history L s' (os @ [opn])" by (rule hist')
    show "stamp (op_hlc opn) = stamp c'" by (rule stamp)
    show "stamp c < stamp c'" "uint (h_counter c') \<le> uint (h_counter c) + 1" by (rule f)+
    show "uint (h_wall c') < 2 ^ 63" by (rule cwall)
    show "h_author c' = sl_public L seed" using f(2) author by simp
    show "rep' = rep\<lparr>sr_sealed := sr_sealed rep + 1\<rparr>" by (rule rep')
    show "uint now \<le> uint (h_wall c')" using f(4) by simp
  qed
qed

lemma seal_loop_mints:
  assumes law: "engine_law L" and wall_now: "uint now < 2 ^ 63"
  shows "for_each (seal_entry L seed now) es (c, rep, s) = Inr (c', rep', s') \<Longrightarrow> history L s os
     \<Longrightarrow> \<forall>x \<in> set os. stamp (op_hlc x) \<le> stamp c \<Longrightarrow> uint (h_counter c) + int (length es) < 2 ^ 32
     \<Longrightarrow> uint (h_wall c) < 2 ^ 63 \<Longrightarrow> h_author c = sl_public L seed
     \<Longrightarrow> \<exists>new rows. list_all2 (minted L s) es new \<and> ol_ops s' = ol_ops s @ rows \<and> s' = s\<lparr>ol_ops := ol_ops s'\<rparr>
       \<and> history L s' (os @ new) \<and> (\<forall>x \<in> set new. stamp c < stamp (op_hlc x))
       \<and> (\<forall>x \<in> set (os @ new). stamp (op_hlc x) \<le> stamp c') \<and> stamp c \<le> stamp c' \<and> uint (h_wall c') < 2 ^ 63
       \<and> rep' = rep\<lparr>sr_sealed := sr_sealed rep + length es\<rparr>"
proof (induction es arbitrary: c rep s os)
  case Nil
  then show ?case by auto
next
  case (Cons e es)
  from Cons.prems(1) obtain c1 rep1 s1 where one: "seal_entry L seed now e (c, rep, s) = Inr (c1, rep1, s1)"
    and rest: "for_each (seal_entry L seed now) es (c1, rep1, s1) = Inr (c', rep', s')"
    by (auto simp: attempt_eq_Inr)
  have room: "uint (h_counter c) + 1 < 2 ^ 32" using Cons.prems(4) by simp
  obtain opn r where m: "minted L s e opn" and ops: "ol_ops s1 = ol_ops s @ [r]" and s1: "s1 = s\<lparr>ol_ops := ol_ops s1\<rparr>"
    and hist: "history L s1 (os @ [opn])" and st: "stamp (op_hlc opn) = stamp c1" "stamp c < stamp c1"
    and cnt: "uint (h_counter c1) \<le> uint (h_counter c) + 1" and w: "uint (h_wall c1) < 2 ^ 63"
    and a: "h_author c1 = sl_public L seed" and rep1: "rep1 = rep\<lparr>sr_sealed := sr_sealed rep + 1\<rparr>"
    using seal_entry_mints [OF law one Cons.prems(2,3) room Cons.prems(5) wall_now Cons.prems(6)] by blast
  have below: "\<forall>x \<in> set (os @ [opn]). stamp (op_hlc x) \<le> stamp c1"
    using Cons.prems(3) st by auto
  have "uint (h_counter c1) + int (length es) < 2 ^ 32" using cnt Cons.prems(4) by simp
  from Cons.IH [OF rest hist below this w a] obtain new rows where
    new: "list_all2 (minted L s1) es new" "ol_ops s' = ol_ops s1 @ rows" "s' = s1\<lparr>ol_ops := ol_ops s'\<rparr>"
      "history L s' ((os @ [opn]) @ new)" "\<forall>x \<in> set new. stamp c1 < stamp (op_hlc x)"
      "\<forall>x \<in> set ((os @ [opn]) @ new). stamp (op_hlc x) \<le> stamp c'" "stamp c1 \<le> stamp c'"
      "uint (h_wall c') < 2 ^ 63" "rep' = rep1\<lparr>sr_sealed := sr_sealed rep1 + length es\<rparr>"
    by blast
  have rows: "ol_rows s1 = ol_rows s" by (subst s1) simp
  have same: "minted L s1 = minted L s" unfolding minted_def payload_of_rows [OF rows] ..
  from new(1) have "list_all2 (minted L s) es new" unfolding same .
  with m have "list_all2 (minted L s) (e # es) (opn # new)" by (simp only: list_all2_Cons simp_thms)
  moreover have "ol_ops s' = ol_ops s @ (r # rows)" using new(2) ops by simp
  moreover have "s' = s\<lparr>ol_ops := ol_ops s'\<rparr>" by (subst new(3), subst s1) simp
  moreover have "history L s' (os @ (opn # new))" using new(4) by simp
  moreover have "\<forall>x \<in> set (opn # new). stamp c < stamp (op_hlc x)" using new(5) st by auto
  moreover have "\<forall>x \<in> set (os @ (opn # new)). stamp (op_hlc x) \<le> stamp c'" using new(6) by auto
  moreover have "stamp c \<le> stamp c'" using st(2) new(7) by simp
  moreover have "rep' = rep\<lparr>sr_sealed := sr_sealed rep + length (e # es)\<rparr>" using new(9) rep1 by simp
  ultimately show ?case using new(8) by blast
qed

section \<open>What one seal does\<close>

text \<open>Outbox entries are numbered in the order they were captured.\<close>

definition outbox_sorted :: "oplog \<Rightarrow> bool" where
  "outbox_sorted s \<longleftrightarrow> sorted_wrt (<) (map cp_seq (ol_outbox s)) \<and> (\<forall>e \<in> set (ol_outbox s). cp_seq e < ol_next_seq s)"

lemma drain_sorted: "outbox_sorted s \<Longrightarrow> drain_list s = ol_outbox s"
  by (simp add: outbox_sorted_def drain_list_def sorted_sort_id strict_sorted_imp_sorted sort_key_id_if_sorted)

definition log_ok :: "sync_lib \<Rightarrow> oplog \<Rightarrow> sync_op list \<Rightarrow> bool" where
  "log_ok L s os \<longleftrightarrow> history L s os \<and> clock_ok (ol_clock s)
     \<and> (\<forall>x \<in> set os. stamp (op_hlc x) \<le> stored_stamp (ol_clock s))"

text \<open>The 32-bit counter does not run over during the seal.\<close>

definition room :: "oplog \<Rightarrow> bool" where
  "room s \<longleftrightarrow> snd (stored_stamp (ol_clock s)) + int (length (ol_outbox s)) < 2 ^ 32"

lemma coalesce_length: "length (coalesce es) \<le> length es"
proof -
  have "length (keep_last xs) \<le> length xs" for xs by (induction xs) auto
  from this [of "sort_key cp_seq es"] show ?thesis by (simp add: coalesce_eq)
qed

lemma seal_at_Inr:
  assumes "seal_at L now s = Inr (rep, s')" and "outbox_sorted s" and "ol_outbox s \<noteq> []"
  obtains seed clock s1 where
    "for_each (seal_entry L seed now) (coalesce (ol_outbox s))
       (load_clock (ol_clock s) (sl_public L seed),
        \<lparr>sr_captured = length (ol_outbox s), sr_sealed = 0, sr_already_present = 0\<rparr>, s) = Inr (clock, rep, s1)"
    and "s' = s1\<lparr>ol_clock := store_clock clock (ol_now s1) (ol_clock s1),
       ol_outbox := filter (\<lambda>e. \<not> cp_seq e \<le> Max (set (map cp_seq (ol_outbox s)))) (ol_outbox s1)\<rparr>"
  using assms(1,3) unfolding seal_at_def Let_def drain_sorted [OF assms(2)] with_identity_key_def
  by (auto simp: attempt_eq_Inr split: option.splits if_splits prod.splits)

lemma seal_at_effect:
  assumes law: "engine_law L" and seal: "seal_at L now s = Inr (rep, s')" and now: "uint now < 2 ^ 63"
    and ok: "log_ok L s os" and out: "outbox_sorted s" and room: "room s"
  obtains new where "list_all2 (minted L s) (coalesce (ol_outbox s)) new"
    and "log_ok L s' (os @ new)" and "\<forall>x \<in> set new. stored_stamp (ol_clock s) < stamp (op_hlc x)"
    and "stored_stamp (ol_clock s) \<le> stored_stamp (ol_clock s')" and "ol_outbox s' = []"
    and "ol_rows s' = ol_rows s" and "\<exists>rows. ol_ops s' = ol_ops s @ rows" and "ol_next_seq s' = ol_next_seq s"
    and "ol_applying s' = ol_applying s"
    and "sr_captured rep = length (ol_outbox s)" and "sr_sealed rep = length new" and "sr_already_present rep = 0"
proof (cases "ol_outbox s = []")
  case True
  then have "rep = \<lparr>sr_captured = 0, sr_sealed = 0, sr_already_present = 0\<rparr>" and "s' = s"
    using seal by (auto simp: seal_at_def drain_sorted [OF out] attempt_eq_Inr)
  with True show ?thesis using ok by (intro that [of "[]"]) (auto simp: coalesce_def)
next
  case False
  obtain seed clock s1 where loop: "for_each (seal_entry L seed now) (coalesce (ol_outbox s))
       (load_clock (ol_clock s) (sl_public L seed),
        \<lparr>sr_captured = length (ol_outbox s), sr_sealed = 0, sr_already_present = 0\<rparr>, s) = Inr (clock, rep, s1)"
    and s': "s' = s1\<lparr>ol_clock := store_clock clock (ol_now s1) (ol_clock s1),
       ol_outbox := filter (\<lambda>e. \<not> cp_seq e \<le> Max (set (map cp_seq (ol_outbox s)))) (ol_outbox s1)\<rparr>"
    using seal out False by (rule seal_at_Inr)
  let ?c = "load_clock (ol_clock s) (sl_public L seed)"
  have hist: "history L s os" and cok: "clock_ok (ol_clock s)"
    and below: "\<forall>x \<in> set os. stamp (op_hlc x) \<le> stored_stamp (ol_clock s)"
    using ok by (auto simp: log_ok_def)
  note load = load_clock_stamp [OF cok, of "sl_public L seed"]
  have start: "uint (h_wall ?c) < 2 ^ 63"
    "uint (h_counter ?c) + int (length (coalesce (ol_outbox s))) < 2 ^ 32"
    using load(1) cok room coalesce_length [of "ol_outbox s"]
    by (auto simp: stamp_def stored_stamp_def clock_ok_def room_def split: option.splits)
  obtain new rows where new: "list_all2 (minted L s) (coalesce (ol_outbox s)) new" "ol_ops s1 = ol_ops s @ rows"
      "s1 = s\<lparr>ol_ops := ol_ops s1\<rparr>" "history L s1 (os @ new)" "\<forall>x \<in> set new. stamp ?c < stamp (op_hlc x)"
      "\<forall>x \<in> set (os @ new). stamp (op_hlc x) \<le> stamp clock" "stamp ?c \<le> stamp clock"
      "uint (h_wall clock) < 2 ^ 63"
      "rep = \<lparr>sr_captured = length (ol_outbox s), sr_sealed = 0 + length (coalesce (ol_outbox s)), sr_already_present = 0\<rparr>"
    using seal_loop_mints [OF law now loop hist _ start(2,1) load(2)] below load(1) by auto
  have same: "ol_clock s1 = ol_clock s" "ol_outbox s1 = ol_outbox s" "ol_rows s1 = ol_rows s"
    "ol_next_seq s1 = ol_next_seq s" "ol_applying s1 = ol_applying s"
    by (subst new(3), simp)+
  have ops': "ol_ops s' = ol_ops s1" by (simp add: s')
  note store = store_clock_stamp [OF cok new(8), of "ol_now s1"]
  have clock': "ol_clock s' = store_clock clock (ol_now s1) (ol_clock s)" by (simp add: s' same)
  have top: "stored_stamp (ol_clock s') = stamp clock"
    using store(2) new(7) load(1) unfolding clock' by (simp add: max_def)
  show ?thesis
  proof (rule that [OF new(1)])
    show "log_ok L s' (os @ new)"
      using new(4,6) store(1) unfolding log_ok_def top unfolding clock' history_def ops' by simp
    show "\<forall>x \<in> set new. stored_stamp (ol_clock s) < stamp (op_hlc x)" using new(5) load(1) by simp
    show "stored_stamp (ol_clock s) \<le> stored_stamp (ol_clock s')" using new(7) load(1) by (simp add: top)
    show "ol_outbox s' = []" by (auto simp: s' same filter_empty_conv)
    show "ol_rows s' = ol_rows s" "ol_next_seq s' = ol_next_seq s" "ol_applying s' = ol_applying s"
      by (simp_all add: s' same)
    show "\<exists>rows. ol_ops s' = ol_ops s @ rows" using new(2) ops' by auto
    show "sr_captured rep = length (ol_outbox s)" "sr_already_present rep = 0" by (simp_all add: new(9))
    show "sr_sealed rep = length new" using list_all2_lengthD [OF new(1)] by (simp add: new(9))
  qed
qed

end
