(* ===== verification/Sync_Replica.thy ===== *)
theory Sync_Replica
  imports Sync_Laws
begin

text \<open>
  The log as a record of the tables. For an editable row the last operation at its address, and for
  a ledger table all of its operations, say what the table holds; every run of captured writes,
  deletes and seals keeps it so, up to the rows that still wait in the outbox.
\<close>

section \<open>Operations at an address\<close>

text \<open>The operations of the log on an editable row, in the log's order; the last one is the latest.\<close>

definition writes_to :: "sync_op list \<Rightarrow> string \<Rightarrow> string \<Rightarrow> sync_op list" where
  "writes_to os t i = filter (\<lambda>x. op_field x = Some LWW_FIELD \<and> op_target x = lww_target t i) os"

text \<open>The operations of the log on a ledger table.\<close>

definition facts_of :: "sync_op list \<Rightarrow> string \<Rightarrow> sync_op list" where
  "facts_of os t = filter (\<lambda>x. op_field x = None \<and> op_target x = t) os"

section \<open>Runs\<close>

text \<open>
  What can happen to a device: a captured write or delete of a replicated row, a seal, or a change
  of identity, vault or time, which the log does not record.
\<close>

inductive sync_step :: "sync_lib \<Rightarrow> oplog \<Rightarrow> oplog \<Rightarrow> bool" for L where
  Write: "is_replicated t \<Longrightarrow> write_row t i ns cells s = Inr s' \<Longrightarrow> sync_step L s s'"
| Delete: "is_replicated t \<Longrightarrow> delete_row t i ns s = Inr s' \<Longrightarrow> sync_step L s s'"
| Seal: "seal_at L now s = Inr (rep, s') \<Longrightarrow> uint now < 2 ^ 63 \<Longrightarrow> room s \<Longrightarrow> sync_step L s s'"
| Elsewhere: "sync_step L s (s\<lparr>ol_identity := d, ol_secret := x, ol_now := n\<rparr>)"

definition fresh_device :: "oplog \<Rightarrow> bool" where
  "fresh_device s \<longleftrightarrow> ol_rows s = [] \<and> ol_outbox s = [] \<and> ol_clock s = None \<and> ol_ops s = [] \<and> \<not> ol_applying s"

text \<open>The payload of an operation that carries a row, and of one that deletes it: \<^verbatim>\<open>row_value\<close>.\<close>

definition live :: "sync_lib \<Rightarrow> (string \<times> json) list \<Rightarrow> sval" where
  "live L f = SV_Text (''v'' @ sl_json_text L (JObject f))"

definition dead :: "sync_lib \<Rightarrow> string \<Rightarrow> sval" where
  "dead L i = SV_Text (''x'' @ sl_json_text L (tombstone i))"

definition mirrored :: "sync_lib \<Rightarrow> oplog \<Rightarrow> sync_op list \<Rightarrow> string \<Rightarrow> string \<Rightarrow> bool" where
  "mirrored L s os t i \<longleftrightarrow>
     (case row_of s t i of
        Some cells \<Rightarrow> (\<exists>f. row_object t cells = Inr f
          \<and> (if is_ledger t then \<exists>x \<in> set (facts_of os t). op_value x = Some (live L f)
             else writes_to os t i \<noteq> [] \<and> op_value (last (writes_to os t i)) = Some (live L f)))
      | None \<Rightarrow> is_ledger t \<or> writes_to os t i = [] \<or> op_value (last (writes_to os t i)) = Some (dead L i))"

text \<open>Every operation is a write of an editable row or a fact of a ledger table that holds it.\<close>

definition grounded :: "sync_lib \<Rightarrow> oplog \<Rightarrow> sync_op \<Rightarrow> bool" where
  "grounded L s x \<longleftrightarrow>
     (\<exists>t i. t \<in> set LWW_TABLES \<and> op_field x = Some LWW_FIELD \<and> op_target x = lww_target t i)
     \<or> (\<exists>t i cells f. is_ledger t \<and> op_field x = None \<and> op_target x = t
          \<and> row_of s t i = Some cells \<and> row_object t cells = Inr f \<and> op_value x = Some (live L f))"

definition waiting :: "oplog \<Rightarrow> string \<Rightarrow> string \<Rightarrow> captured list" where
  "waiting s t i = filter (\<lambda>e. row_key e = (t, i)) (ol_outbox s)"

definition device_ok :: "sync_lib \<Rightarrow> oplog \<Rightarrow> sync_op list \<Rightarrow> bool" where
  "device_ok L s os \<longleftrightarrow> \<not> ol_applying s \<and> log_ok L s os \<and> outbox_sorted s
     \<and> (\<forall>x \<in> set os. grounded L s x)
     \<and> (\<forall>e \<in> set (ol_outbox s). is_replicated (cp_table e))
     \<and> (\<forall>t i. is_replicated t \<longrightarrow>
          (if waiting s t i = [] then mirrored L s os t i
           else cp_deleted (last (waiting s t i)) = (row_of s t i = None)
             \<and> (is_ledger t \<longrightarrow> row_of s t i \<noteq> None)))"

lemma device_ok_fresh: "fresh_device s \<Longrightarrow> device_ok L s []"
  by (auto simp: fresh_device_def device_ok_def log_ok_def history_def clock_ok_def outbox_sorted_def
      waiting_def mirrored_def row_of_def writes_to_def)

lemma capture_fields:
  "ol_rows (capture t i ns d s) = ol_rows s" "ol_clock (capture t i ns d s) = ol_clock s"
  "ol_ops (capture t i ns d s) = ol_ops s" "ol_applying (capture t i ns d s) = ol_applying s"
  by (simp_all add: capture_def)

text \<open>A captured change of one row: the entry waits, the other rows stay as they were.\<close>

lemma captured_change:
  assumes ok: "device_ok L s os" and t: "is_replicated t"
    and rows: "\<And>t' i'. (t', i') \<noteq> (t, i) \<Longrightarrow> map_of r (t', i') = row_of s t' i'"
    and flag: "d = (map_of r (t, i) = None)" and ledger: "is_ledger t \<Longrightarrow> \<not> d \<and> row_of s t i = None"
  shows "device_ok L (capture t i ns d (s\<lparr>ol_rows := r\<rparr>)) os"
proof -
  let ?s = "capture t i ns d (s\<lparr>ol_rows := r\<rparr>)"
  let ?e = "\<lparr>cp_seq = ol_next_seq s, cp_table = t, cp_row_id = i, cp_ns = ns, cp_deleted = d\<rparr>"
  have app: "\<not> ol_applying s" using ok by (simp add: device_ok_def)
  have out: "ol_outbox ?s = ol_outbox s @ [?e]" "ol_next_seq ?s = ol_next_seq s + 1"
    using app by (simp_all add: capture_def)
  have row: "row_of ?s t' i' = map_of r (t', i')" for t' i' by (simp add: row_of_def capture_fields)
  have wait: "waiting ?s t' i' = (if (t', i') = (t, i) then waiting s t i @ [?e] else waiting s t' i')" for t' i'
    by (auto simp: waiting_def out row_key_def)
  have sorted: "outbox_sorted ?s"
    using ok by (auto simp: device_ok_def outbox_sorted_def out sorted_wrt_append)
  have log: "log_ok L ?s os" using ok by (simp add: device_ok_def log_ok_def history_def capture_fields)
  have each: "if waiting ?s t' i' = [] then mirrored L ?s os t' i'
       else cp_deleted (last (waiting ?s t' i')) = (row_of ?s t' i' = None)
         \<and> (is_ledger t' \<longrightarrow> row_of ?s t' i' \<noteq> None)" if t': "is_replicated t'" for t' i'
  proof (cases "(t', i') = (t, i)")
    case True
    then have w: "waiting ?s t' i' = waiting s t i @ [?e]" and r: "row_of ?s t' i' = map_of r (t, i)"
      unfolding wait row by simp_all
    show ?thesis unfolding w r using flag ledger True by auto
  next
    case False
    from ok t' have "if waiting s t' i' = [] then mirrored L s os t' i'
       else cp_deleted (last (waiting s t' i')) = (row_of s t' i' = None)
         \<and> (is_ledger t' \<longrightarrow> row_of s t' i' \<noteq> None)" by (simp add: device_ok_def)
    moreover have "row_of ?s t' i' = row_of s t' i'" using rows [OF False] row by simp
    moreover have "waiting ?s t' i' = waiting s t' i'" using False wait [of t' i'] by auto
    ultimately show ?thesis by (cases "waiting s t' i' = []") (simp_all add: mirrored_def)
  qed
  have ground: "\<forall>x \<in> set os. grounded L ?s x"
  proof
    fix x assume "x \<in> set os"
    then have "grounded L s x" using ok by (simp add: device_ok_def)
    then show "grounded L ?s x"
      unfolding grounded_def
    proof (elim disjE exE conjE)
      fix t' i' cells f
      assume "is_ledger t'" and old: "row_of s t' i' = Some cells"
        and rest: "op_field x = None" "op_target x = t'" "row_object t' cells = Inr f" "op_value x = Some (live L f)"
      then have "(t', i') \<noteq> (t, i)" using ledger by auto
      then have "row_of ?s t' i' = Some cells" using rows [of t' i'] old row by simp
      then show "(\<exists>t i. t \<in> set LWW_TABLES \<and> op_field x = Some LWW_FIELD \<and> op_target x = lww_target t i)
          \<or> (\<exists>t i cells f. is_ledger t \<and> op_field x = None \<and> op_target x = t
               \<and> row_of ?s t i = Some cells \<and> row_object t cells = Inr f \<and> op_value x = Some (live L f))"
        using \<open>is_ledger t'\<close> rest by blast
    qed blast
  qed
  have "\<forall>e \<in> set (ol_outbox ?s). is_replicated (cp_table e)" using ok t by (auto simp: device_ok_def out)
  with app sorted log each ground show ?thesis unfolding device_ok_def capture_fields by simp
qed

lemma write_row_keeps:
  assumes "device_ok L s os" and "is_replicated t" and "write_row t i ns cells s = Inr s'"
  shows "device_ok L s' os"
proof -
  have s': "s' = capture t i ns False (s\<lparr>ol_rows := AList.update (t, i) cells (ol_rows s)\<rparr>)"
    and new: "is_ledger t \<Longrightarrow> row_of s t i = None"
    using assms(3) by (auto simp: write_row_def split: if_splits)
  show ?thesis unfolding s'
    by (rule captured_change [OF assms(1,2)]) (auto simp: row_of_def update_conv' dest: new [unfolded row_of_def])
qed

lemma delete_row_keeps:
  assumes "device_ok L s os" and "is_replicated t" and "delete_row t i ns s = Inr s'"
  shows "device_ok L s' os"
proof (cases "row_of s t i = None")
  case True
  then show ?thesis using assms by (simp add: delete_row_def)
next
  case False
  then have led: "\<not> is_ledger t"
    and s': "s' = capture t i ns True (s\<lparr>ol_rows := AList.delete (t, i) (ol_rows s)\<rparr>)"
    using assms(3) by (auto simp: delete_row_def split: if_splits)
  show ?thesis unfolding s'
    by (rule captured_change [OF assms(1,2)]) (auto simp: row_of_def delete_conv' led)
qed

section \<open>A seal\<close>

text \<open>The one operation a waiting row is sealed as.\<close>

lemma minted_shape:
  assumes "minted L s e x"
  shows "is_replicated (cp_table e)"
    and "op_field x = (if is_ledger (cp_table e) then None else Some LWW_FIELD)"
    and "op_target x = (if is_ledger (cp_table e) then cp_table e else lww_target (cp_table e) (cp_row_id e))"
proof -
  from assms obtain payload deleted
    where "op_for_write L (cp_ns e) (cp_table e) (cp_row_id e) payload deleted (op_hlc x) = Inr x"
    unfolding minted_def by blast
  note f = op_for_write_fields [OF this]
  show "is_replicated (cp_table e)" by (rule f(7))
  show "op_field x = (if is_ledger (cp_table e) then None else Some LWW_FIELD)" by (rule f(3))
  show "op_target x = (if is_ledger (cp_table e) then cp_table e else lww_target (cp_table e) (cp_row_id e))"
    by (rule f(4))
qed

lemma minted_value:
  assumes m: "minted L s e x" and flag: "cp_deleted e = (row_of s (cp_table e) (cp_row_id e) = None)"
  shows "case row_of s (cp_table e) (cp_row_id e) of
      Some cells \<Rightarrow> \<exists>f. row_object (cp_table e) cells = Inr f \<and> op_value x = Some (live L f)
    | None \<Rightarrow> op_value x = Some (dead L (cp_row_id e))"
proof -
  from m obtain payload deleted where p: "payload_of s e = Inr (payload, deleted)"
    and x: "op_value x = Some (SV_Text ((if deleted then ''x'' else ''v'') @ sl_json_text L payload))"
    using op_for_write_fields(5) unfolding minted_def by blast
  show ?thesis
    using p x flag
    by (auto simp: payload_of_def read_row_def attempt_eq_Inr live_def dead_def split: option.splits if_splits)
qed

lemma sealed_ops_of_row:
  assumes "list_all2 (minted L s) es new" and "distinct (map row_key es)" and "is_replicated t" "\<not> is_ledger t"
  shows "case writes_to new t i of
      [] \<Rightarrow> (t, i) \<notin> row_key ` set es
    | x # xs \<Rightarrow> xs = [] \<and> (\<exists>e \<in> set es. row_key e = (t, i) \<and> minted L s e x)"
  using assms(1,2)
proof (induction rule: list_all2_induct)
  case Nil
  then show ?case by (simp add: writes_to_def)
next
  case (Cons e es x new)
  note shape = minted_shape [OF Cons.hyps(1)]
  let ?hits = "writes_to new t i"
  have writes: "writes_to (x # new) t i
      = (if op_field x = Some LWW_FIELD \<and> op_target x = lww_target t i then x # ?hits else ?hits)"
    by (simp add: writes_to_def)
  have hit: "op_field x = Some LWW_FIELD \<and> op_target x = lww_target t i \<longleftrightarrow> row_key e = (t, i)"
    using shape lww_target_inj [OF shape(1) assms(3), of "cp_row_id e" i] assms(4)
    by (auto simp: row_key_def)
  have IH: "case ?hits of [] \<Rightarrow> (t, i) \<notin> row_key ` set es
      | x # xs \<Rightarrow> xs = [] \<and> (\<exists>e \<in> set es. row_key e = (t, i) \<and> minted L s e x)"
    using Cons.IH Cons.prems by simp
  show ?case
  proof (cases "row_key e = (t, i)")
    case True
    then have new_key: "(t, i) \<notin> row_key ` set es" using Cons.prems by auto
    have "?hits = []"
    proof (cases ?hits)
      case (Cons x' xs)
      with IH obtain e' where "e' \<in> set es" "row_key e' = (t, i)" by auto
      with new_key show ?thesis using in_row_keys by metis
    qed
    then show ?thesis using hit True Cons.hyps(1) unfolding writes by auto
  next
    case False
    have "writes_to (x # new) t i = ?hits" using hit False unfolding writes by auto
    moreover have "(t, i) \<in> row_key ` set (e # es) \<longleftrightarrow> (t, i) \<in> row_key ` set es" using False by auto
    ultimately show ?thesis using IH by (auto split: list.splits)
  qed
qed

lemma seal_keeps:
  assumes law: "engine_law L" and ok: "device_ok L s os" and seal: "seal_at L now s = Inr (rep, s')"
    and now: "uint now < 2 ^ 63" and room: "room s"
  obtains new where "device_ok L s' (os @ new)" and "ol_outbox s' = []"
    and "\<exists>rows. ol_ops s' = ol_ops s @ rows" and "\<forall>x \<in> set new. stored_stamp (ol_clock s) < stamp (op_hlc x)"
    and "stored_stamp (ol_clock s) \<le> stored_stamp (ol_clock s')"
    and "sr_captured rep = length (ol_outbox s)"
proof -
  have app: "\<not> ol_applying s" and log: "log_ok L s os" and out: "outbox_sorted s"
    and each: "\<And>t i. is_replicated t \<Longrightarrow>
          (if waiting s t i = [] then mirrored L s os t i
           else cp_deleted (last (waiting s t i)) = (row_of s t i = None)
             \<and> (is_ledger t \<longrightarrow> row_of s t i \<noteq> None))"
    using ok by (auto simp: device_ok_def)
  obtain new where new: "list_all2 (minted L s) (coalesce (ol_outbox s)) new" and log': "log_ok L s' (os @ new)"
    and e': "ol_outbox s' = []" and rows: "ol_rows s' = ol_rows s" and app': "ol_applying s' = ol_applying s"
    and grows: "\<exists>rows. ol_ops s' = ol_ops s @ rows" "\<forall>x \<in> set new. stored_stamp (ol_clock s) < stamp (op_hlc x)"
      "stored_stamp (ol_clock s) \<le> stored_stamp (ol_clock s')" "sr_captured rep = length (ol_outbox s)"
    using seal_at_effect [OF law seal now log out room] by metis
  let ?es = "coalesce (ol_outbox s)"
  have es: "?es = keep_last (ol_outbox s)"
    using drain_sorted [OF out] by (simp add: coalesce_eq drain_list_def)
  have dist: "distinct (map row_key ?es)" by (simp add: es keep_last_facts)
  have last: "e = last (waiting s t i)" if "e \<in> set ?es" "row_key e = (t, i)" for e t i
    using kept_is_last [of e "ol_outbox s"] that by (simp add: es waiting_def)
  have keys: "(t, i) \<in> row_key ` set ?es \<longleftrightarrow> waiting s t i \<noteq> []" for t i
    unfolding es keys_keep_last waiting_def filter_empty_conv by (metis imageE in_row_keys)
  have row: "row_of s' t i = row_of s t i" for t i by (simp add: row_of_def rows)
  have carries: "case row_of s t i of
      Some cells \<Rightarrow> \<exists>f. row_object t cells = Inr f \<and> op_value x = Some (live L f)
    | None \<Rightarrow> op_value x = Some (dead L i)"
    if "is_replicated t" and e: "e \<in> set ?es" "row_key e = (t, i)" and x: "minted L s e x" for e t i x
  proof -
    have w: "waiting s t i \<noteq> []" using keys [of t i] e by force
    have names: "cp_table e = t" "cp_row_id e = i" using e(2) by (simp_all add: row_key_def)
    have "cp_deleted e = (row_of s t i = None)"
      using each [OF that(1), of i] w last [OF e] by simp
    with minted_value [OF x] show ?thesis unfolding names by simp
  qed
  have mirror: "mirrored L s' (os @ new) t i" if t: "is_replicated t" for t i
  proof (cases "waiting s t i = []")
    case none: True
    have m: "mirrored L s os t i" using each [OF t, of i] none by simp
    show ?thesis
    proof (cases "is_ledger t")
      case True
      with m show ?thesis by (auto simp: mirrored_def row facts_of_def split: option.splits)
    next
      case False
      have "writes_to new t i = []"
      proof (cases "writes_to new t i")
        case (Cons x xs)
        with sealed_ops_of_row [OF new dist t False, of i]
        have "\<exists>e \<in> set ?es. row_key e = (t, i)" by auto
        with keys [of t i] none show ?thesis using in_row_keys by metis
      qed
      then have "writes_to (os @ new) t i = writes_to os t i" by (simp add: writes_to_def)
      with m False show ?thesis unfolding mirrored_def row by (simp split: option.splits)
    qed
  next
    case some: False
    then obtain e where e: "e \<in> set ?es" "row_key e = (t, i)" using keys [of t i] by auto
    show ?thesis
    proof (cases "is_ledger t")
      case True
      obtain k where k: "k < length ?es" "?es ! k = e" using e(1) by (auto simp: in_set_conv_nth)
      define x where "x = new ! k"
      have x: "x \<in> set new" "minted L s e x"
        using list_all2_nthD [OF new k(1)] list_all2_lengthD [OF new] k by (simp_all add: x_def)
      have present: "row_of s t i \<noteq> None" using each [OF t, of i] some True by simp
      have "op_field x = None \<and> op_target x = t"
        using minted_shape [OF x(2)] e(2) True by (auto simp: row_key_def)
      with carries [OF t e x(2)] present x(1) True show ?thesis
        by (auto simp: mirrored_def row facts_of_def split: option.splits)
    next
      case False
      from sealed_ops_of_row [OF new dist t False, of i] in_row_keys [OF e] obtain e2 x where
        hits: "writes_to new t i = [x]"
        and e2: "e2 \<in> set ?es" "row_key e2 = (t, i)" "minted L s e2 x"
        by (auto split: list.splits)
      have "writes_to (os @ new) t i = writes_to os t i @ [x]" using hits by (simp add: writes_to_def)
      with carries [OF t e2] False show ?thesis
        by (auto simp: mirrored_def row split: option.splits)
    qed
  qed
  have ground: "grounded L s' x" if "x \<in> set (os @ new)" for x
  proof (cases "x \<in> set os")
    case True
    then have "grounded L s x" using ok by (simp add: device_ok_def)
    then show ?thesis by (simp add: grounded_def row)
  next
    case False
    with that obtain k where k: "k < length new" "new ! k = x" by (auto simp: in_set_conv_nth)
    let ?e = "?es ! k"
    have len: "length ?es = length new" using new by (rule list_all2_lengthD)
    have x: "minted L s ?e x" using list_all2_nthD2 [OF new k(1)] k(2) by simp
    have e: "?e \<in> set ?es" using k(1) len by simp
    note shape = minted_shape [OF x]
    show ?thesis
    proof (cases "is_ledger (cp_table ?e)")
      case True
      have "waiting s (cp_table ?e) (cp_row_id ?e) \<noteq> []"
        using keys [of "cp_table ?e" "cp_row_id ?e"] e by (force simp: row_key_def)
      then have "row_of s (cp_table ?e) (cp_row_id ?e) \<noteq> None" using each [OF shape(1)] True by simp
      with carries [OF shape(1) e _ x] shape True show ?thesis
        unfolding grounded_def row by (auto simp: row_key_def split: option.splits)
    next
      case False
      then have "cp_table ?e \<in> set LWW_TABLES" using shape(1) by (simp add: is_replicated_def)
      with shape False show ?thesis unfolding grounded_def by auto
    qed
  qed
  have "device_ok L s' (os @ new)"
    using app app' log' mirror ground by (simp add: device_ok_def e' outbox_sorted_def waiting_def)
  then show thesis using e' grows by (rule that)
qed

text \<open>What a run keeps: the log is only appended to, with stamps after the clock it started from.\<close>

definition log_grows :: "oplog \<Rightarrow> oplog \<Rightarrow> sync_op list \<Rightarrow> bool" where
  "log_grows s s' new \<longleftrightarrow> (\<exists>rows. ol_ops s' = ol_ops s @ rows)
     \<and> (\<forall>x \<in> set new. stored_stamp (ol_clock s) < stamp (op_hlc x))
     \<and> stored_stamp (ol_clock s) \<le> stored_stamp (ol_clock s')"

lemma log_grows_refl: "ol_ops s' = ol_ops s \<Longrightarrow> ol_clock s' = ol_clock s \<Longrightarrow> log_grows s s' []"
  by (simp add: log_grows_def)

lemma log_grows_trans: "log_grows s t new \<Longrightarrow> log_grows t u new' \<Longrightarrow> log_grows s u (new @ new')"
  unfolding log_grows_def by fastforce

lemma sync_step_keeps:
  assumes law: "engine_law L" and "sync_step L s s'" and "device_ok L s os"
  shows "\<exists>new. device_ok L s' (os @ new) \<and> log_grows s s' new"
  using assms(2,3)
proof cases
  case (Write t i ns cells)
  have "ol_ops s' = ol_ops s" "ol_clock s' = ol_clock s"
    using Write(2) by (auto simp: write_row_def capture_fields split: if_splits)
  then show ?thesis
    using write_row_keeps [OF assms(3) Write] by (intro exI [of _ "[]"]) (simp add: log_grows_refl)
next
  case (Delete t i ns)
  have "ol_ops s' = ol_ops s" "ol_clock s' = ol_clock s"
    using Delete(2) by (auto simp: delete_row_def capture_fields split: if_splits)
  then show ?thesis
    using delete_row_keeps [OF assms(3) Delete] by (intro exI [of _ "[]"]) (simp add: log_grows_refl)
next
  case (Seal now rep)
  obtain new where "device_ok L s' (os @ new)" "log_grows s s' new"
    using seal_keeps [OF law assms(3) Seal] unfolding log_grows_def by metis
  then show ?thesis by blast
next
  case (Elsewhere d x n)
  have rows: "row_of s' t i = row_of s t i" for t i by (simp add: Elsewhere row_of_def)
  have wait: "waiting s' t i = waiting s t i" for t i by (simp add: Elsewhere waiting_def)
  have mir: "mirrored L s' os t i = mirrored L s os t i" for t i by (simp add: mirrored_def rows)
  have gr: "grounded L s' = grounded L s" by (simp add: grounded_def rows fun_eq_iff)
  have log: "log_ok L s' os = log_ok L s os" "outbox_sorted s' = outbox_sorted s"
    by (simp_all add: Elsewhere log_ok_def history_def outbox_sorted_def)
  have "ol_applying s' = ol_applying s" "ol_outbox s' = ol_outbox s" by (simp_all add: Elsewhere)
  then have "device_ok L s' os"
    using assms(3) unfolding device_ok_def rows wait mir log gr by simp
  then show ?thesis by (intro exI [of _ "[]"]) (simp add: Elsewhere log_grows_refl)
qed

lemma sync_run_keeps:
  assumes law: "engine_law L" and "(sync_step L)\<^sup>*\<^sup>* s s'" and "device_ok L s os"
  shows "\<exists>new. device_ok L s' (os @ new) \<and> log_grows s s' new"
  using assms(2)
proof induction
  case base
  show ?case using assms(3) by (intro exI [of _ "[]"]) (simp add: log_grows_refl)
next
  case (step t u)
  then obtain new where "device_ok L t (os @ new)" and one: "log_grows s t new" by blast
  with sync_step_keeps [OF law step(2), of "os @ new"] obtain new' where
    "device_ok L u ((os @ new) @ new')" and "log_grows t u new'" by blast
  with log_grows_trans [OF one] show ?case by (metis append.assoc)
qed

section \<open>Reading the log back\<close>

lemma map_op_verifies:
  assumes law: "engine_law L" and "stands_for L r x"
  shows "\<exists>st. map_op r = Inr st \<and> verify L st = Inr x \<and> st_op_id st = encode_hex (sl_op_id L x)"
proof -
  note f = assms(2) [unfolded stands_for_def]
  obtain seed where "h_author (op_hlc x) = sl_public L seed" "sl_sign L seed x = Inr (or_cose r)" using f by blast
  then have sig: "sl_verify L (or_cose r) = Inr x" using law by (simp add: engine_law_def)
  have k: "uint (op_kind x) < 256" using uint_lt2p [of "op_kind x"] by simp
  have n: "0 \<le> uint (op_kind x)" "0 \<le> uint (h_wall (op_hlc x))" "0 \<le> uint (h_counter (op_hlc x))" by simp_all
  show ?thesis
    using f sig k n
    by (auto simp: map_op_def op_origin_parse_def verify_def stamp_def max_def not_le)
qed

lemma ops_of_history:
  assumes law: "engine_law L" and hist: "history L s os"
  shows "\<exists>sts. ops s None None = Inr sts
    \<and> list_all2 (\<lambda>st x. verify L st = Inr x \<and> st_op_id st = encode_hex (sl_op_id L x)) sts os"
proof -
  have two: "list_all2 (stands_for L) (ol_ops s) os" using hist by (simp add: history_def)
  have stamps: "map (\<lambda>r. (or_hlc_wall r, or_hlc_counter r)) (ol_ops s) = map (\<lambda>x. stamp (op_hlc x)) os"
    using two by (induction rule: list_all2_induct) (auto simp: stands_for_def)
  have "sorted_wrt (<) (map (\<lambda>r. (or_hlc_wall r, or_hlc_counter r)) (ol_ops s))"
    using hist unfolding stamps by (simp add: history_def)
  then have "sorted (map (\<lambda>r. (or_hlc_wall r, or_hlc_counter r, or_op_id r)) (ol_ops s))"
    unfolding sorted_wrt_map by (rule sorted_wrt_mono_rel [rotated]) (auto simp: less_eq_prod_def less_prod_def)
  then have ord: "ordered_rows (ol_ops s) = ol_ops s"
    unfolding ordered_rows_def by (rule sort_key_id_if_sorted)
  have "\<exists>sts. map_res map_op (ol_ops s) = Inr sts
      \<and> list_all2 (\<lambda>st x. verify L st = Inr x \<and> st_op_id st = encode_hex (sl_op_id L x)) sts os"
    using two
  proof (induction rule: list_all2_induct)
    case (Cons r rows x os)
    then obtain sts st where "map_res map_op rows = Inr sts"
      "list_all2 (\<lambda>st x. verify L st = Inr x \<and> st_op_id st = encode_hex (sl_op_id L x)) sts os"
      "map_op r = Inr st" "verify L st = Inr x" "st_op_id st = encode_hex (sl_op_id L x)"
      using map_op_verifies [OF law Cons.hyps(1)] by blast
    then show ?case by (intro exI [of _ "st # sts"]) simp
  qed simp
  then show ?thesis by (simp add: ops_def ord)
qed

text \<open>
  What \<^verbatim>\<open>replay\<close> does with the log it has read: each operation is handed to the engine, in order,
  until the engine refuses one.
\<close>

definition feed :: "sync_lib \<Rightarrow> (sync_op \<Rightarrow> 'e \<Rightarrow> string + 'e) \<Rightarrow> sync_op list \<Rightarrow> 'e \<Rightarrow> 'e res" where
  "feed L ingest os e =
     for_each (\<lambda>x e. case ingest x e of
         Inl err \<Rightarrow> Inl (SyncOpUnverified (encode_hex (sl_op_id L x)) (''engine refused it: '' @ err))
       | Inr e' \<Rightarrow> Inr e') os e"

lemma replay_history:
  assumes law: "engine_law L" and hist: "history L s os"
  shows "replay L init ingest s = feed L ingest os init"
proof -
  obtain sts where sts: "ops s None None = Inr sts"
    "list_all2 (\<lambda>st x. verify L st = Inr x \<and> st_op_id st = encode_hex (sl_op_id L x)) sts os"
    using ops_of_history [OF law hist] by blast
  have "for_each (\<lambda>st e. attempt (verify L st) (\<lambda>opn. case ingest opn e of
           Inl err \<Rightarrow> Inl (SyncOpUnverified (st_op_id st) (''engine refused it: '' @ err))
         | Inr e' \<Rightarrow> Inr e')) sts e = feed L ingest os e" for e
    using sts(2)
  proof (induction arbitrary: e rule: list_all2_induct)
    case (Cons st sts x os)
    then show ?case by (cases "ingest x e") (simp_all add: feed_def)
  qed (simp add: feed_def)
  then show ?thesis by (simp add: replay_def sts(1))
qed

lemma verify_all_history:
  assumes law: "engine_law L" and hist: "history L s os"
  shows "verify_all L s = Inr \<lparr>vr_checked = length os, vr_failures = []\<rparr>"
proof -
  obtain sts where sts: "ops s None None = Inr sts"
    "list_all2 (\<lambda>st x. verify L st = Inr x \<and> st_op_id st = encode_hex (sl_op_id L x)) sts os"
    using ops_of_history [OF law hist] by blast
  have "foldl (verify_step L) \<lparr>vr_checked = n, vr_failures = []\<rparr> sts
      = \<lparr>vr_checked = n + length os, vr_failures = []\<rparr>" for n
    using sts(2) by (induction arbitrary: n rule: list_all2_induct) (simp_all add: verify_step_def)
  from this [of 0] show ?thesis by (simp add: verify_all_def sts(1))
qed

end
