(* ===== verification/Sync_Sample.thy ===== *)
theory Sync_Sample
  imports Sync_Replica
begin

text \<open>
  An engine on which the theorems about the log are instantiated: it satisfies \<open>engine_law\<close>.
  Operations and payloads are encoded as length-prefixed strings, so that content addresses are
  injective and envelopes and payloads decode; the tick is the documented one.
\<close>

section \<open>Length-prefixed strings\<close>

text \<open>Numbers as their binary digits, the lowest first.\<close>

function bin_digits :: "int \<Rightarrow> string" where
  "bin_digits n = (if n \<le> 0 then [] else (if even n then CHR ''0'' else CHR ''1'') # bin_digits (n div 2))"
  by pat_completeness auto
termination by (relation "measure nat") auto

declare bin_digits.simps [simp del]

fun bin_value :: "string \<Rightarrow> int" where
  "bin_value [] = 0"
| "bin_value (c # s) = (if c = CHR ''1'' then 1 else 0) + 2 * bin_value s"

lemma bin_value_digits: "0 \<le> n \<Longrightarrow> bin_value (bin_digits n) = n"
proof (induction n rule: bin_digits.induct)
  case (1 n)
  then show ?case
    by (cases "n = 0") (auto simp: bin_digits.simps [of n] bin_digits.simps [of 0] elim!: evenE oddE)
qed

lemma bin_digits_chars: "\<forall>c \<in> set (bin_digits n). c \<noteq> CHR '';''"
proof (induction n rule: bin_digits.induct)
  case (1 n)
  then show ?case by (cases "n \<le> 0") (simp_all add: bin_digits.simps [of n])
qed

definition enc_str :: "string \<Rightarrow> string" where
  "enc_str s = bin_digits (int (length s)) @ CHR '';'' # s"

definition dec_str :: "string \<Rightarrow> string \<times> string" where
  "dec_str x = (let n = nat (bin_value (takeWhile (\<lambda>c. c \<noteq> CHR '';'') x));
                    r = drop 1 (dropWhile (\<lambda>c. c \<noteq> CHR '';'') x)
                in (take n r, drop n r))"

lemma dec_enc_str [simp]: "dec_str (enc_str s @ r) = (s, r)"
  by (simp add: enc_str_def dec_str_def bin_digits_chars bin_value_digits)

definition enc_num :: "int \<Rightarrow> string" where
  "enc_num n = enc_str (bin_digits n)"

definition dec_num :: "string \<Rightarrow> int \<times> string" where
  "dec_num x = (let (s, r) = dec_str x in (bin_value s, r))"

lemma dec_enc_num [simp]: "0 \<le> n \<Longrightarrow> dec_num (enc_num n @ r) = (n, r)"
  by (simp add: enc_num_def dec_num_def bin_value_digits)

section \<open>Operations\<close>

fun enc_field :: "string option \<Rightarrow> string" where
  "enc_field None = []"
| "enc_field (Some f) = CHR ''f'' # f"

fun dec_field :: "string \<Rightarrow> string option" where
  "dec_field [] = None"
| "dec_field (_ # f) = Some f"

lemma dec_enc_field [simp]: "dec_field (enc_field f) = f"
  by (cases f) auto

fun enc_value :: "sval option \<Rightarrow> string" where
  "enc_value None = []"
| "enc_value (Some (SV_Text t)) = CHR ''t'' # t"
| "enc_value (Some (SV_Other t)) = CHR ''o'' # t"

fun dec_value :: "string \<Rightarrow> sval option" where
  "dec_value [] = None"
| "dec_value (c # t) = Some (if c = CHR ''t'' then SV_Text t else SV_Other t)"

lemma dec_enc_value [simp]: "dec_value (enc_value v) = v"
  by (cases v rule: enc_value.cases) auto

definition enc_op :: "sync_op \<Rightarrow> string" where
  "enc_op x = enc_num (uint (op_kind x)) @ enc_str (op_ns x) @ enc_str (op_target x) @ enc_str (enc_field (op_field x))
     @ enc_str (enc_value (op_value x)) @ enc_num (uint (h_wall (op_hlc x)))
     @ enc_num (uint (h_counter (op_hlc x))) @ enc_str (h_author (op_hlc x))"

definition dec_op :: "string \<Rightarrow> sync_op" where
  "dec_op s0 =
     (let (k, s1) = dec_num s0; (ns, s2) = dec_str s1; (t, s3) = dec_str s2; (f, s4) = dec_str s3;
          (v, s5) = dec_str s4; (w, s6) = dec_num s5; (c, s7) = dec_num s6; (a, s8) = dec_str s7
      in \<lparr>op_kind = of_int k, op_ns = ns, op_target = t, op_field = dec_field f, op_value = dec_value v,
          op_hlc = \<lparr>h_wall = of_int w, h_counter = of_int c, h_author = a\<rparr>\<rparr>)"

lemma dec_enc_op [simp]: "dec_op (enc_op x) = x"
  using dec_enc_str [of "h_author (op_hlc x)" "[]"]
  by (cases x) (simp add: dec_op_def enc_op_def)

section \<open>Payloads\<close>

fun enc_cell :: "json \<Rightarrow> string" where
  "enc_cell (JInt i) = (if i < 0 then CHR ''-'' else CHR ''+'') # replicate (nat \<bar>i\<bar>) (CHR ''i'')"
| "enc_cell (JReal r) = CHR ''r'' # replicate (unat r) (CHR ''i'')"
| "enc_cell (JText t) = CHR ''t'' # t"
| "enc_cell _ = []"

fun dec_cell :: "string \<Rightarrow> json" where
  "dec_cell [] = JNull"
| "dec_cell (c # s) =
     (if c = CHR ''-'' then JInt (- int (length s))
      else if c = CHR ''+'' then JInt (int (length s))
      else if c = CHR ''r'' then JReal (of_nat (length s))
      else JText s)"

fun enc_fields :: "(string \<times> json) list \<Rightarrow> string" where
  "enc_fields [] = []"
| "enc_fields ((k, v) # f) = enc_str k @ enc_str (enc_cell v) @ enc_fields f"

fun dec_fields :: "nat \<Rightarrow> string \<Rightarrow> (string \<times> json) list" where
  "dec_fields 0 s = []"
| "dec_fields (Suc n) s = (if s = [] then [] else
     let (k, r) = dec_str s; (v, r') = dec_str r in (k, dec_cell v) # dec_fields n r')"

section \<open>The engine\<close>

definition sample_engine :: sync_lib where
  "sample_engine = \<lparr>sl_lww_set = 3, sl_set_add = 1, sl_tick = hlc_tick, sl_op_id = enc_op,
     sl_sign = (\<lambda>seed x. Inr (CHR ''S'' # enc_op x)),
     sl_verify = (\<lambda>env. case env of [] \<Rightarrow> Inl ''empty'' | c # body \<Rightarrow> Inr (dec_op body)),
     sl_public = (\<lambda>seed. seed),
     sl_json_text = (\<lambda>j. case j of JObject f \<Rightarrow> enc_fields f | _ \<Rightarrow> []),
     sl_json_parse = (\<lambda>s. Some (JObject (dec_fields (length s) s)))\<rparr>"

lemma sample_engine_law: "engine_law sample_engine"
proof -
  have tick: "tick_law sample_engine" by (rule tick_law_hlc_tick) (simp add: sample_engine_def)
  have ids: "x = y" if "enc_op x = enc_op y" for x y
    using that dec_enc_op by metis
  show ?thesis
    unfolding engine_law_def using tick ids by (auto simp: sample_engine_def)
qed

text \<open>A device that has captured three writes of two rows.\<close>

definition sample_key :: string where
  "sample_key = replicate 64 (CHR ''0'')"

definition sample_device :: oplog where
  "sample_device = \<lparr>ol_rows = [], ol_outbox = [], ol_next_seq = 1, ol_applying = False, ol_clock = None,
     ol_ops = [], ol_identity = Some sample_key, ol_secret = Inr sample_key, ol_now = ''t''\<rparr>"

definition account_cells :: "int \<Rightarrow> cells" where
  "account_cells amount = [(''id'', SqlText ''a''), (''balance'', SqlInteger amount), (''notes'', SqlNull)]"

definition journal_cells :: cells where
  "journal_cells = [(''id'', SqlText ''j''), (''narrative'', SqlText ''n'')]"

definition sample_writes :: "oplog res" where
  "sample_writes = attempt (write_row ''accounts'' ''a'' ''b'' (account_cells 3) sample_device)
     (\<lambda>s. attempt (write_row ''journals'' ''j'' ''b'' journal_cells s)
     (\<lambda>s. write_row ''accounts'' ''a'' ''b'' (account_cells (-2)) s))"

definition sample_written :: oplog where
  "sample_written = projr sample_writes"

definition sample_sealed :: oplog where
  "sample_sealed = snd (projr (seal_at sample_engine 200000000 sample_written))"

lemma sample_writes_ran: "\<not> isl sample_writes"
  by code_simp

lemma sample_sealed_ran: "\<not> isl (seal_at sample_engine 200000000 sample_written)"
  by code_simp

text \<open>What is read off an evaluated device: constants, so that their argument is evaluated once.\<close>

definition sealed_state :: "oplog \<Rightarrow> bool" where
  "sealed_state s \<longleftrightarrow> ol_outbox s = [] \<and> length (ol_ops s) = 2"

definition waiting_state :: "int \<Rightarrow> oplog \<Rightarrow> bool" where
  "waiting_state wall s \<longleftrightarrow> ol_outbox s \<noteq> [] \<and> room s \<and> fst (stored_stamp (ol_clock s)) = wall
     \<and> with_identity_key sample_engine s Inr = Inr (replicate 32 (CHR 0x00))
     \<and> (\<forall>(k, cells) \<in> set (ol_rows s). \<not> isl (row_object (fst k) cells))"

lemma sample_sealed_sizes: "sealed_state sample_sealed"
  by code_simp

lemma sample_outboxes:
  "length (ol_outbox sample_written) = 3" "ol_outbox sample_sealed = []" "length (ol_ops sample_sealed) = 2"
  "room sample_written"
  using sample_sealed_sizes by (simp_all add: sealed_state_def) (code_simp+)

text \<open>A device whose clock is two days ahead of a later, smaller reading, with a row waiting again.\<close>

definition sample_ahead :: oplog where
  "sample_ahead = projr (write_row ''accounts'' ''a'' ''b'' (account_cells 1) sample_sealed)"

lemma sample_ahead_state:
  "write_row ''accounts'' ''a'' ''b'' (account_cells 1) sample_sealed = Inr sample_ahead"
  "waiting_state 200000000 sample_ahead"
proof -
  show "write_row ''accounts'' ''a'' ''b'' (account_cells 1) sample_sealed = Inr sample_ahead"
    by (simp add: sample_ahead_def write_row_def is_ledger_def LEDGER_TABLES_def)
  show "waiting_state 200000000 sample_ahead"
    by code_simp
qed

lemma sample_ahead_room: "room sample_ahead"
  using sample_ahead_state(2) by (simp add: waiting_state_def)

lemma sample_written_state:
  "waiting_state 0 sample_written"
  by code_simp

lemma rows_readable:
  assumes "\<forall>(k, cells) \<in> set (ol_rows s). \<not> isl (row_object (fst k) cells)" and "row_of s t i = Some cells"
  shows "\<exists>f. row_object t cells = Inr f"
proof -
  have "((t, i), cells) \<in> set (ol_rows s)" using assms(2) by (simp add: row_of_def map_of_SomeD)
  with assms(1) have "\<not> isl (row_object t cells)" by force
  then show ?thesis by (cases "row_object t cells") auto
qed

lemma sample_signs: "\<exists>env. sl_sign sample_engine seed opn = Inr env"
  by (simp add: sample_engine_def)

lemma sample_run:
  "fresh_device sample_device" "(sync_step sample_engine)\<^sup>*\<^sup>* sample_device sample_written"
  "(sync_step sample_engine)\<^sup>*\<^sup>* sample_device sample_sealed"
  "(sync_step sample_engine)\<^sup>*\<^sup>* sample_device sample_ahead"
proof -
  show "fresh_device sample_device" by (simp add: fresh_device_def sample_device_def)
  have "sample_writes = Inr sample_written"
    using sample_writes_ran by (cases sample_writes) (auto simp: sample_written_def)
  then obtain s1 s2 where s: "write_row ''accounts'' ''a'' ''b'' (account_cells 3) sample_device = Inr s1"
    "write_row ''journals'' ''j'' ''b'' journal_cells s1 = Inr s2"
    "write_row ''accounts'' ''a'' ''b'' (account_cells (-2)) s2 = Inr sample_written"
    by (auto simp: sample_writes_def attempt_eq_Inr)
  have rep: "is_replicated ''accounts''" "is_replicated ''journals''" by code_simp+
  show run: "(sync_step sample_engine)\<^sup>*\<^sup>* sample_device sample_written"
    using sync_step.Write [OF rep(1) s(1)] sync_step.Write [OF rep(2) s(2)] sync_step.Write [OF rep(1) s(3)]
    by (meson rtranclp.rtrancl_into_rtrancl rtranclp.rtrancl_refl)
  obtain rep0 where seal: "seal_at sample_engine 200000000 sample_written = Inr (rep0, sample_sealed)"
    using sample_sealed_ran by (cases "seal_at sample_engine 200000000 sample_written") (auto simp: sample_sealed_def)
  have "sync_step sample_engine sample_written sample_sealed"
    by (rule sync_step.Seal [OF seal]) (simp_all add: sample_outboxes)
  with run show sealed: "(sync_step sample_engine)\<^sup>*\<^sup>* sample_device sample_sealed" by (rule rtranclp.rtrancl_into_rtrancl)
  from sealed sync_step.Write [OF rep(1) sample_ahead_state(1)]
  show "(sync_step sample_engine)\<^sup>*\<^sup>* sample_device sample_ahead" by (rule rtranclp.rtrancl_into_rtrancl)
qed

end
