(* ===== verification/Sync_Properties.thy ===== *)
theory Sync_Properties
  imports Sync_Sample
begin

text \<open>
  The properties of the signed log: it replays to the tables, its stamps strictly increase, every
  sealed operation verifies and a verified row says nothing its envelope does not, sealing
  succeeds once the clock is sound and refuses while it is not.
\<close>

section \<open>The log as a record of the tables\<close>

text \<open>
  \<^bold>\<open>C15.\<close> The log and the tables say the same: after any run of captured writes, deletes and seals
  from a fresh device, once nothing is pending, replaying the stored log reads it as one sequence
  of operations, in strictly increasing order of their stamps, each verified, and hands exactly
  these to the engine, whatever the engine does with them. In that sequence the latest operation on
  the address of an editable row carries the row's current content as its payload, and where
  there is no such row there is no operation or the latest one is its tombstone; the payloads of the
  operations on a ledger table are exactly the contents of the table's rows; and there are no
  other operations.
\<close>
theorem log_replays_to_the_tables:
  assumes "engine_law L" and "fresh_device s0" and "(sync_step L)\<^sup>*\<^sup>* s0 s" and "ol_outbox s = []"
  shows "\<exists>os. (\<forall>init (ingest :: sync_op \<Rightarrow> 'e \<Rightarrow> string + 'e). replay L init ingest s = feed L ingest os init)
    \<and> length os = log_len s \<and> sorted_wrt (<) (map (\<lambda>x. stamp (op_hlc x)) os)
    \<and> (\<forall>t i. t \<in> set LWW_TABLES \<longrightarrow>
         (case row_of s t i of
            Some cells \<Rightarrow> \<exists>f. row_object t cells = Inr f \<and> writes_to os t i \<noteq> []
              \<and> op_value (last (writes_to os t i)) = Some (live L f)
          | None \<Rightarrow> writes_to os t i = [] \<or> op_value (last (writes_to os t i)) = Some (dead L i)))
    \<and> (\<forall>t. is_ledger t \<longrightarrow> op_value ` set (facts_of os t)
          = {Some (live L f) | i cells f. row_of s t i = Some cells \<and> row_object t cells = Inr f})
    \<and> (\<forall>t i cells. is_ledger t \<longrightarrow> row_of s t i = Some cells \<longrightarrow> (\<exists>f. row_object t cells = Inr f))
    \<and> (\<forall>x \<in> set os. (\<exists>t i. t \<in> set LWW_TABLES \<and> x \<in> set (writes_to os t i)) \<or> (\<exists>t. is_ledger t \<and> x \<in> set (facts_of os t)))"
proof -
  obtain os where ok: "device_ok L s os"
    using sync_run_keeps [OF assms(1,3) device_ok_fresh [OF assms(2)]] by auto
  then have hist: "history L s os" and ground: "\<forall>x \<in> set os. grounded L s x"
    by (simp_all add: device_ok_def log_ok_def)
  have mirror: "mirrored L s os t i" if "is_replicated t" for t i
    using ok that assms(4) by (auto simp: device_ok_def waiting_def)
  have lww: "case row_of s t i of
      Some cells \<Rightarrow> \<exists>f. row_object t cells = Inr f \<and> writes_to os t i \<noteq> []
        \<and> op_value (last (writes_to os t i)) = Some (live L f)
    | None \<Rightarrow> writes_to os t i = [] \<or> op_value (last (writes_to os t i)) = Some (dead L i)"
    if t: "t \<in> set LWW_TABLES" for t i
  proof -
    have "is_replicated t" and "\<not> is_ledger t" using t tables_disjoint [of t] by (auto simp: is_replicated_def)
    with mirror [of t i] show ?thesis by (simp add: mirrored_def split: option.splits)
  qed
  have rows: "\<exists>f. row_object t cells = Inr f \<and> (\<exists>x \<in> set (facts_of os t). op_value x = Some (live L f))"
    if "is_ledger t" "row_of s t i = Some cells" for t i cells
    using mirror [of t i] that by (auto simp: mirrored_def is_replicated_def)
  have facts: "op_value ` set (facts_of os t)
      = {Some (live L f) | i cells f. row_of s t i = Some cells \<and> row_object t cells = Inr f}" if t: "is_ledger t" for t
  proof
    show "op_value ` set (facts_of os t)
        \<subseteq> {Some (live L f) | i cells f. row_of s t i = Some cells \<and> row_object t cells = Inr f}"
      using ground by (fastforce simp: facts_of_def grounded_def)
    show "{Some (live L f) | i cells f. row_of s t i = Some cells \<and> row_object t cells = Inr f}
        \<subseteq> op_value ` set (facts_of os t)"
    proof
      fix v assume "v \<in> {Some (live L f) | i cells f. row_of s t i = Some cells \<and> row_object t cells = Inr f}"
      then obtain i cells f where v: "v = Some (live L f)" and row: "row_of s t i = Some cells" "row_object t cells = Inr f"
        by blast
      from rows [OF t row(1)] row(2) obtain x where "x \<in> set (facts_of os t)" "op_value x = Some (live L f)" by auto
      then show "v \<in> op_value ` set (facts_of os t)" unfolding v by (metis image_eqI)
    qed
  qed
  have "(\<exists>t i. t \<in> set LWW_TABLES \<and> x \<in> set (writes_to os t i)) \<or> (\<exists>t. is_ledger t \<and> x \<in> set (facts_of os t))"
    if x: "x \<in> set os" for x
    using ground x unfolding grounded_def writes_to_def facts_of_def by auto
  moreover have "length os = log_len s" "sorted_wrt (<) (map (\<lambda>x. stamp (op_hlc x)) os)"
    using hist by (auto simp: history_def log_len_def dest: list_all2_lengthD)
  ultimately show ?thesis
    using replay_history [OF assms(1) hist] lww facts rows by (intro exI [of _ os]) blast
qed

theorem log_replays_to_the_tables_witness:
  "ol_outbox sample_sealed = []
   \<and> (\<exists>os. (\<forall>init (ingest :: sync_op \<Rightarrow> nat \<Rightarrow> string + nat). replay sample_engine init ingest sample_sealed
             = feed sample_engine ingest os init)
        \<and> op_value (last (writes_to os ''accounts'' ''a'')) = Some (live sample_engine
             [(''balance'', JInt (-2)), (''id'', JText ''a''), (''notes'', JNull)]))"
proof -
  have t: "''accounts'' \<in> set LWW_TABLES" by (simp add: LWW_TABLES_def)
  have row: "row_of sample_sealed ''accounts'' ''a'' = Some (account_cells (-2))"
    "row_object ''accounts'' (account_cells (-2)) = Inr [(''balance'', JInt (-2)), (''id'', JText ''a''), (''notes'', JNull)]"
    by code_simp+
  from log_replays_to_the_tables [OF sample_engine_law sample_run(1,3) sample_outboxes(2), where 'e = nat]
  obtain os where "\<forall>init (ingest :: sync_op \<Rightarrow> nat \<Rightarrow> string + nat). replay sample_engine init ingest sample_sealed
      = feed sample_engine ingest os init"
    and "\<forall>t i. t \<in> set LWW_TABLES \<longrightarrow>
         (case row_of sample_sealed t i of
            Some cells \<Rightarrow> \<exists>f. row_object t cells = Inr f \<and> writes_to os t i \<noteq> []
              \<and> op_value (last (writes_to os t i)) = Some (live sample_engine f)
          | None \<Rightarrow> writes_to os t i = [] \<or> op_value (last (writes_to os t i)) = Some (dead sample_engine i))"
    by blast
  from this(1) this(2) [rule_format, OF t, of "''a''"] sample_outboxes(2) show ?thesis by (auto simp: row)
qed

section \<open>Stamps\<close>

text \<open>
  \<^bold>\<open>C17.\<close> Whatever a device has done, what it does next only appends to its log; the stamps of the
  whole log strictly increase in the order of the rows; every new row's stamp comes after the
  clock persisted before the run, however often the clock was reloaded in between; and the
  persisted clock never moves backwards.
\<close>
theorem log_stamps_increase:
  assumes "engine_law L" and "fresh_device s0" and "(sync_step L)\<^sup>*\<^sup>* s0 s" and "(sync_step L)\<^sup>*\<^sup>* s s'"
  shows "\<exists>rows. ol_ops s' = ol_ops s @ rows
    \<and> sorted_wrt (<) (map (\<lambda>r. (or_hlc_wall r, or_hlc_counter r)) (ol_ops s'))
    \<and> (\<forall>r \<in> set rows. stored_stamp (ol_clock s) < (or_hlc_wall r, or_hlc_counter r))
    \<and> stored_stamp (ol_clock s) \<le> stored_stamp (ol_clock s')"
proof -
  obtain os where os: "device_ok L s os"
    using sync_run_keeps [OF assms(1,3) device_ok_fresh [OF assms(2)]] by auto
  obtain new where new: "device_ok L s' (os @ new)" and grows: "log_grows s s' new"
    using sync_run_keeps [OF assms(1,4) os] by blast
  from grows obtain rows where rows: "ol_ops s' = ol_ops s @ rows" by (auto simp: log_grows_def)
  have stamps: "map (\<lambda>r. (or_hlc_wall r, or_hlc_counter r)) rs = map (\<lambda>x. stamp (op_hlc x)) xs"
    if "list_all2 (stands_for L) rs xs" for rs xs
    using that by (induction rule: list_all2_induct) (auto simp: stands_for_def)
  have two: "list_all2 (stands_for L) (ol_ops s) os" "list_all2 (stands_for L) (ol_ops s @ rows) (os @ new)"
    using os new by (auto simp: device_ok_def log_ok_def history_def rows)
  have "length (ol_ops s) = length os" using two(1) by (rule list_all2_lengthD)
  with two(2) have last: "list_all2 (stands_for L) rows new" by (simp add: list_all2_append)
  have "sorted_wrt (<) (map (\<lambda>r. (or_hlc_wall r, or_hlc_counter r)) (ol_ops s'))"
    using new stamps [OF two(2)] by (simp add: device_ok_def log_ok_def history_def rows)
  moreover have "\<forall>r \<in> set rows. stored_stamp (ol_clock s) < (or_hlc_wall r, or_hlc_counter r)"
  proof
    fix r assume "r \<in> set rows"
    then have "(or_hlc_wall r, or_hlc_counter r) \<in> set (map (\<lambda>x. stamp (op_hlc x)) new)"
      unfolding stamps [OF last, symmetric] by force
    then show "stored_stamp (ol_clock s) < (or_hlc_wall r, or_hlc_counter r)"
      using grows by (auto simp: log_grows_def)
  qed
  ultimately show ?thesis using grows by (auto simp: log_grows_def rows)
qed

theorem log_stamps_increase_witness:
  "\<exists>rows. ol_ops sample_sealed = ol_ops sample_device @ rows \<and> length rows = 2
    \<and> sorted_wrt (<) (map (\<lambda>r. (or_hlc_wall r, or_hlc_counter r)) (ol_ops sample_sealed))"
proof -
  obtain rows where "ol_ops sample_sealed = ol_ops sample_device @ rows"
    and "sorted_wrt (<) (map (\<lambda>r. (or_hlc_wall r, or_hlc_counter r)) (ol_ops sample_sealed))"
    using log_stamps_increase [OF sample_engine_law sample_run(1) rtranclp.rtrancl_refl sample_run(3)] by blast
  moreover from this(1) have "length rows = 2"
    using sample_outboxes(3) by (simp add: sample_device_def)
  ultimately show ?thesis by blast
qed

section \<open>Verification\<close>

text \<open>
  \<^bold>\<open>C19.\<close> Verifying the whole log of any device finds nothing wrong: every row is checked, none fails.
\<close>
theorem sealed_log_verifies:
  assumes "engine_law L" and "fresh_device s0" and "(sync_step L)\<^sup>*\<^sup>* s0 s"
  shows "verify_all L s = Inr \<lparr>vr_checked = log_len s, vr_failures = []\<rparr>"
proof -
  obtain os where "device_ok L s os"
    using sync_run_keeps [OF assms(1,3) device_ok_fresh [OF assms(2)]] by auto
  then have hist: "history L s os" by (simp add: device_ok_def log_ok_def)
  then have "length os = log_len s"
    by (auto simp: history_def log_len_def dest: list_all2_lengthD)
  with verify_all_history [OF assms(1) hist] show ?thesis by simp
qed

theorem sealed_log_verifies_witness:
  "verify_all sample_engine sample_sealed = Inr \<lparr>vr_checked = 2, vr_failures = []\<rparr>"
  using sealed_log_verifies [OF sample_engine_law sample_run(1,3)] sample_outboxes(3) by (simp add: log_len_def)

text \<open>
  \<^bold>\<open>C20.\<close> A stored row verifies exactly when its envelope does and every indexed column, the content
  address included, is the one the signed operation gives: no edit of a column survives.
\<close>
theorem verified_row_is_its_envelope:
  "verify L st = Inr opn \<longleftrightarrow>
     sl_verify L (st_cose st) = Inr opn \<and> st_op_id st = encode_hex (sl_op_id L opn)
     \<and> st_ns st = op_ns opn \<and> st_target st = op_target opn \<and> st_author st = encode_hex (h_author (op_hlc opn))
     \<and> st_kind st = op_kind opn \<and> st_hlc_wall st = h_wall (op_hlc opn) \<and> st_hlc_counter st = h_counter (op_hlc opn)"
proof (cases "sl_verify L (st_cose st)")
  case (Inl e)
  then show ?thesis by (simp add: verify_def)
next
  case (Inr x)
  show ?thesis unfolding verify_def Inr by (auto simp: Let_def word_unat_eq_iff)
qed

section \<open>When a seal succeeds\<close>

text \<open>An entry whose row can be turned into an operation.\<close>

definition sealable :: "oplog \<Rightarrow> captured \<Rightarrow> bool" where
  "sealable s e \<longleftrightarrow> is_replicated (cp_table e)
     \<and> (\<exists>fields deleted. payload_of s e = Inr (JObject fields, deleted) \<and> \<not> (is_ledger (cp_table e) \<and> deleted))"

lemma seal_entry_runs:
  assumes law: "engine_law L" and key: "\<And>opn. \<exists>env. sl_sign L seed opn = Inr env" and e: "sealable s e"
    and drift: "uint (h_wall c) \<le> uint now + MAX_CLOCK_DRIFT_MS" and room: "uint (h_counter c) + 1 < 2 ^ 32"
  shows "\<exists>c' rep' s'. seal_entry L seed now e (c, rep, s) = Inr (c', rep', s') \<and> ol_rows s' = ol_rows s
    \<and> uint (h_wall c') \<le> uint now + MAX_CLOCK_DRIFT_MS \<and> uint (h_counter c') \<le> uint (h_counter c) + 1"
proof -
  obtain fields deleted where p: "payload_of s e = Inr (JObject fields, deleted)"
    and r: "is_replicated (cp_table e)" "\<not> (is_ledger (cp_table e) \<and> deleted)"
    using e by (auto simp: sealable_def)
  obtain h c' where t: "sl_tick L c now = (h, c')" by (cases "sl_tick L c now")
  have tl: "tick_law L" using law by (simp add: engine_law_def)
  note f = tick_forward [OF tl counter_not_top [OF room] t]
  obtain opn where o: "op_for_write L (cp_ns e) (cp_table e) (cp_row_id e) (JObject fields) deleted h = Inr opn"
    using r unfolding op_for_write_Inr by blast
  obtain env where env: "sl_sign L seed opn = Inr env" using key by blast
  obtain fresh s' where ins: "insert_op L opn env Local s = (fresh, s')" by (cases "insert_op L opn env Local s")
  have tb: "tick_bounded L c now = Inr (h, c')" using drift t by (simp add: tick_bounded_Inr)
  have run: "seal_entry L seed now e (c, rep, s) = Inr (c',
      (if fresh then rep\<lparr>sr_sealed := sr_sealed rep + 1\<rparr> else rep\<lparr>sr_already_present := sr_already_present rep + 1\<rparr>), s')"
    by (simp add: seal_entry_def p tb o env ins)
  have "ol_rows s' = ol_rows s" using ins by (auto simp: insert_op_def Let_def split: if_splits)
  moreover have "uint (h_wall c') \<le> uint now + MAX_CLOCK_DRIFT_MS"
    using f(4) drift by (simp add: MAX_CLOCK_DRIFT_MS_def)
  ultimately show ?thesis using run f(5) by blast
qed

lemma seal_loop_runs:
  assumes law: "engine_law L" and key: "\<And>opn. \<exists>env. sl_sign L seed opn = Inr env"
  shows "\<forall>e \<in> set es. sealable s e \<Longrightarrow> uint (h_wall c) \<le> uint now + MAX_CLOCK_DRIFT_MS
     \<Longrightarrow> uint (h_counter c) + int (length es) < 2 ^ 32 \<Longrightarrow> \<exists>st. for_each (seal_entry L seed now) es (c, rep, s) = Inr st"
proof (induction es arbitrary: c rep s)
  case (Cons e es)
  have "sealable s e" and room: "uint (h_counter c) + 1 < 2 ^ 32" using Cons.prems by simp_all
  from seal_entry_runs [OF law key this(1) Cons.prems(2) room, of rep] obtain c' rep' s' where
    one: "seal_entry L seed now e (c, rep, s) = Inr (c', rep', s')" and rows: "ol_rows s' = ol_rows s"
    and c': "uint (h_wall c') \<le> uint now + MAX_CLOCK_DRIFT_MS" "uint (h_counter c') \<le> uint (h_counter c) + 1"
    by blast
  have "\<forall>e \<in> set es. sealable s' e" using Cons.prems(1) by (simp add: sealable_def payload_of_rows [OF rows])
  from Cons.IH [OF this c'(1)] c'(2) Cons.prems(3) obtain st where
    "for_each (seal_entry L seed now) es (c', rep', s') = Inr st" by fastforce
  then have "for_each (seal_entry L seed now) (e # es) (c, rep, s) = Inr st" by (simp add: one)
  then show ?case by blast
qed simp

lemma loaded_clock:
  assumes "clock_ok stored"
  shows "uint (h_wall (load_clock stored author)) = fst (stored_stamp stored)"
    and "uint (h_counter (load_clock stored author)) = snd (stored_stamp stored)"
  unfolding load_clock_stamp(1) [OF assms, of author, symmetric] by (simp_all add: stamp_def)

lemma identity_key_used:
  "with_identity_key L s consume = attempt (with_identity_key L s Inr) consume"
  by (cases "require_identity s"; cases "ol_secret s") (auto simp: with_identity_key_def split: option.splits)

lemma identity_key_known: "with_identity_key L s Inr = Inr key \<Longrightarrow> with_identity_key L s consume = consume key"
  using identity_key_used [of L s consume] by simp

lemma identity_known: "with_identity_key L s Inr = Inr key \<Longrightarrow> \<exists>d. require_identity s = Inr d"
  by (auto simp: with_identity_key_def attempt_eq_Inr)

lemma waiting_sealable:
  assumes ok: "device_ok L s os" and e: "e \<in> set (coalesce (ol_outbox s))"
    and read: "\<And>cells. row_of s (cp_table e) (cp_row_id e) = Some cells \<Longrightarrow> \<exists>f. row_object (cp_table e) cells = Inr f"
  shows "sealable s e"
proof -
  have out: "outbox_sorted s" using ok by (simp add: device_ok_def)
  have es: "coalesce (ol_outbox s) = keep_last (ol_outbox s)"
    using drain_sorted [OF out] by (simp add: coalesce_eq drain_list_def)
  have mem: "e \<in> set (ol_outbox s)" using e keep_last_facts(2) [of "ol_outbox s"] by (auto simp: es)
  then have rep: "is_replicated (cp_table e)" using ok by (simp add: device_ok_def)
  have w: "waiting s (cp_table e) (cp_row_id e) \<noteq> []"
    using mem by (auto simp: waiting_def filter_empty_conv row_key_def)
  then have led: "is_ledger (cp_table e) \<longrightarrow> row_of s (cp_table e) (cp_row_id e) \<noteq> None"
    and flag: "cp_deleted (last (waiting s (cp_table e) (cp_row_id e))) = (row_of s (cp_table e) (cp_row_id e) = None)"
    using ok rep by (auto simp: device_ok_def)
  have last: "e = last (waiting s (cp_table e) (cp_row_id e))"
    using kept_is_last [of e "ol_outbox s"] e by (simp add: es waiting_def row_key_def)
  have "\<exists>fields deleted. payload_of s e = Inr (JObject fields, deleted) \<and> deleted = (row_of s (cp_table e) (cp_row_id e) = None)"
  proof (cases "row_of s (cp_table e) (cp_row_id e)")
    case None
    then have "cp_deleted e" using flag last by simp
    then show ?thesis using None by (auto simp: payload_of_def tombstone_def)
  next
    case (Some cells)
    then have "\<not> cp_deleted e" using flag last by simp
    then show ?thesis using Some read rep by (auto simp: payload_of_def read_row_def)
  qed
  then show ?thesis using rep led by (auto simp: sealable_def)
qed

text \<open>
  \<^bold>\<open>C18.\<close> Nothing pending is stuck: when the identity's key is usable and signs, the stored clock is at
  most a day ahead of now and every waiting row can be written as JSON, a seal of any reachable
  device succeeds; it drains the whole outbox, accounts for every pending write and appends one
  operation per row that waited.
\<close>
theorem pending_writes_seal:
  assumes "engine_law L" and "fresh_device s0" and "(sync_step L)\<^sup>*\<^sup>* s0 s"
    and "with_identity_key L s Inr = Inr key" and "\<And>opn. \<exists>env. sl_sign L key opn = Inr env"
    and "fst (stored_stamp (ol_clock s)) \<le> uint now + MAX_CLOCK_DRIFT_MS" and "uint now < 2 ^ 63" and "room s"
    and "\<And>t i cells. row_of s t i = Some cells \<Longrightarrow> \<exists>f. row_object t cells = Inr f"
  shows "\<exists>rep s'. seal_at L now s = Inr (rep, s') \<and> sr_captured rep = pending s \<and> ol_outbox s' = []
    \<and> sr_sealed rep = card (row_key ` set (ol_outbox s)) \<and> log_len s' = log_len s + sr_sealed rep"
proof -
  obtain os where ok: "device_ok L s os"
    using sync_run_keeps [OF assms(1,3) device_ok_fresh [OF assms(2)]] by auto
  then have log: "log_ok L s os" and out: "outbox_sorted s" and hist: "history L s os" and cok: "clock_ok (ol_clock s)"
    by (auto simp: device_ok_def log_ok_def)
  obtain d where id: "require_identity s = Inr d" using identity_known [OF assms(4)] by blast
  let ?c = "load_clock (ol_clock s) (sl_public L key)"
  have bounds: "uint (h_wall ?c) \<le> uint now + MAX_CLOCK_DRIFT_MS"
    "uint (h_counter ?c) + int (length (coalesce (ol_outbox s))) < 2 ^ 32"
    using assms(6,8) coalesce_length [of "ol_outbox s"] by (simp_all add: loaded_clock [OF cok] room_def)
  have ready: "\<forall>e \<in> set (coalesce (ol_outbox s)). sealable s e"
  proof
    fix e assume "e \<in> set (coalesce (ol_outbox s))"
    then show "sealable s e" by (rule waiting_sealable [OF ok]) (rule assms(9))
  qed
  from seal_loop_runs [OF assms(1,5) ready bounds] obtain st where "for_each (seal_entry L key now) (coalesce (ol_outbox s))
      (?c, \<lparr>sr_captured = length (ol_outbox s), sr_sealed = 0, sr_already_present = 0\<rparr>, s) = Inr st" by blast
  then have "\<exists>rep s'. seal_at L now s = Inr (rep, s')"
    by (cases st) (auto simp: seal_at_def id drain_sorted [OF out] Let_def identity_key_known [OF assms(4)])
  then obtain rep s' where seal: "seal_at L now s = Inr (rep, s')" by blast
  from seal_at_effect [OF assms(1) seal assms(7) log out assms(8)] obtain new where
    new: "list_all2 (minted L s) (coalesce (ol_outbox s)) new" "log_ok L s' (os @ new)" "ol_outbox s' = []"
      "sr_captured rep = length (ol_outbox s)" "sr_sealed rep = length new" by metis
  have "length (ol_ops s') = length (os @ new)" "length (ol_ops s) = length os"
    using new(2) hist by (auto simp: log_ok_def history_def dest: list_all2_lengthD)
  moreover have "length new = card (row_key ` set (ol_outbox s))"
    using list_all2_lengthD [OF new(1)] coalesce_keeps_keys [of "ol_outbox s"]
    by (metis distinct_card length_map set_map)
  ultimately show ?thesis using seal new by (auto simp: pending_def log_len_def)
qed

theorem pending_writes_seal_witness:
  "\<exists>rep s'. seal_at sample_engine 5 sample_written = Inr (rep, s') \<and> sr_captured rep = 3 \<and> ol_outbox s' = []"
proof -
  have key: "with_identity_key sample_engine sample_written Inr = Inr (replicate 32 (CHR 0x00))"
    and clock: "fst (stored_stamp (ol_clock sample_written)) \<le> uint (5 :: 64 word) + MAX_CLOCK_DRIFT_MS"
    using sample_written_state by (simp_all add: waiting_state_def MAX_CLOCK_DRIFT_MS_def)
  have read: "\<exists>f. row_object t cells = Inr f" if "row_of sample_written t i = Some cells" for t i cells
    by (rule rows_readable [OF _ that]) (use sample_written_state in \<open>simp add: waiting_state_def\<close>)
  have small: "uint (5 :: 64 word) < 2 ^ 63" by simp
  have "\<exists>rep s'. seal_at sample_engine 5 sample_written = Inr (rep, s') \<and> sr_captured rep = pending sample_written
      \<and> ol_outbox s' = [] \<and> sr_sealed rep = card (row_key ` set (ol_outbox sample_written))
      \<and> log_len s' = log_len sample_written + sr_sealed rep"
    by (rule pending_writes_seal [OF sample_engine_law sample_run(1,2) key sample_signs clock small sample_outboxes(4)])
      (rule read)
  then show ?thesis using sample_outboxes(1) by (auto simp: pending_def)
qed

text \<open>
  \<^bold>\<open>C21.\<close> A clock more than a day ahead signs nothing: with the same identity and the same readable
  rows, a seal with anything pending is refused with the drift and the bound, so the log, the
  clock and the outbox stay as they were.
\<close>
theorem drifted_clock_refused:
  assumes "engine_law L" and "fresh_device s0" and "(sync_step L)\<^sup>*\<^sup>* s0 s"
    and "with_identity_key L s Inr = Inr key" and "ol_outbox s \<noteq> []"
    and "uint now + MAX_CLOCK_DRIFT_MS < fst (stored_stamp (ol_clock s))"
    and "\<And>t i cells. row_of s t i = Some cells \<Longrightarrow> \<exists>f. row_object t cells = Inr f"
  shows "seal_at L now s
    = Inl (SyncClockDrift (nat (fst (stored_stamp (ol_clock s)) - uint now)) (nat MAX_CLOCK_DRIFT_MS))"
proof -
  obtain os where ok: "device_ok L s os"
    using sync_run_keeps [OF assms(1,3) device_ok_fresh [OF assms(2)]] by auto
  then have out: "outbox_sorted s" and cok: "clock_ok (ol_clock s)" by (auto simp: device_ok_def log_ok_def)
  obtain d where id: "require_identity s = Inr d" using identity_known [OF assms(4)] by blast
  let ?c = "load_clock (ol_clock s) (sl_public L key)"
  have w: "uint (h_wall ?c) = fst (stored_stamp (ol_clock s))"
    by (rule loaded_clock(1) [OF cok])
  obtain e es where es: "coalesce (ol_outbox s) = e # es"
    using assms(5) coalesce_keeps_keys [of "ol_outbox s"] by (cases "coalesce (ol_outbox s)") auto
  have "sealable s e" by (rule waiting_sealable [OF ok _ assms(7)]) (simp add: es)
  then obtain p where "payload_of s e = Inr p" by (auto simp: sealable_def)
  then have first: "seal_entry L key now e (?c, rep, s)
      = Inl (SyncClockDrift (nat (fst (stored_stamp (ol_clock s)) - uint now)) (nat MAX_CLOCK_DRIFT_MS))" for rep
    using assms(6) by (cases p) (simp add: seal_entry_def attempt_eq_Inl tick_bounded_Inl w)
  show ?thesis
    using assms(5) by (simp add: seal_at_def id drain_sorted [OF out] Let_def identity_key_known [OF assms(4)] es first)
qed

theorem drifted_clock_refused_witness:
  "seal_at sample_engine 5 sample_ahead = Inl (SyncClockDrift (nat 199999995) (nat 86400000))"
proof -
  have key: "with_identity_key sample_engine sample_ahead Inr = Inr (replicate 32 (CHR 0x00))"
    and out: "ol_outbox sample_ahead \<noteq> []" and wall: "fst (stored_stamp (ol_clock sample_ahead)) = 200000000"
    using sample_ahead_state(2) by (simp_all add: waiting_state_def)
  have read: "\<exists>f. row_object t cells = Inr f" if "row_of sample_ahead t i = Some cells" for t i cells
    by (rule rows_readable [OF _ that]) (use sample_ahead_state(2) in \<open>simp add: waiting_state_def\<close>)
  have "uint (5 :: 64 word) + MAX_CLOCK_DRIFT_MS < fst (stored_stamp (ol_clock sample_ahead))"
    by (simp add: wall MAX_CLOCK_DRIFT_MS_def)
  then have "seal_at sample_engine 5 sample_ahead = Inl (SyncClockDrift
      (nat (fst (stored_stamp (ol_clock sample_ahead)) - uint (5 :: 64 word))) (nat MAX_CLOCK_DRIFT_MS))"
    by (rule drifted_clock_refused [OF sample_engine_law sample_run(1,4) key out]) (rule read)
  then show ?thesis by (simp add: wall MAX_CLOCK_DRIFT_MS_def)
qed

section \<open>Writes and their operations\<close>

text \<open>
  \<^bold>\<open>C22.\<close> A write survives the mapping: from the operation of a write the receiver reads back the table,
  the row's id (an editable table's target names both), the payload, the tombstone flag and the stamp.
\<close>
theorem written_row_reads_back:
  assumes "op_for_write L ns t i row deleted h = Inr opn" and "i \<noteq> []"
    and "sl_json_parse L (sl_json_text L row) = Some row"
  shows "(if is_ledger t then op_target opn = t else parse_lww_target (op_target opn) = Some (t, i))
    \<and> (\<exists>v. op_value opn = Some v \<and> parse_row_value L v = Some (row, deleted))
    \<and> op_ns opn = ns \<and> op_hlc opn = h"
  using op_for_write_fields [OF assms(1)] parse_lww_target_round [OF _ assms(2)] row_payload_round [OF assms(3)]
  by simp

theorem written_row_reads_back_witness:
  "\<exists>opn. op_for_write sample_engine ''b'' ''accounts'' ''a'' (JObject [(''id'', JText ''a'')]) True
      \<lparr>h_wall = 5, h_counter = 0, h_author = ''k''\<rparr> = Inr opn
    \<and> parse_lww_target (op_target opn) = Some (''accounts'', ''a'')"
proof -
  let ?row = "JObject [(''id'', JText ''a'')]" and ?h = "\<lparr>h_wall = 5, h_counter = 0, h_author = ''k''\<rparr> :: hlc"
  have "\<not> isl (op_for_write sample_engine ''b'' ''accounts'' ''a'' ?row True ?h)" by code_simp
  then obtain opn where o: "op_for_write sample_engine ''b'' ''accounts'' ''a'' ?row True ?h = Inr opn"
    by (cases "op_for_write sample_engine ''b'' ''accounts'' ''a'' ?row True ?h") auto
  have "sl_json_parse sample_engine (sl_json_text sample_engine ?row) = Some ?row" "\<not> is_ledger ''accounts''"
    by code_simp+
  then show ?thesis using written_row_reads_back [OF o] o by auto
qed

section \<open>The version vector\<close>

definition sample_resealed :: oplog where
  "sample_resealed = snd (projr (seal_at sample_engine 300000000 sample_ahead))"

definition invents_stamp :: "(seal_report \<times> oplog) res \<Rightarrow> bool" where
  "invents_stamp r \<longleftrightarrow> \<not> isl r \<and> version_vector (snd (projr r)) = [(sample_key, 300000000, 1)]
     \<and> list_all (\<lambda>x. (or_hlc_wall x, or_hlc_counter x) \<noteq> (300000000, 1)) (ol_ops (snd (projr r)))"

lemma sample_resealed_ran: "invents_stamp (seal_at sample_engine 300000000 sample_ahead)"
  by code_simp

text \<open>
  The version vector of the status is not the high-water stamp of an author: it takes the
  largest wall and the largest counter separately, and a device can reach a log whose vector names
  a stamp no operation has.
\<close>
theorem version_vector_invents_a_stamp:
  "\<exists>s a w c. (sync_step sample_engine)\<^sup>*\<^sup>* sample_device s \<and> (a, w, c) \<in> set (version_vector s)
    \<and> (\<nexists>r. r \<in> set (ol_ops s) \<and> (or_hlc_wall r, or_hlc_counter r) = (uint w, uint c))"
proof -
  have ran: "\<not> isl (seal_at sample_engine 300000000 sample_ahead)"
    and vec: "version_vector sample_resealed = [(sample_key, 300000000, 1)]"
    and none: "list_all (\<lambda>x. (or_hlc_wall x, or_hlc_counter x) \<noteq> (300000000, 1)) (ol_ops sample_resealed)"
    using sample_resealed_ran by (simp_all add: invents_stamp_def sample_resealed_def)
  obtain rep where seal: "seal_at sample_engine 300000000 sample_ahead = Inr (rep, sample_resealed)"
    using ran by (cases "seal_at sample_engine 300000000 sample_ahead") (auto simp: sample_resealed_def)
  have "sync_step sample_engine sample_ahead sample_resealed"
    by (rule sync_step.Seal [OF seal]) (use sample_ahead_room in simp_all)
  with sample_run(4) have "(sync_step sample_engine)\<^sup>*\<^sup>* sample_device sample_resealed"
    by (rule rtranclp.rtrancl_into_rtrancl)
  moreover have "(sample_key, 300000000, 1) \<in> set (version_vector sample_resealed)" by (simp add: vec)
  moreover have "\<nexists>r. r \<in> set (ol_ops sample_resealed)
      \<and> (or_hlc_wall r, or_hlc_counter r) = (uint (300000000 :: 64 word), uint (1 :: 32 word))"
    using none by (auto simp: list_all_iff)
  ultimately show ?thesis by blast
qed

end
