(* ===== verification/Spec2Isabelle.thy ===== *)
theory Spec2Isabelle
  imports Calendar Sample Period_Close Stock Purchasing Assets Order_Errors Sales_Flow Receivables
    Recurrence Sync_Properties
begin

text \<open>
  \<^bold>\<open>The accounting core of SlipScan.\<close>

  SlipScan keeps the books of small businesses and households in one SQLite file. The crate
  \<^verbatim>\<open>crates/slipscan-core\<close> holds all of its rules: \<^verbatim>\<open>src/domain.rs\<close> declares the data, \<^verbatim>\<open>src/repo/*.rs\<close>
  the SQL statements, \<^verbatim>\<open>src/service.rs\<close> the operations, each in one transaction, and \<^verbatim>\<open>src/sync\<close> the
  signed log of writes that replicates a book between devices, with \<^verbatim>\<open>crates/slipscan-sync\<close> as its
  mapping to the replication engine. This library models that core: the ledger and everything that
  posts to it, the documents of buying and selling, and the signed log.

  \<^bold>\<open>How the program is modelled.\<close>
  A database is the record \<open>db\<close> of its tables, a table the list of its rows in insertion order, a row
  the record of its struct. An operation is a function of the environment, its arguments and the
  database, with a result \<open>core_error + value \<times> db\<close>: every \<^verbatim>\<open>Err\<close> is an \<open>Inl\<close>, and since an operation
  that fails is rolled back, no database comes with it. A \<^verbatim>\<open>panic\<close> of the source (an
  \<^verbatim>\<open>expect\<close> that fails) is the error value \<open>Panic\<close>, so that its absence is a theorem and not an
  assumption. \<open>attempt\<close> is the question-mark operator, \<open>for_each\<close> the \<^verbatim>\<open>for\<close> loop that stops at the
  first error. Amounts are 64-bit: sums and products wrap (\<open>wrap64\<close>, a release build), saturate or are
  clamped exactly where the source does, and sums that SQLite takes raise its overflow error.
  Unique indexes, foreign keys, cascades and immutability triggers of the schema are branches of the
  statements that meet them.

  \<^bold>\<open>What is a parameter.\<close>
  The environment \<open>env\<close> has the source of fresh ids, the clock and the \<^verbatim>\<open>time\<close> crate (\<open>time_lib\<close>: parsing,
  formatting, day arithmetic, month lengths). Theorems about operations hold for every environment;
  where two rows must not collide, the hypothesis is that the ids drawn are fresh, and the dates of
  recurring schedules rest on \<open>calendar_laws\<close>, which the Gregorian calendar of \<open>Calendar\<close> satisfies. The
  replication engine and the JSON printer of the sync crates are the record \<open>sync_lib\<close>; what is relied
  on is \<open>engine_law\<close>: a tick is above the clock it advances, what a key signs for its own author verifies as
  the very operation that was signed, and different operations have different ids (an id is a hash). \<open>Sync_Sample\<close> has an engine that
  satisfies all of it.

  \<^bold>\<open>The theories.\<close>
  Foundation: \<open>Core_Prelude\<close> (errors of \<^verbatim>\<open>error.rs\<close>, results, 64-bit amounts, the loop and its frame
  rules), \<open>Ordered_Map\<close> (the \<^verbatim>\<open>BTreeMap\<close> of the service layer as a sorted list, with the equations of a
  map), \<open>Domain_Books\<close> and \<open>Domain\<close> (\<^verbatim>\<open>domain.rs\<close>), \<open>Dates\<close> (the date helpers of \<^verbatim>\<open>util.rs\<close>), \<open>Calendar\<close> and
  \<open>Sample\<close> (the calendar and the book that witnesses run on), \<open>Store\<close> (tables, ids, audit log and
  look-ups), \<open>Vat\<close> (\<^verbatim>\<open>vat.rs\<close>).

  Ledger: \<open>Ledger\<close> is \<^verbatim>\<open>repo/ledger.rs\<close> with \<open>journal_post\<close>, \<open>journal_reverse\<close> and the functions they share;
  \<open>Ledger_Laws\<close> shows its invariant \<open>ledger_ok\<close>, what a posting stores, which requests it refuses and with
  which error, that a reversal moves every account back, and that the walk along a chain of reversals
  returns. \<open>Period_Close\<close> is the lock date, the close report and the close itself (\<^verbatim>\<open>repo/close.rs\<close>), with
  the steps \<open>closed_step\<close> of a book that stays closed up to a date.

  Stock and trade: \<open>Stock\<close> is the ledger of movements (\<^verbatim>\<open>repo/stock.rs\<close>). \<open>Trade_Posting\<close> has the journals
  that trade generates (receipt, cost, revenue, payment) and their reversal; the locale \<open>trade_posting\<close>
  states what each of them promises and is interpreted on all four, on the recognition of a sale and on
  depreciation. \<open>Purchasing\<close> has purchase orders and receipts (\<^verbatim>\<open>repo/purchasing.rs\<close>), \<open>Assets\<close> the fixed
  assets with depreciation and disposal (\<^verbatim>\<open>repo/assets.rs\<close>).

  Sales: \<open>Sales_Repo\<close> is \<^verbatim>\<open>repo/sales.rs\<close>; the locale \<open>document\<close> of \<open>Documents\<close> states what a header table
  with its lines keeps, and is interpreted on orders, quotes and invoices. \<open>Sales_Orders\<close>, \<open>Quotes\<close> and
  \<open>Invoicing\<close> have the operations. \<open>Order_Lifecycle\<close> follows an order through the step relation
  \<open>order_step\<close> (confirm, cancel, pay, and every edit), \<open>Order_Errors\<close> shows that no \<^verbatim>\<open>expect\<close> on its way can
  fail, \<open>Sales_Flow\<close> has the relation \<open>sales_step\<close> of the whole sales side with its invariant, and
  \<open>Receivables\<close> compares the aged receivables with their definition. \<open>Recurrence\<close> has the dates of
  recurring schedules (\<^verbatim>\<open>recurrence.rs\<close>).

  Sync: \<open>Sync_Mapping\<close> is \<^verbatim>\<open>slipscan-sync/src/lib.rs\<close>; \<open>Sync_Clock\<close> and \<open>Sync_Log\<close> are \<^verbatim>\<open>sync/clock.rs\<close>,
  \<^verbatim>\<open>sync/capture.rs\<close> and \<^verbatim>\<open>sync/mod.rs\<close> with the capture triggers of the migrations and the identity key
  of \<^verbatim>\<open>device\<close>. \<open>Sync_Laws\<close> and \<open>Sync_Replica\<close> carry the invariant of the log under the steps \<open>sync_step\<close>
  (a write, a deletion, a seal), and \<open>Sync_Properties\<close> the statements about it.

  \<^bold>\<open>Fuel and bounds.\<close>
  Two loops are not structural. The walk along a chain of reversals (\<open>reversal_walk\<close>) is given one unit
  more than there are journals; under \<open>ledger_ok\<close> a reversal is younger than what it reverses, so the
  walk meets no journal twice and the fuel is enough, which is proved of it; running out would be the
  error value \<open>Unreturned\<close>, never a result. The other loops run over lists. A seal
  is assumed to have \<open>room\<close>: as many stamps left in its 32-bit counter as rows wait in the outbox. Balances are
  stated as 64-bit sums wherever the source adds without a check, and as sums of whole numbers where a
  hypothesis bounds them.

  \<^bold>\<open>What is not modelled.\<close>
  The command line, the server, the desktop shell, ingestion of mail and bank files, extraction from
  images, rule packs, pairing and vaults are input and output around the core or rest on formats and
  services outside the repository. Inside the core, transactions with their categories, budgets,
  reconciliation and reports of households, foreign exchange, the payment watcher, the chart-of-accounts
  mapping and the generation of documents by recurring schedules are left out; none of them is called
  by what is modelled. The merge of a replica is the engine's: the theorems end with the verified
  sequence of operations that is handed to it.
\<close>

end
